(* ===== verification/Bcos_Prelude.thy ===== *)
theory Bcos_Prelude
  imports Main "HOL-Library.Word" "HOL-Library.AList" "HOL-Library.Char_ord"
    "HOL-Library.List_Lexorder" "HOL-Library.Multiset"
begin

text \<open>
  Shared vocabulary of the development: bytes and byte strings, the error object of
  \<^verbatim>\<open>libutilities/Error.h\<close> and the result type built on it, the 32-bit narrowing
  of C++, big- and little-endian positional notation, finite maps kept as association
  lists (hash maps whose iteration order is not fixed), and the collections of rewrite
  rules the component theories add to.  Two interfaces used by several components live
  here as locales: transition systems with an invariant, and stream codecs.
\<close>

named_theorems storage_simps \<open>unfolding rules of the storage layer\<close>
named_theorems codec_rt \<open>decoding after encoding, with an arbitrary remainder\<close>
named_theorems sealing_simps \<open>unfolding rules of the sealer\<close>

type_synonym byte = "8 word"
type_synonym bytes = "byte list"

text \<open>\<^verbatim>\<open>bcos::Error\<close>: code, message and the wrapped previous error.\<close>

datatype error = Error (errorCode: int) (errorMessage: string) (errorPrev: "error option")

type_synonym 'a result = "error + 'a"

definition is_ok :: "'e + 'a \<Rightarrow> bool" where
  "is_ok r = (case r of Inl _ \<Rightarrow> False | Inr _ \<Rightarrow> True)"

lemma is_ok_simps [simp]: "is_ok (Inr x)" "\<not> is_ok (Inl e)"
  by (simp_all add: is_ok_def)

definition bind_res :: "'e + 'a \<Rightarrow> ('a \<Rightarrow> 'e + 'b) \<Rightarrow> 'e + 'b" where
  "bind_res r f = (case r of Inl e \<Rightarrow> Inl e | Inr x \<Rightarrow> f x)"

lemma bind_res_simps [simp]:
  "bind_res (Inl e) f = Inl e" "bind_res (Inr x) f = f x"
  by (simp_all add: bind_res_def)

lemma bind_res_cong [fundef_cong]:
  "r = r' \<Longrightarrow> (\<And>x. r' = Inr x \<Longrightarrow> f x = g x) \<Longrightarrow> bind_res r f = bind_res r' g"
  by (cases r') (simp_all add: bind_res_def)

lemma bind_res_eq_Inr:
  "bind_res r f = Inr y \<longleftrightarrow> (\<exists>x. r = Inr x \<and> f x = Inr y)"
  by (cases r) simp_all

text \<open>A loop over a list whose body may raise; the first error ends it.\<close>

fun map_res :: "('a \<Rightarrow> 'e + 'b) \<Rightarrow> 'a list \<Rightarrow> 'e + 'b list" where
  "map_res f [] = Inr []"
| "map_res f (x # xs) = bind_res (f x) (\<lambda>y. bind_res (map_res f xs) (\<lambda>ys. Inr (y # ys)))"

lemma map_res_Inr_iff: "map_res f xs = Inr ys \<longleftrightarrow> list_all2 (\<lambda>x y. f x = Inr y) xs ys"
proof (induction xs arbitrary: ys)
  case (Cons x xs)
  then show ?case by (cases ys) (auto simp: bind_res_eq_Inr)
qed auto

lemma map_res_map: "(\<And>x. x \<in> set xs \<Longrightarrow> f x = Inr (g x)) \<Longrightarrow> map_res f xs = Inr (map g xs)"
  by (induction xs) simp_all

text \<open>Conversion of an unsigned size to \<^verbatim>\<open>int32_t\<close>.\<close>

definition to_int32 :: "nat \<Rightarrow> int" where
  "to_int32 n = signed_take_bit 31 (int n)"

lemma to_int32_small [simp]: "n < 2147483648 \<Longrightarrow> to_int32 n = int n"
  by (simp add: to_int32_def signed_take_bit_int_eq_self)

text \<open>\<^verbatim>\<open>std::to_string\<close> of an unsigned number.\<close>

fun to_string :: "nat \<Rightarrow> string" where
  "to_string n = (if n < 10 then [char_of (48 + n)] else to_string (n div 10) @ [char_of (48 + n mod 10)])"

declare to_string.simps [simp del]

section \<open>Ordered maps\<close>

text \<open>\<^verbatim>\<open>std::map\<close> as the list of its entries by ascending key: assignment to an entry and removal.\<close>

fun map_assign :: "'k::linorder \<Rightarrow> 'v \<Rightarrow> ('k \<times> 'v) list \<Rightarrow> ('k \<times> 'v) list" where
  "map_assign k v [] = [(k, v)]"
| "map_assign k v ((k', v') # m) =
     (if k < k' then (k, v) # (k', v') # m else if k = k' then (k, v) # m else (k', v') # map_assign k v m)"

definition map_erase :: "'k \<Rightarrow> ('k \<times> 'v) list \<Rightarrow> ('k \<times> 'v) list" where
  "map_erase k m = filter (\<lambda>p. fst p \<noteq> k) m"

definition ordered_map :: "('k::linorder \<times> 'v) list \<Rightarrow> bool" where
  "ordered_map m = sorted_wrt (<) (map fst m)"

lemma map_of_map_assign: "map_of (map_assign k v m) = (map_of m)(k \<mapsto> v)"
  by (induction m) auto

lemma map_assign_keys: "fst ` set (map_assign k v m) = insert k (fst ` set m)"
  by (simp add: dom_map_of_conv_image_fst [symmetric] map_of_map_assign)

lemma set_map_assign: "set (map_assign k v m) \<subseteq> insert (k, v) (set m)"
  by (induction m) (auto split: if_splits)

lemma set_map_erase: "set (map_erase k m) \<subseteq> set m"
  by (auto simp: map_erase_def)

lemma map_assign_ordered: "ordered_map m \<Longrightarrow> ordered_map (map_assign k v m)"
proof (induction m)
  case (Cons p m)
  obtain k' v' where p: "p = (k', v')" by (cases p)
  have "ordered_map m" using Cons.prems by (simp add: ordered_map_def)
  then show ?case using Cons map_assign_keys [of k v m] by (auto simp: p ordered_map_def)
qed (simp add: ordered_map_def)

lemma map_assign_last: "\<forall>k' \<in> set (map fst m). k' < k \<Longrightarrow> map_assign k v m = m @ [(k, v)]"
  by (induction m) (auto simp: not_less_iff_gr_or_eq)

lemma map_erase_ordered: "ordered_map m \<Longrightarrow> ordered_map (map_erase k m)"
  by (simp add: ordered_map_def map_erase_def sorted_wrt_map sorted_wrt_filter)

lemma map_of_map_erase: "map_of (map_erase k m) = (map_of m)(k := None)"
  by (induction m) (auto simp: map_erase_def fun_eq_iff)

section \<open>Decimal notation\<close>

definition is_digit :: "char \<Rightarrow> bool" where
  "is_digit c = (CHR ''0'' \<le> c \<and> c \<le> CHR ''9'')"

definition digits_value :: "string \<Rightarrow> nat" where
  "digits_value s = foldl (\<lambda>v c. v * 10 + (of_char c - 48)) 0 s"

lemma to_string_nonempty [simp]: "to_string n \<noteq> []"
  by (cases "n < 10") (subst to_string.simps, simp)+

lemma digit_char:
  fixes n :: nat
  shows "n < 10 \<Longrightarrow> is_digit (char_of (48 + n)) \<and> of_char (char_of (48 + n) :: char) = 48 + n"
  by (simp add: is_digit_def less_eq_char_def)

lemma to_string_digits: "list_all is_digit (to_string n)"
proof (induction n rule: to_string.induct)
  case (1 n)
  show ?case
  proof (cases "n < 10")
    case True
    then show ?thesis using digit_char [OF True] by (subst to_string.simps) simp
  next
    case False
    have "is_digit (char_of (48 + n mod 10))" using digit_char [of "n mod 10"] by simp
    then show ?thesis using 1 False by (subst to_string.simps) simp
  qed
qed

lemma digits_value_to_string: "digits_value (to_string n) = n"
proof (induction n rule: to_string.induct)
  case (1 n)
  show ?case
  proof (cases "n < 10")
    case True
    then show ?thesis using digit_char [OF True] by (subst to_string.simps) (simp add: digits_value_def)
  next
    case False
    have "(of_char (char_of (48 + n mod 10) :: char) :: nat) = 48 + n mod 10" using digit_char [of "n mod 10"] by simp
    then show ?thesis using 1 False by (subst to_string.simps) (simp add: digits_value_def)
  qed
qed

lemma to_string_inj [simp]: "to_string m = to_string n \<longleftrightarrow> m = n"
  by (metis digits_value_to_string)

text \<open>A field that ends at the first separator is determined by the text.\<close>

lemma separated_unique:
  assumes "a @ c # x = b @ c # y" "c \<notin> set a" "c \<notin> set b"
  shows "a = b \<and> x = y"
  using assms
proof (induction a arbitrary: b)
  case Nil
  then show ?case by (cases b) auto
next
  case (Cons z a)
  then show ?case by (cases b) auto
qed

section \<open>Characters and bytes\<close>

definition char_of_byte :: "byte \<Rightarrow> char" where
  "char_of_byte b = char_of (unat b)"

definition byte_of_char :: "char \<Rightarrow> byte" where
  "byte_of_char c = of_nat (of_char c)"

lemma byte_of_char_of_byte [simp]: "byte_of_char (char_of_byte b) = b"
proof -
  have "unat b < 256" using unsigned_less [of b] by simp
  then show ?thesis by (simp add: byte_of_char_def char_of_byte_def)
qed

lemma char_of_byte_of_char [simp]: "char_of_byte (byte_of_char c) = c"
proof -
  have "(of_char c :: nat) < 256" by simp
  then have "unat (of_nat (of_char c) :: byte) = of_char c"
    by (simp add: unat_of_nat take_bit_eq_mod)
  then show ?thesis by (simp add: char_of_byte_def byte_of_char_def)
qed

definition bytes_of_string :: "string \<Rightarrow> bytes" where
  "bytes_of_string s = map byte_of_char s"

definition string_of_bytes :: "bytes \<Rightarrow> string" where
  "string_of_bytes b = map char_of_byte b"

lemma string_of_bytes_of_string [simp]: "string_of_bytes (bytes_of_string s) = s"
  by (simp add: string_of_bytes_def bytes_of_string_def comp_def)

lemma bytes_of_string_of_bytes [simp]: "bytes_of_string (string_of_bytes b) = b"
  by (simp add: string_of_bytes_def bytes_of_string_def comp_def)

lemma length_bytes_of_string [simp]: "length (bytes_of_string s) = length s"
  by (simp add: bytes_of_string_def)

lemma length_string_of_bytes [simp]: "length (string_of_bytes b) = length b"
  by (simp add: string_of_bytes_def)

section \<open>Positional notation\<close>

fun le_bytes :: "nat \<Rightarrow> nat \<Rightarrow> bytes" where
  "le_bytes 0 v = []"
| "le_bytes (Suc n) v = of_nat (v mod 256) # le_bytes n (v div 256)"

fun le_val :: "bytes \<Rightarrow> nat" where
  "le_val [] = 0"
| "le_val (b # bs) = unat b + 256 * le_val bs"

definition be_bytes :: "nat \<Rightarrow> nat \<Rightarrow> bytes" where
  "be_bytes n v = rev (le_bytes n v)"

definition be_val :: "bytes \<Rightarrow> nat" where
  "be_val bs = le_val (rev bs)"

lemma length_le_bytes [simp]: "length (le_bytes n v) = n"
  by (induction n arbitrary: v) simp_all

lemma length_be_bytes [simp]: "length (be_bytes n v) = n"
  by (simp add: be_bytes_def)

lemma unat_of_nat_mod_256 [simp]: "unat (of_nat (v mod 256) :: byte) = v mod 256"
  by (simp add: unat_of_nat take_bit_eq_mod)

lemma le_val_le_bytes [simp]: "le_val (le_bytes n v) = v mod 256 ^ n"
proof (induction n arbitrary: v)
  case (Suc n)
  have "v mod 256 + 256 * (v div 256 mod 256 ^ n) = v mod (256 * 256 ^ n)"
    by (simp add: mod_mult2_eq)
  with Suc show ?case by simp
qed simp

lemma be_val_be_bytes [simp]: "be_val (be_bytes n v) = v mod 256 ^ n"
  by (simp add: be_val_def be_bytes_def)

lemma unat_byte_less [simp]: "unat (b :: byte) < 256"
  using unsigned_less [of b] by simp

lemma le_val_less: "le_val bs < 256 ^ length bs"
proof (induction bs)
  case (Cons b bs)
  have "unat b + 256 * le_val bs < 256 * (le_val bs + 1)" by simp
  also have "\<dots> \<le> 256 * 256 ^ length bs" using Cons by simp
  finally show ?case by simp
qed simp

lemma be_val_less: "be_val bs < 256 ^ length bs"
  using le_val_less [of "rev bs"] by (simp add: be_val_def)

lemma le_bytes_le_val [simp]: "le_bytes (length bs) (le_val bs) = bs"
proof (induction bs)
  case (Cons b bs)
  have "(unat b + 256 * le_val bs) div 256 = le_val bs" by simp
  then show ?case using Cons by simp
qed simp

lemma be_bytes_be_val [simp]: "be_bytes (length bs) (be_val bs) = bs"
  using le_bytes_le_val [of "rev bs"] by (simp add: be_bytes_def be_val_def)

lemma le_bytes_mod [simp]: "le_bytes n (v mod 256 ^ n) = le_bytes n v"
  using le_bytes_le_val [of "le_bytes n v"] by simp

lemma be_bytes_mod [simp]: "be_bytes n (v mod 256 ^ n) = be_bytes n v"
  by (simp add: be_bytes_def)

lemma be_val_append: "be_val (xs @ ys) = be_val xs * 256 ^ length ys + be_val ys"
proof -
  have "le_val (as @ bs) = le_val as + 256 ^ length as * le_val bs" for as bs
    by (induction as) (simp_all add: algebra_simps)
  then show ?thesis by (simp add: be_val_def)
qed

section \<open>Hash maps as association lists\<close>

text \<open>
  \<^verbatim>\<open>find\<close>, \<^verbatim>\<open>emplace\<close> (which keeps an existing binding), assignment through
  an accessor and \<^verbatim>\<open>erase\<close>, on a list of bindings in an arbitrary iteration order.
\<close>

definition hm_emplace :: "'k \<Rightarrow> 'v \<Rightarrow> ('k \<times> 'v) list \<Rightarrow> ('k \<times> 'v) list" where
  "hm_emplace k v m = (if map_of m k = None then (k, v) # m else m)"

abbreviation (input) hm_keys :: "('k \<times> 'v) list \<Rightarrow> 'k list" where
  "hm_keys m \<equiv> map fst m"

abbreviation (input) hm_wf :: "('k \<times> 'v) list \<Rightarrow> bool" where
  "hm_wf m \<equiv> distinct (map fst m)"

lemma map_of_hm_emplace [simp]:
  "map_of (hm_emplace k v m) = (if map_of m k = None then (map_of m)(k \<mapsto> v) else map_of m)"
  by (simp add: hm_emplace_def)

lemma map_of_al_update [simp]: "map_of (AList.update k v m) = (map_of m)(k \<mapsto> v)"
  by (rule AList.update_conv')

lemma map_of_al_delete [simp]: "map_of (AList.delete k m) = (map_of m)(k := None)"
  by (rule AList.delete_conv')

lemma hm_wf_emplace [simp]: "hm_wf m \<Longrightarrow> hm_wf (hm_emplace k v m)"
  by (auto simp: hm_emplace_def map_of_eq_None_iff)

lemma hm_wf_update [simp]: "hm_wf m \<Longrightarrow> hm_wf (AList.update k v m)"
  by (rule AList.distinct_update)

lemma hm_wf_delete [simp]: "hm_wf m \<Longrightarrow> hm_wf (AList.delete k m)"
  by (rule AList.distinct_delete)

section \<open>Interfaces\<close>

inductive run :: "('l \<Rightarrow> 's \<Rightarrow> 's \<Rightarrow> bool) \<Rightarrow> 's \<Rightarrow> 'l list \<Rightarrow> 's \<Rightarrow> bool"
  for step :: "'l \<Rightarrow> 's \<Rightarrow> 's \<Rightarrow> bool" where
  run_nil: "run step s [] s"
| run_cons: "step l s s' \<Longrightarrow> run step s' ls s'' \<Longrightarrow> run step s (l # ls) s''"

inductive_cases run_nilE: "run step s [] s'"
inductive_cases run_consE: "run step s (l # ls) s'"

lemma run_append: "run step s ls s' \<Longrightarrow> run step s' ls' s'' \<Longrightarrow> run step s (ls @ ls') s''"
  by (induction rule: run.induct) (auto intro: run.intros)

lemma run_nil_iff: "run step s [] s' \<longleftrightarrow> s = s'"
  by (auto intro: run_nil elim: run_nilE)

text \<open>A transition system: what holds initially and is kept by each step holds always.\<close>

locale transition_system =
  fixes init :: "'s \<Rightarrow> bool"
    and step :: "'l \<Rightarrow> 's \<Rightarrow> 's \<Rightarrow> bool"
    and inv :: "'s \<Rightarrow> bool"
  assumes init_inv: "init s \<Longrightarrow> inv s"
    and step_inv: "inv s \<Longrightarrow> step l s s' \<Longrightarrow> inv s'"
begin

lemma run_keeps_inv: "run step s ls s' \<Longrightarrow> inv s \<Longrightarrow> inv s'"
  by (induction rule: run.induct) (auto intro: step_inv)

lemma reachable_inv: "init s \<Longrightarrow> run step s ls s' \<Longrightarrow> inv s'"
  using run_keeps_inv init_inv by blast

end

text \<open>Steps that lower a rank: how many of them can follow each other.\<close>

lemma run_rank:
  fixes rank :: "'s \<Rightarrow> nat"
  assumes lower: "\<And>l s s'. P s \<Longrightarrow> Q l \<Longrightarrow> step l s s' \<Longrightarrow> P s' \<and> rank s' < rank s"
    and "run step s ls s'" "P s" "list_all Q ls"
  shows "P s' \<and> length ls + rank s' \<le> rank s"
  using assms(2-4)
proof (induction rule: run.induct)
  case (run_cons l s1 s2 ls s3)
  then have "P s2 \<and> rank s2 < rank s1" using lower [of s1 l s2] by simp
  then show ?case using run_cons by simp
qed simp

text \<open>The same where only some of the steps lower the rank and the others do not raise it.\<close>

lemma run_rank_filter:
  fixes rank :: "'s \<Rightarrow> nat"
  assumes lower: "\<And>l s s'. P s \<Longrightarrow> Q l \<Longrightarrow> step l s s' \<Longrightarrow>
      P s' \<and> rank s' \<le> rank s \<and> (C l \<longrightarrow> rank s' < rank s)"
    and "run step s ls s'" "P s" "list_all Q ls"
  shows "P s' \<and> length (filter C ls) + rank s' \<le> rank s"
  using assms(2-4)
proof (induction rule: run.induct)
  case (run_cons l s1 s2 ls s3)
  then have "P s2 \<and> rank s2 \<le> rank s1 \<and> (C l \<longrightarrow> rank s2 < rank s1)" using lower [of s1 l s2] by simp
  then show ?case using run_cons by auto
qed simp

text \<open>
  A stream codec: an encoder, a decoder that returns the value and the unread rest, and
  the domain on which decoding an encoding followed by anything gives both back.
\<close>

locale stream_codec =
  fixes enc :: "'a \<Rightarrow> 'e + bytes"
    and dec :: "bytes \<Rightarrow> 'e + 'a \<times> bytes"
    and dom :: "'a \<Rightarrow> bool"
  assumes enc_ok: "dom x \<Longrightarrow> \<exists>bs. enc x = Inr bs"
    and dec_enc: "dom x \<Longrightarrow> enc x = Inr bs \<Longrightarrow> dec (bs @ rest) = Inr (x, rest)"
begin

lemma enc_inj:
  assumes "dom x" "dom y" "enc x = Inr b" "enc y = Inr c" "b @ r = c @ s"
  shows "x = y \<and> r = s"
  using dec_enc [OF assms(1,3), of r] dec_enc [OF assms(2,4), of s] assms(5) by simp

end

end
