(* ===== verification/Storage_Entry.thy ===== *)
theory Storage_Entry
  imports Bcos_Prelude
begin

text \<open>
  Rows, key conditions and table descriptions: \<^verbatim>\<open>interfaces/storage/Entry.h\<close> and
  \<^verbatim>\<open>interfaces/storage/Common.h\<close>.  Reading or writing outside a buffer is
  undefined in C++; an operation that would do so returns \<^term>\<open>None\<close>.
\<close>

section \<open>Error codes\<close>

datatype storage_error =
  UnknownError | TableNotExists | SystemTableNotExists | TableExists | UnknownEntryType
| ReadError | WriteError | EmptyStorage | ReadOnly

fun storage_error_code :: "storage_error \<Rightarrow> int" where
  "storage_error_code UnknownError = -60000"
| "storage_error_code TableNotExists = -59999"
| "storage_error_code SystemTableNotExists = -59998"
| "storage_error_code TableExists = -59997"
| "storage_error_code UnknownEntryType = -59996"
| "storage_error_code ReadError = -59995"
| "storage_error_code WriteError = -59994"
| "storage_error_code EmptyStorage = -59993"
| "storage_error_code ReadOnly = -59992"

section \<open>Entries\<close>

datatype status = NORMAL | DELETED | PURGED

text \<open>
  The variant \<^verbatim>\<open>ValueType\<close>: the 32-byte inline buffer, three owned containers and
  the same three behind a shared pointer.
\<close>

datatype value_type =
  SBOBuffer string
| StdString string
| UCharVector bytes
| CharVector string
| SharedString string
| SharedUCharVector bytes
| SharedCharVector string

record entry =
  m_value :: value_type
  m_size :: int
  m_status :: status
  m_dirty :: bool

definition SMALL_SIZE :: int where "SMALL_SIZE = 32"
definition MEDIUM_SIZE :: int where "MEDIUM_SIZE = 64"

definition empty_sbo :: value_type where
  "empty_sbo = SBOBuffer (replicate 32 (CHR 0x00))"

definition new_entry :: entry where
  "new_entry = \<lparr>m_value = empty_sbo, m_size = 0, m_status = NORMAL, m_dirty = False\<rparr>"

text \<open>The container types that \<^verbatim>\<open>set\<close> is called with.\<close>

datatype input = InString string | InUChars bytes | InChars string

fun input_view :: "input \<Rightarrow> string" where
  "input_view (InString s) = s"
| "input_view (InUChars b) = string_of_bytes b"
| "input_view (InChars s) = s"

fun owned_value :: "input \<Rightarrow> value_type" where
  "owned_value (InString s) = StdString s"
| "owned_value (InUChars b) = UCharVector b"
| "owned_value (InChars s) = CharVector s"

fun shared_value :: "input \<Rightarrow> value_type" where
  "shared_value (InString s) = SharedString s"
| "shared_value (InUChars b) = SharedUCharVector b"
| "shared_value (InChars s) = SharedCharVector s"

fun inputValueView :: "value_type \<Rightarrow> string" where
  "inputValueView (SBOBuffer s) = s"
| "inputValueView (StdString s) = s"
| "inputValueView (UCharVector b) = string_of_bytes b"
| "inputValueView (CharVector s) = s"
| "inputValueView (SharedString s) = s"
| "inputValueView (SharedUCharVector b) = string_of_bytes b"
| "inputValueView (SharedCharVector s) = s"

text \<open>A view of \<^verbatim>\<open>m_size\<close> bytes from the start of the stored container.\<close>

definition outputValueView :: "entry \<Rightarrow> string option" where
  "outputValueView e =
     (let raw = inputValueView (m_value e) in
      if 0 \<le> m_size e \<and> nat (m_size e) \<le> length raw then Some (take (nat (m_size e)) raw)
      else None)"

definition get :: "entry \<Rightarrow> string option" where
  "get e = outputValueView e"

definition getField :: "entry \<Rightarrow> nat \<Rightarrow> error + string option" where
  "getField e index =
     (if index > 0 then Inl (Error (-1) (''Get field index: '' @ to_string index @ '' failed, index out of range'') None)
      else Inr (get e))"

text \<open>
  \<^verbatim>\<open>copy_n\<close> of a view into the inline buffer, after switching the variant to the inline
  alternative if it holds another one.
\<close>

definition copy_to_sbo :: "value_type \<Rightarrow> string \<Rightarrow> value_type option" where
  "copy_to_sbo v view =
     (let buf = (case v of SBOBuffer b \<Rightarrow> b | _ \<Rightarrow> replicate 32 (CHR 0x00)) in
      if length view \<le> length buf then Some (SBOBuffer (view @ drop (length view) buf)) else None)"

definition set_input :: "entry \<Rightarrow> input \<Rightarrow> entry option" where
  "set_input e v =
     (let view = input_view v; size = to_int32 (length view) in
      if size \<le> SMALL_SIZE then
        (case copy_to_sbo (m_value e) view of
           None \<Rightarrow> None
         | Some sbo \<Rightarrow> Some (e\<lparr>m_value := sbo, m_size := size, m_dirty := True\<rparr>))
      else if size \<le> MEDIUM_SIZE then
        Some (e\<lparr>m_value := owned_value v, m_size := size, m_dirty := True\<rparr>)
      else
        Some (e\<lparr>m_value := shared_value v, m_size := size, m_dirty := True\<rparr>))"

text \<open>\<^verbatim>\<open>set(const char*)\<close>: the argument is the text before the terminating NUL.\<close>

definition c_string :: "string \<Rightarrow> string" where
  "c_string p = takeWhile (\<lambda>c. c \<noteq> CHR 0x00) p"

definition set_cstr :: "entry \<Rightarrow> string \<Rightarrow> entry option" where
  "set_cstr e p =
     (let view = c_string p in
      if length view \<le> nat SMALL_SIZE then
        (case copy_to_sbo (m_value e) view of
           None \<Rightarrow> None
         | Some sbo \<Rightarrow>
             Some (e\<lparr>m_value := sbo, m_size := to_int32 (length view), m_dirty := True\<rparr>))
      else set_input e (InString view))"

definition setField :: "entry \<Rightarrow> nat \<Rightarrow> input \<Rightarrow> error + entry option" where
  "setField e index v =
     (if index > 0 then Inl (Error (-1) (''Set field index: '' @ to_string index @ '' failed, index out of range'') None)
      else Inr (set_input e v))"

definition setStatus :: "entry \<Rightarrow> status \<Rightarrow> entry" where
  "setStatus e s = e\<lparr>m_status := s, m_dirty := True\<rparr>"

definition setDirty :: "entry \<Rightarrow> bool \<Rightarrow> entry" where
  "setDirty e d = e\<lparr>m_dirty := d\<rparr>"

definition importFields :: "entry \<Rightarrow> input list \<Rightarrow> error + entry option" where
  "importFields e values =
     (case values of
        [v] \<Rightarrow> setField e 0 v
      | _ \<Rightarrow> Inl (Error (storage_error_code UnknownEntryType) ''Import fields not equal to 1'' None))"

text \<open>The caller receives the container as an rvalue; the entry itself only drops its size.\<close>

definition exportFields :: "entry \<Rightarrow> value_type \<times> entry" where
  "exportFields e = (m_value e, e\<lparr>m_size := 0\<rparr>)"

definition valid :: "entry \<Rightarrow> bool" where
  "valid e = (m_status e = NORMAL)"

text \<open>
  The representation invariant: the inline buffer has 32 bytes and the recorded size lies
  within the stored container.
\<close>

definition entry_wf :: "entry \<Rightarrow> bool" where
  "entry_wf e =
     (0 \<le> m_size e \<and> nat (m_size e) \<le> length (inputValueView (m_value e)) \<and>
      (case m_value e of SBOBuffer b \<Rightarrow> length b = 32 | _ \<Rightarrow> True))"

text \<open>The bytes of an entry, for entries that satisfy the invariant.\<close>

definition content :: "entry \<Rightarrow> string" where
  "content e = take (nat (m_size e)) (inputValueView (m_value e))"

lemma entry_wf_new [simp]: "entry_wf new_entry"
  by (simp add: entry_wf_def new_entry_def empty_sbo_def)

lemma get_wf [simp]: "entry_wf e \<Longrightarrow> get e = Some (content e)"
  by (simp add: get_def outputValueView_def content_def entry_wf_def Let_def)

lemma copy_to_sbo_ok:
  assumes "case v of SBOBuffer b \<Rightarrow> length b = 32 | _ \<Rightarrow> True" and "length view \<le> 32"
  obtains b where "copy_to_sbo v view = Some (SBOBuffer (view @ b))" "length b = 32 - length view"
  using assms by (cases v) (auto simp: copy_to_sbo_def Let_def)

lemma inputValueView_owned [simp]: "inputValueView (owned_value v) = input_view v"
  by (cases v) simp_all

lemma inputValueView_shared [simp]: "inputValueView (shared_value v) = input_view v"
  by (cases v) simp_all

lemma owned_not_sbo [simp]: "owned_value v \<noteq> SBOBuffer b"
  by (cases v) simp_all

lemma shared_not_sbo [simp]: "shared_value v \<noteq> SBOBuffer b"
  by (cases v) simp_all

lemma set_input_wf:
  assumes "entry_wf e" "length (input_view v) < 2147483648"
  shows "\<exists>e'. set_input e v = Some e' \<and> entry_wf e' \<and> content e' = input_view v \<and>
    m_status e' = m_status e \<and> m_dirty e' \<and> m_size e' = int (length (input_view v))"
proof (cases "length (input_view v) \<le> 32")
  case True
  with assms obtain b where "copy_to_sbo (m_value e) (input_view v) = Some (SBOBuffer (input_view v @ b))"
    and "length b = 32 - length (input_view v)"
    using copy_to_sbo_ok [of "m_value e" "input_view v"] by (auto simp: entry_wf_def)
  with True assms show ?thesis
    by (simp add: set_input_def Let_def SMALL_SIZE_def entry_wf_def content_def)
next
  case False
  with assms show ?thesis
    by (cases "length (input_view v) \<le> 64")
      (simp_all add: set_input_def Let_def SMALL_SIZE_def MEDIUM_SIZE_def entry_wf_def content_def
        split: value_type.splits)
qed

lemma entry_wf_setStatus [simp]: "entry_wf (setStatus e s) = entry_wf e"
  by (simp add: entry_wf_def setStatus_def)

lemma entry_wf_setDirty [simp]: "entry_wf (setDirty e d) = entry_wf e"
  by (simp add: entry_wf_def setDirty_def)

lemma content_setDirty [simp]: "content (setDirty e d) = content e"
  by (simp add: content_def setDirty_def)

lemma setDirty_sel [simp]:
  "m_status (setDirty e d) = m_status e" "m_size (setDirty e d) = m_size e"
  "m_dirty (setDirty e d) = d" "m_value (setDirty e d) = m_value e"
  by (simp_all add: setDirty_def)

lemma setStatus_sel [simp]:
  "m_status (setStatus e s) = s" "m_size (setStatus e s) = m_size e"
  "m_dirty (setStatus e s)" "content (setStatus e s) = content e"
  by (simp_all add: setStatus_def content_def)

section \<open>Conditions on primary keys\<close>

datatype comparator = EQ | NE | GT | GE | LT | LE

record condition =
  m_conditions :: "(comparator \<times> string) list"
  m_limit :: "nat \<times> nat"

definition cond_add :: "comparator \<Rightarrow> string \<Rightarrow> condition \<Rightarrow> condition" where
  "cond_add cmp v c = c\<lparr>m_conditions := m_conditions c @ [(cmp, v)]\<rparr>"

definition cond_limit :: "nat \<Rightarrow> nat \<Rightarrow> condition \<Rightarrow> condition" where
  "cond_limit start end c = c\<lparr>m_limit := (start, end)\<rparr>"

text \<open>The loop of \<^verbatim>\<open>isValid\<close>; strings compare lexicographically by unsigned byte.\<close>

fun conds_valid :: "(comparator \<times> string) list \<Rightarrow> string \<Rightarrow> bool" where
  "conds_valid [] key = True"
| "conds_valid ((NE, v) # cs) key = (if key = v then False else conds_valid cs key)"
| "conds_valid ((GT, v) # cs) key = (if key \<le> v then False else conds_valid cs key)"
| "conds_valid ((GE, v) # cs) key = (if key < v then False else conds_valid cs key)"
| "conds_valid ((LT, v) # cs) key = (if key \<ge> v then False else conds_valid cs key)"
| "conds_valid ((LE, v) # cs) key = (if key > v then False else conds_valid cs key)"
| "conds_valid ((EQ, v) # cs) key = conds_valid cs key"

definition isValid :: "condition \<Rightarrow> string \<Rightarrow> bool" where
  "isValid c key = conds_valid (m_conditions c) key"

definition cond_holds :: "comparator \<times> string \<Rightarrow> string \<Rightarrow> bool" where
  "cond_holds c key =
     (case fst c of
        EQ \<Rightarrow> True | NE \<Rightarrow> key \<noteq> snd c | GT \<Rightarrow> snd c < key | GE \<Rightarrow> snd c \<le> key
      | LT \<Rightarrow> key < snd c | LE \<Rightarrow> key \<le> snd c)"

lemma conds_valid_iff: "conds_valid cs key \<longleftrightarrow> (\<forall>c \<in> set cs. cond_holds c key)"
  by (induction cs key rule: conds_valid.induct) (auto simp: cond_holds_def)

section \<open>Table descriptions\<close>

record table_info =
  m_name :: string
  m_fields :: "string list"
  m_order :: "(string \<times> nat) list"

definition new_table_info :: "string \<Rightarrow> string list \<Rightarrow> table_info" where
  "new_table_info name fs =
     \<lparr>m_name = name, m_fields = fs, m_order = sort_key fst (zip fs [0..<length fs])\<rparr>"

text \<open>\<^verbatim>\<open>lower_bound\<close> on the sorted order: the first element not below the field.\<close>

definition fieldIndex :: "table_info \<Rightarrow> string \<Rightarrow> nat result" where
  "fieldIndex ti field =
     (case dropWhile (\<lambda>p. fst p < field) (m_order ti) of
        [] \<Rightarrow> Inl (Error (-1) (''Can't find field: '' @ field) None)
      | (f, i) # _ \<Rightarrow> if f = field then Inr i
                     else Inl (Error (-1) (''Can't find field: '' @ field) None))"

lemma dropWhile_sorted_find:
  assumes "sorted (map fst xs)" "(f :: 'a :: linorder) \<in> fst ` set xs"
  shows "\<exists>i ys. dropWhile (\<lambda>p. fst p < f) xs = (f, i) # ys"
  using assms
proof (induction xs)
  case (Cons x xs)
  show ?case
  proof (cases "fst x < f")
    case True
    then show ?thesis using Cons by auto
  next
    case False
    moreover have "fst x \<le> f" using Cons.prems by auto
    ultimately have "fst x = f" by simp
    then show ?thesis by (cases x) simp
  qed
qed simp

definition table_info_wf :: "table_info \<Rightarrow> bool" where
  "table_info_wf ti =
     (sorted (map fst (m_order ti)) \<and>
      mset (m_order ti) = mset (zip (m_fields ti) [0..<length (m_fields ti)]))"

lemma table_info_wf_new: "table_info_wf (new_table_info name fs)"
  by (simp add: table_info_wf_def new_table_info_def)

lemma set_m_order:
  assumes "table_info_wf ti"
  shows "(f, i) \<in> set (m_order ti) \<longleftrightarrow> i < length (m_fields ti) \<and> m_fields ti ! i = f"
proof -
  have "set (m_order ti) = set (zip (m_fields ti) [0..<length (m_fields ti)])"
    using assms unfolding table_info_wf_def by (metis set_mset_mset)
  then show ?thesis by (auto simp: set_zip)
qed

lemma fieldIndex_sound:
  assumes "table_info_wf ti" "fieldIndex ti f = Inr i"
  shows "i < length (m_fields ti) \<and> m_fields ti ! i = f"
proof -
  from assms(2) obtain ys where "dropWhile (\<lambda>p. fst p < f) (m_order ti) = (f, i) # ys"
    by (auto simp: fieldIndex_def split: list.splits if_splits)
  then have "(f, i) \<in> set (m_order ti)" by (metis list.set_intros(1) set_dropWhileD)
  then show ?thesis using set_m_order [OF assms(1)] by simp
qed

lemma fieldIndex_complete:
  assumes "table_info_wf ti" "f \<in> set (m_fields ti)"
  shows "\<exists>i. fieldIndex ti f = Inr i"
proof -
  from assms(2) obtain j where "(f, j) \<in> set (m_order ti)"
    using set_m_order [OF assms(1)] by (auto simp: in_set_conv_nth)
  then have "f \<in> fst ` set (m_order ti)" by force
  moreover have "sorted (map fst (m_order ti))" using assms(1) by (simp add: table_info_wf_def)
  ultimately obtain i ys where "dropWhile (\<lambda>p. fst p < f) (m_order ti) = (f, i) # ys"
    using dropWhile_sorted_find by blast
  then show ?thesis by (simp add: fieldIndex_def)
qed

section \<open>Properties\<close>

text \<open>
  Storing a value of at most 2147483647 bytes in a well-formed entry succeeds, keeps the
  entry well formed and its status, marks it dirty, and reading it back gives exactly the
  bytes stored, whichever of the three representations (inline, owned, shared) was chosen.
\<close>

theorem entry_set_get:
  assumes "entry_wf e" "length (input_view v) < 2147483648"
  shows "\<exists>e'. set_input e v = Some e' \<and> entry_wf e' \<and> get e' = Some (input_view v) \<and>
    m_status e' = m_status e \<and> m_dirty e' \<and> m_size e' = int (length (input_view v))"
  using set_input_wf [OF assms] by auto

theorem entry_set_get_witness:
  "\<exists>e'. set_input new_entry (InString ''hello'') = Some e' \<and> get e' = Some ''hello''"
  using entry_set_get [OF entry_wf_new, of "InString ''hello''"] by auto

text \<open>
  Looking a field up by name in a table description returns an index at which the
  declared field list really has that name, and succeeds exactly for declared names.
\<close>

theorem field_index_correct:
  "(case fieldIndex (new_table_info name fs) f of
      Inr i \<Rightarrow> i < length fs \<and> fs ! i = f
    | Inl err \<Rightarrow> f \<notin> set fs \<and> errorCode err = -1)"
proof -
  have wf: "table_info_wf (new_table_info name fs)" by (rule table_info_wf_new)
  have fs: "m_fields (new_table_info name fs) = fs" by (simp add: new_table_info_def)
  show ?thesis
  proof (cases "fieldIndex (new_table_info name fs) f")
    case (Inl err)
    then have "errorCode err = -1" by (auto simp: fieldIndex_def split: list.splits if_splits)
    moreover have "f \<notin> set fs" using fieldIndex_complete [OF wf] Inl fs by force
    ultimately show ?thesis using Inl by simp
  next
    case (Inr i)
    then show ?thesis using fieldIndex_sound [OF wf] fs by simp
  qed
qed

end
