(* ===== verification/Byte_Utils.thy ===== *)
theory Byte_Utils
  imports Bcos_Prelude
begin

text \<open>
  Byte-level helpers of \<^verbatim>\<open>libutilities\<close>: hexadecimal text and big-endian
  conversion (\<^verbatim>\<open>DataConvertUtility\<close>), the two's complement view of 256-bit
  integers and the duplicate-free queue (\<^verbatim>\<open>Common.h\<close>), and the non-owning range
  \<^verbatim>\<open>RefDataContainer\<close>.  Integers of a fixed width are natural numbers below
  the power of two, with every truncation written out.
\<close>

unbundle bit_operations_syntax

section \<open>Hexadecimal text\<close>

definition hexCharsCollection :: string where
  "hexCharsCollection = ''0123456789abcdef''"

fun toHexString_loop :: "bytes \<Rightarrow> string" where
  "toHexString_loop [] = []"
| "toHexString_loop (b # bs) =
     hexCharsCollection ! unat (drop_bit 4 b AND 0x0f) #
     hexCharsCollection ! unat (b AND 0x0f) # toHexString_loop bs"

definition toHexString :: "bytes \<Rightarrow> string \<Rightarrow> string" where
  "toHexString data prefix = prefix @ toHexString_loop data"

definition toHexStringWithPrefix :: "bytes \<Rightarrow> string" where
  "toHexStringWithPrefix data = toHexString data ''0x''"

definition convertCharToHexNumber :: "char \<Rightarrow> int" where
  "convertCharToHexNumber c =
     (let n = (of_char c :: int) in
      if 48 \<le> n \<and> n \<le> 57 then n - 48
      else if 97 \<le> n \<and> n \<le> 102 then n - 97 + 10
      else if 65 \<le> n \<and> n \<le> 70 then n - 65 + 10
      else -1)"

definition isHexString :: "string \<Rightarrow> bool" where
  "isHexString s =
     list_all (\<lambda>c. convertCharToHexNumber c \<noteq> -1) (if take 2 s = ''0x'' then drop 2 s else s)"

datatype hex_error = BadHexCharacter

text \<open>
  The pair loop; the read one past the end of a \<^verbatim>\<open>std::string\<close> yields NUL, which is
  not a hexadecimal digit.
\<close>

fun fromHexString_loop :: "string \<Rightarrow> hex_error + bytes" where
  "fromHexString_loop [] = Inr []"
| "fromHexString_loop [c] = Inl BadHexCharacter"
| "fromHexString_loop (c # d # cs) =
     (let highValue = convertCharToHexNumber c; lowValue = convertCharToHexNumber d in
      if highValue = -1 \<or> lowValue = -1 then Inl BadHexCharacter
      else bind_res (fromHexString_loop cs)
        (\<lambda>bs. Inr ((word_of_int (push_bit 4 highValue) + word_of_int lowValue) # bs)))"

definition fromHexString :: "string \<Rightarrow> hex_error + bytes" where
  "fromHexString s =
     (let startIndex = (if length s \<ge> 2 \<and> s ! 0 = CHR ''0'' \<and> s ! 1 = CHR ''x'' then 2 else 0) in
      if length s mod 2 \<noteq> 0 then
        (let h = convertCharToHexNumber (s ! startIndex) in
         if h = -1 then Inl BadHexCharacter
         else bind_res (fromHexString_loop (drop (startIndex + 1) s))
                (\<lambda>bs. Inr (word_of_int h # bs)))
      else fromHexString_loop (drop startIndex s))"

section \<open>Big-endian conversion\<close>

text \<open>The loop fills the output from its last element, shifting the value down by 8.\<close>

fun toBigEndian_loop :: "nat \<Rightarrow> nat \<Rightarrow> bytes \<Rightarrow> bytes" where
  "toBigEndian_loop 0 val out = out"
| "toBigEndian_loop (Suc i) val out =
     toBigEndian_loop i (drop_bit 8 val) (out[i := of_nat (val AND 0xff)])"

definition toBigEndian :: "nat \<Rightarrow> bytes \<Rightarrow> bytes" where
  "toBigEndian val out = toBigEndian_loop (length out) val out"

definition toBigEndian_u256 :: "nat \<Rightarrow> bytes" where
  "toBigEndian_u256 val = toBigEndian val (replicate 32 0)"

definition toBigEndian_u160 :: "nat \<Rightarrow> bytes" where
  "toBigEndian_u160 val = toBigEndian val (replicate 20 0)"

text \<open>\<^term>\<open>w\<close> is the width in bits of the result type.\<close>

definition fromBigEndian :: "nat \<Rightarrow> bytes \<Rightarrow> nat" where
  "fromBigEndian w bs = foldl (\<lambda>ret i. take_bit w (push_bit 8 ret OR unat i)) 0 bs"

fun compact_size :: "nat \<Rightarrow> nat" where
  "compact_size v = (if v = 0 then 0 else Suc (compact_size (v div 256)))"

declare compact_size.simps [simp del]

definition toCompactBigEndian :: "nat \<Rightarrow> nat \<Rightarrow> bytes" where
  "toCompactBigEndian val minlen = toBigEndian val (replicate (max minlen (compact_size val)) 0)"

definition toCompactBigEndian_byte :: "byte \<Rightarrow> nat \<Rightarrow> bytes" where
  "toCompactBigEndian_byte val minlen = (if minlen \<noteq> 0 \<or> val \<noteq> 0 then [val] else [])"

text \<open>Text up to the first NUL of a 32-character array.\<close>

definition toString_string32 :: "string \<Rightarrow> string" where
  "toString_string32 s = takeWhile (\<lambda>c. c \<noteq> CHR 0x00) (take 32 s)"

section \<open>Signed and unsigned 256-bit integers\<close>

definition u2s :: "int \<Rightarrow> int" where
  "u2s u = (if bit u 255 then - (2 ^ 256 - u) else u)"

definition s2u :: "int \<Rightarrow> int" where
  "s2u s = (if s \<ge> 0 then s else 2 ^ 256 + s)"

definition isalnum :: "char \<Rightarrow> bool" where
  "isalnum c = (let n = (of_char c :: nat) in
     48 \<le> n \<and> n \<le> 57 \<or> 65 \<le> n \<and> n \<le> 90 \<or> 97 \<le> n \<and> n \<le> 122)"

fun isalNumStr :: "string \<Rightarrow> bool" where
  "isalNumStr [] = True"
| "isalNumStr (c # cs) = (if isalnum c then isalNumStr cs else False)"

section \<open>The duplicate-free queue\<close>

record 'a queue_set =
  qs_set :: "'a list"
  qs_queue :: "'a list"

definition qs_push :: "'a \<Rightarrow> 'a queue_set \<Rightarrow> bool \<times> 'a queue_set" where
  "qs_push t q =
     (if t \<notin> set (qs_set q)
      then (True, q\<lparr>qs_set := t # qs_set q, qs_queue := qs_queue q @ [t]\<rparr>)
      else (False, q))"

definition qs_pop :: "'a queue_set \<Rightarrow> bool \<times> 'a queue_set" where
  "qs_pop q =
     (case qs_queue q of
        [] \<Rightarrow> (False, q)
      | t # ts \<Rightarrow> (True, q\<lparr>qs_queue := ts, qs_set := removeAll t (qs_set q)\<rparr>))"

definition qs_exist :: "'a \<Rightarrow> 'a queue_set \<Rightarrow> bool" where
  "qs_exist t q = (t \<in> set (qs_set q))"

definition qs_size :: "'a queue_set \<Rightarrow> nat" where
  "qs_size q = length (qs_set q)"

definition qs_clear :: "'a queue_set \<Rightarrow> 'a queue_set" where
  "qs_clear q = q\<lparr>qs_set := [], qs_queue := []\<rparr>"

section \<open>Non-owning ranges\<close>

text \<open>
  A range is an element offset into a byte memory (the null pointer is \<^term>\<open>None\<close>) and a
  64-bit element count; \<^verbatim>\<open>sizeof(T)\<close> is a parameter where it matters.
\<close>

record ref_data =
  m_dataPointer :: "nat option"
  m_dataCount :: "64 word"

definition null_ref :: ref_data where
  "null_ref = \<lparr>m_dataPointer = None, m_dataCount = 0\<rparr>"

definition getCroppedData :: "ref_data \<Rightarrow> 64 word \<Rightarrow> 64 word \<Rightarrow> ref_data" where
  "getCroppedData r startIndex cnt =
     (case m_dataPointer r of
        None \<Rightarrow> null_ref
      | Some p \<Rightarrow>
          if startIndex \<le> m_dataCount r \<and> cnt \<le> m_dataCount r \<and> startIndex + cnt \<le> m_dataCount r
          then \<lparr>m_dataPointer = Some (p + unat startIndex), m_dataCount = cnt\<rparr>
          else null_ref)"

definition getCroppedData_from :: "ref_data \<Rightarrow> 64 word \<Rightarrow> ref_data" where
  "getCroppedData_from r startIndex =
     (if m_dataPointer r \<noteq> None \<and> m_dataCount r \<ge> startIndex
      then getCroppedData r startIndex (m_dataCount r - startIndex) else null_ref)"

text \<open>
  \<^verbatim>\<open>populate\<close> on a byte memory: source and destination are byte offsets, counts are in
  elements of \<^term>\<open>sz\<close> bytes.  Both copying calls read the source before writing, so
  \<^verbatim>\<open>memmove\<close> and \<^verbatim>\<open>memcpy\<close> on disjoint ranges have one model.  The
  clearing starts \<^verbatim>\<open>count() * sizeof(T)\<close> elements after the destination, as
  written.  A write outside the memory gives \<^term>\<open>None\<close>.
\<close>

definition mem_write :: "nat \<Rightarrow> bytes \<Rightarrow> bytes \<Rightarrow> bytes option" where
  "mem_write off bs mem =
     (if off + length bs \<le> length mem then Some (take off mem @ bs @ drop (off + length bs) mem)
      else None)"

definition populate :: "nat \<Rightarrow> nat \<Rightarrow> nat \<Rightarrow> nat \<Rightarrow> nat \<Rightarrow> bytes \<Rightarrow> bytes option" where
  "populate sz src srcCount dst dstCount mem =
     (let n = min dstCount srcCount * sz in
      if src + n \<le> length mem then
        (case mem_write dst (take n (drop src mem)) mem of
           None \<Rightarrow> None
         | Some mem' \<Rightarrow>
             if dstCount > srcCount
             then mem_write (dst + srcCount * sz * sz) (replicate ((dstCount - srcCount) * sz) 0) mem'
             else Some mem')
      else None)"

section \<open>Lemmas\<close>

lemma hex_digit_back:
  assumes "n < 16"
  shows "convertCharToHexNumber (hexCharsCollection ! n) = int n"
proof -
  have "n \<in> set [0..<16]" using assms by simp
  moreover have "\<forall>n \<in> set [0..<16]. convertCharToHexNumber (hexCharsCollection ! n) = int n"
    by code_simp
  ultimately show ?thesis by blast
qed

lemma nibbles:
  fixes b :: byte
  shows "unat (drop_bit 4 b AND 0x0f) = unat b div 16" "unat (b AND 0x0f) = unat b mod 16"
proof -
  have m: "x AND 0x0f = take_bit 4 x" for x :: byte
    using take_bit_eq_mask [of 4 x] by (simp add: mask_eq_exp_minus_1)
  have "unat b div 16 < 16" using unat_byte_less [of b] by linarith
  then show "unat (drop_bit 4 b AND 0x0f) = unat b div 16"
    by (simp only: m unsigned_take_bit_eq unsigned_drop_bit_eq) (simp add: drop_bit_eq_div take_bit_eq_mod)
  show "unat (b AND 0x0f) = unat b mod 16"
    by (simp only: m unsigned_take_bit_eq) (simp add: take_bit_eq_mod)
qed

lemma byte_of_nibbles:
  "word_of_int (push_bit 4 (int (unat b div 16))) + word_of_nat (unat b mod 16) = (b :: byte)"
proof -
  have "int (unat b div 16) * 16 + int (unat b mod 16) = int (unat b)"
    by (metis div_mult_mod_eq of_nat_add of_nat_mult of_nat_numeral)
  then have "(word_of_int (int (unat b div 16) * 16 + int (unat b mod 16)) :: byte) = b" by simp
  then show ?thesis by (simp add: push_bit_eq_mult)
qed

lemma fromHexString_loop_toHexString_loop [simp]:
  "fromHexString_loop (toHexString_loop bs) = Inr bs"
proof (induction bs)
  case (Cons b bs)
  have "unat b div 16 < 16" "unat b mod 16 < 16" using unat_byte_less [of b] by linarith+
  then show ?case using Cons
    by (simp add: nibbles(1) nibbles(2) [of b] hex_digit_back Let_def byte_of_nibbles
        del: of_nat_div of_nat_mod)
qed simp

lemma length_toHexString_loop [simp]: "length (toHexString_loop bs) = 2 * length bs"
  by (induction bs) simp_all

lemma hex_digit_not_x: "n < 16 \<Longrightarrow> hexCharsCollection ! n \<noteq> CHR ''x''"
  using hex_digit_back [of n] by (auto simp: convertCharToHexNumber_def Let_def)

lemma toHexString_loop_no_prefix:
  assumes "length (toHexString_loop bs) \<ge> 2"
  shows "toHexString_loop bs ! 1 \<noteq> CHR ''x''"
  using assms by (cases bs) (simp_all add: nibbles hex_digit_not_x)

lemma toBigEndian_loop_eq:
  "i \<le> length out \<Longrightarrow> toBigEndian_loop i val out = be_bytes i val @ drop i out"
proof (induction i arbitrary: val out)
  case (Suc i)
  have "(of_nat (val AND 0xff) :: byte) = of_nat (val mod 256)"
    using take_bit_eq_mask [of 8 val] by (simp add: mask_eq_exp_minus_1 take_bit_eq_mod)
  moreover have "drop i (out[i := x]) = x # drop (Suc i) out" for x
    using Suc.prems by (simp add: Cons_nth_drop_Suc [symmetric])
  ultimately show ?case using Suc
    by (simp add: be_bytes_def drop_bit_eq_div)
qed (simp add: be_bytes_def)

lemma toBigEndian_eq [simp]: "toBigEndian val out = be_bytes (length out) val"
  by (simp add: toBigEndian_def toBigEndian_loop_eq)

lemma or_byte_add: "push_bit 8 r OR unat (b :: byte) = r * 256 + unat b"
proof -
  have "push_bit 8 r OR unat b = push_bit 8 r + unat b"
  proof (rule disjunctive_add [symmetric])
    fix n
    have "take_bit 8 (unat b) = unat b" by (simp add: take_bit_eq_mod)
    then have "n \<ge> 8 \<Longrightarrow> \<not> bit (unat b) n" by (metis bit_take_bit_iff leD)
    then show "\<not> bit (push_bit 8 r) n \<or> \<not> bit (unat b) n"
      by (auto simp: bit_push_bit_iff)
  qed
  then show ?thesis by (simp add: push_bit_eq_mult)
qed

lemma fromBigEndian_eq: "fromBigEndian w bs = take_bit w (be_val bs)"
proof (induction bs rule: rev_induct)
  case (snoc b bs)
  have "take_bit w (take_bit w (be_val bs) * 256 + unat b) = take_bit w (be_val bs * 256 + unat b)"
    unfolding take_bit_eq_mod by (metis mod_add_left_eq mod_mult_left_eq)
  then show ?case using snoc
    by (simp add: fromBigEndian_def or_byte_add be_val_append) (simp add: be_val_def)
qed (simp add: fromBigEndian_def be_val_def)

lemma compact_size_bound: "v < 256 ^ compact_size v"
proof (induction v rule: compact_size.induct)
  case (1 v)
  show ?case
  proof (cases "v = 0")
    case False
    with 1 have "v div 256 < 256 ^ compact_size (v div 256)" by simp
    then have "v < 256 * 256 ^ compact_size (v div 256)" by (simp add: div_less_iff_less_mult)
    with False show ?thesis by (simp add: compact_size.simps [of v])
  qed (simp add: compact_size.simps)
qed

lemma compact_size_least: "v < 256 ^ n \<Longrightarrow> compact_size v \<le> n"
proof (induction n arbitrary: v)
  case (Suc n)
  then have "v div 256 < 256 ^ n" by (simp add: div_less_iff_less_mult)
  with Suc.IH show ?case by (simp add: compact_size.simps [of v])
qed (simp add: compact_size.simps)

section \<open>Properties\<close>

text \<open>
  The hexadecimal text of any byte string, with or without the 0x prefix, parses back
  to exactly that byte string.
\<close>

theorem hex_round_trip:
  "fromHexString (toHexString bs []) = Inr bs \<and> fromHexString (toHexStringWithPrefix bs) = Inr bs"
proof
  show "fromHexString (toHexString bs []) = Inr bs"
    using toHexString_loop_no_prefix [of bs] by (auto simp: fromHexString_def toHexString_def)
  show "fromHexString (toHexStringWithPrefix bs) = Inr bs"
    by (simp add: fromHexString_def toHexStringWithPrefix_def toHexString_def)
qed

text \<open>
  The big-endian writing and reading loops are inverse: reading what was written into
  n bytes gives the value modulo 256 to the n (and to the width of the result type), and
  writing what was read gives the bytes back; the compact form is the shortest that does.
\<close>

theorem big_endian_round_trip:
  "fromBigEndian w (toBigEndian v out) = take_bit w (v mod 256 ^ length out) \<and>
   toBigEndian (fromBigEndian (8 * length bs) bs) (replicate (length bs) 0) = bs \<and>
   fromBigEndian (8 * compact_size v) (toCompactBigEndian v 0) = v \<and>
   (\<forall>n. v < 256 ^ n \<longrightarrow> length (toCompactBigEndian v 0) \<le> n)"
proof (intro conjI)
  have p: "(2 :: nat) ^ (8 * n) = 256 ^ n" for n by (simp add: power_mult)
  show "fromBigEndian w (toBigEndian v out) = take_bit w (v mod 256 ^ length out)"
    by (simp add: fromBigEndian_eq)
  show "toBigEndian (fromBigEndian (8 * length bs) bs) (replicate (length bs) 0) = bs"
    using be_val_less [of bs] by (simp add: fromBigEndian_eq take_bit_eq_mod p)
  show "fromBigEndian (8 * compact_size v) (toCompactBigEndian v 0) = v"
    using compact_size_bound [of v]
    by (simp add: fromBigEndian_eq toCompactBigEndian_def take_bit_eq_mod p)
  show "\<forall>n. v < 256 ^ n \<longrightarrow> length (toCompactBigEndian v 0) \<le> n"
    by (simp add: toCompactBigEndian_def compact_size_least)
qed

theorem big_endian_round_trip_witness:
  "fromBigEndian 256 (toBigEndian 258 (replicate 32 0)) = 258 \<and>
   (258 :: nat) < 256 ^ 2 \<and> length (toCompactBigEndian 258 0) \<le> 2"
  using big_endian_round_trip [of 256 258 "replicate 32 0" "[]"] by (simp add: take_bit_eq_mod)

end
