(* ===== verification/Fixed_Bytes.thy ===== *)
theory Fixed_Bytes
  imports Byte_Utils
begin

text \<open>
  \<^verbatim>\<open>libutilities/FixedBytes.h\<close>: byte arrays of a fixed length N, their construction
  from other data, comparison, bitwise operators, the Bloom filter part, the position of
  the first set bit, the specialised equality of 32-byte hashes, and addresses.  A value
  of \<^verbatim>\<open>FixedBytes<N>\<close> is a byte list of length N.
\<close>

unbundle bit_operations_syntax

datatype align_type = AlignLeft | AlignRight | AcquireEqual

datatype fixed_bytes_error = ConstructFixedBytesFailed | InvalidAddress | FbBadHexCharacter

definition fb_zero :: "nat \<Rightarrow> bytes" where
  "fb_zero n = replicate n 0"

text \<open>The size of the argument is narrowed to \<^verbatim>\<open>unsigned\<close> before the minimum.\<close>

definition constructFixedBytes :: "nat \<Rightarrow> align_type \<Rightarrow> bytes \<Rightarrow> fixed_bytes_error + bytes" where
  "constructFixedBytes n al data =
     (let copyDataSize = min (length data mod 2 ^ 32) n in
      case al of
        AlignLeft \<Rightarrow> Inr (take copyDataSize data @ replicate (n - copyDataSize) 0)
      | AlignRight \<Rightarrow> Inr (replicate (n - copyDataSize) 0 @ take copyDataSize data)
      | AcquireEqual \<Rightarrow> if length data \<noteq> n then Inl ConstructFixedBytesFailed else Inr (take n data))"

definition fb_of_arith :: "nat \<Rightarrow> nat \<Rightarrow> bytes" where
  "fb_of_arith n v = toBigEndian v (fb_zero n)"

definition fb_of_pointer :: "nat \<Rightarrow> bytes \<Rightarrow> bytes" where
  "fb_of_pointer n data = take (min (length data) n) data @ replicate (n - min (length data) n) 0"

definition fb_of_hex :: "nat \<Rightarrow> align_type \<Rightarrow> string \<Rightarrow> fixed_bytes_error + bytes" where
  "fb_of_hex n al s =
     (case fromHexString s of
        Inl BadHexCharacter \<Rightarrow> Inl FbBadHexCharacter
      | Inr bs \<Rightarrow> constructFixedBytes n al bs)"

definition fb_of_binary :: "nat \<Rightarrow> align_type \<Rightarrow> string \<Rightarrow> fixed_bytes_error + bytes" where
  "fb_of_binary n al s = constructFixedBytes n al (bytes_of_string s)"

definition fb_to_arith :: "bytes \<Rightarrow> nat" where
  "fb_to_arith a = fromBigEndian (8 * length a) a"

definition fb_bool :: "bytes \<Rightarrow> bool" where
  "fb_bool a = list_ex (\<lambda>b. b \<noteq> 0) a"

fun fb_less :: "bytes \<Rightarrow> bytes \<Rightarrow> bool" where
  "fb_less (a # as) (b # bs) = (if a < b then True else if a > b then False else fb_less as bs)"
| "fb_less _ _ = False"

definition fb_le :: "bytes \<Rightarrow> bytes \<Rightarrow> bool" where
  "fb_le a b = (a = b \<or> fb_less a b)"

definition fb_ge :: "bytes \<Rightarrow> bytes \<Rightarrow> bool" where
  "fb_ge a b = (\<not> fb_less a b)"

definition fb_greater :: "bytes \<Rightarrow> bytes \<Rightarrow> bool" where
  "fb_greater a b = (\<not> fb_le a b)"

definition fb_xor :: "bytes \<Rightarrow> bytes \<Rightarrow> bytes" where
  "fb_xor a b = map2 (XOR) a b"

definition fb_or :: "bytes \<Rightarrow> bytes \<Rightarrow> bytes" where
  "fb_or a b = map2 (OR) a b"

definition fb_and :: "bytes \<Rightarrow> bytes \<Rightarrow> bytes" where
  "fb_and a b = map2 (AND) a b"

definition fb_not :: "bytes \<Rightarrow> bytes" where
  "fb_not a = map NOT a"

definition abridged :: "bytes \<Rightarrow> string" where
  "abridged a = toHexString (if 4 \<le> length a then take 4 a else []) [] @ ''...''"

definition fb_hex :: "bytes \<Rightarrow> string" where
  "fb_hex a = toHexString a []"

definition hexPrefixed :: "bytes \<Rightarrow> string" where
  "hexPrefixed a = toHexStringWithPrefix a"

text \<open>
  \<^verbatim>\<open>bloomPart<P, M>\<close>: the inner loop reads the next bytes into an index, the outer
  loop sets one bit of the result per index.  \<^verbatim>\<open>StaticLog2\<close> is the floor logarithm.
\<close>

fun staticLog2 :: "nat \<Rightarrow> nat" where
  "staticLog2 n = (if n \<le> 1 then 0 else 1 + staticLog2 (n div 2))"

declare staticLog2.simps [simp del]

definition bloom_index :: "bytes \<Rightarrow> nat" where
  "bloom_index bs = foldl (\<lambda>index b. take_bit 32 (push_bit 8 index OR unat b)) 0 bs"

fun bloom_loop :: "nat \<Rightarrow> nat \<Rightarrow> nat \<Rightarrow> bytes \<Rightarrow> bytes \<Rightarrow> bytes" where
  "bloom_loop 0 m k p ret = ret"
| "bloom_loop (Suc i) m k p ret =
     (let index = bloom_index (take k p) AND (m * 8 - 1); j = m - 1 - index div 8 in
      bloom_loop i m k (drop k p) (ret[j := ret ! j OR push_bit (index mod 8) 1]))"

definition bloomPart :: "nat \<Rightarrow> nat \<Rightarrow> bytes \<Rightarrow> bytes" where
  "bloomPart p m a = bloom_loop p m ((staticLog2 (m * 8) + 7) div 8) a (fb_zero m)"

definition shiftBloom :: "nat \<Rightarrow> bytes \<Rightarrow> bytes \<Rightarrow> bytes" where
  "shiftBloom p a part = fb_or a (bloomPart p (length a) part)"

lemma and_80_iff: "(d :: byte) AND 0x80 \<noteq> 0 \<longleftrightarrow> bit d 7"
  using bit_iff_and_push_bit_not_eq_0 [of d 7] by (simp add: push_bit_eq_mult)

lemma unat_less_128:
  assumes "\<not> bit (d :: byte) 7"
  shows "unat d < 128"
proof -
  have "take_bit 7 d = d"
  proof (rule bit_eqI)
    fix n
    assume "possible_bit TYPE(byte) n"
    then have "n < 8" by simp
    then show "bit (take_bit 7 d) n \<longleftrightarrow> bit d n"
      using assms by (cases "n = 7") (auto simp: bit_take_bit_iff)
  qed
  then have "unat d = take_bit 7 (unat d)" by (metis unsigned_take_bit_eq)
  also have "\<dots> < 128" by (simp add: take_bit_eq_mod)
  finally show ?thesis .
qed

lemma unat_push_bit_1: "\<not> bit (d :: byte) 7 \<Longrightarrow> unat (push_bit 1 d) = 2 * unat d"
  using unat_less_128 [of d]
  by (simp only: unsigned_push_bit_eq) (simp add: push_bit_eq_mult take_bit_eq_mod)

text \<open>
  The inner loop of \<^verbatim>\<open>firstBitSet\<close> shifts a byte left until its top bit is set.  The
  code enters it for non-zero bytes only, for which it ends.
\<close>

function top_bit_loop :: "nat \<Rightarrow> byte \<Rightarrow> nat" where
  "top_bit_loop ret d =
     (if d = 0 \<or> d AND 0x80 \<noteq> 0 then ret else top_bit_loop (Suc ret) (push_bit 1 d))"
  by auto
termination
proof (relation "measure (\<lambda>(ret, d). 256 - unat d)", simp)
  fix ret :: nat and d :: byte
  assume a: "\<not> (d = 0 \<or> d AND 0x80 \<noteq> 0)"
  then have "\<not> bit d 7" "unat d > 0" by (simp_all add: and_80_iff unat_gt_0)
  then show "((Suc ret, push_bit 1 d), ret, d) \<in> measure (\<lambda>(ret, d). 256 - unat d)"
    using unat_push_bit_1 [of d] unat_less_128 [of d] by simp
qed

declare top_bit_loop.simps [simp del]

fun firstBitSet_loop :: "nat \<Rightarrow> bytes \<Rightarrow> nat" where
  "firstBitSet_loop ret [] = ret"
| "firstBitSet_loop ret (d # ds) =
     (if d \<noteq> 0 then top_bit_loop ret d else firstBitSet_loop (ret + 8) ds)"

definition firstBitSet :: "bytes \<Rightarrow> nat" where
  "firstBitSet a = firstBitSet_loop 0 a"

text \<open>
  The specialised equality of \<^verbatim>\<open>FixedBytes<32>\<close> compares four 64-bit loads (the
  little-endian host reads the first byte as the least significant).
\<close>

definition load64 :: "bytes \<Rightarrow> nat \<Rightarrow> nat" where
  "load64 a i = le_val (take 8 (drop (8 * i) a))"

definition h256_eq :: "bytes \<Rightarrow> bytes \<Rightarrow> bool" where
  "h256_eq a b =
     (load64 a 0 = load64 b 0 \<and> load64 a 1 = load64 b 1 \<and> load64 a 2 = load64 b 2 \<and>
      load64 a 3 = load64 b 3)"

definition right160 :: "bytes \<Rightarrow> bytes" where
  "right160 t = take 20 (drop 12 t)"

definition left160 :: "bytes \<Rightarrow> bytes" where
  "left160 t = take 20 t"

definition asAddress :: "nat \<Rightarrow> bytes" where
  "asAddress item = right160 (fb_of_arith 32 item)"

definition fromAddress :: "bytes \<Rightarrow> nat" where
  "fromAddress a = fb_to_arith a"

definition toAddress :: "string \<Rightarrow> fixed_bytes_error + bytes" where
  "toAddress s =
     (case fromHexString s of
        Inl BadHexCharacter \<Rightarrow> Inl FbBadHexCharacter
      | Inr bs \<Rightarrow> if length bs = 20 then constructFixedBytes 20 AlignRight bs else Inl InvalidAddress)"

text \<open>
  \<^verbatim>\<open>SecureFixedBytes\<close> inherits the data; its compound or and compound and both call
  the exclusive or of the base class, and the binary operators are built on the compound
  ones.
\<close>

definition secure_xor :: "bytes \<Rightarrow> bytes \<Rightarrow> bytes" where
  "secure_xor a c = fb_xor a c"

definition secure_or :: "bytes \<Rightarrow> bytes \<Rightarrow> bytes" where
  "secure_or a c = fb_xor a c"

definition secure_and :: "bytes \<Rightarrow> bytes \<Rightarrow> bytes" where
  "secure_and a c = fb_xor a c"

section \<open>Lemmas\<close>

lemma length_fb_zero [simp]: "length (fb_zero n) = n"
  by (simp add: fb_zero_def)

lemma length_constructFixedBytes:
  "constructFixedBytes n al data = Inr a \<Longrightarrow> length a = n"
  by (auto simp: constructFixedBytes_def Let_def split: align_type.splits if_splits)

lemma length_fb_xor [simp]: "length (fb_xor a b) = min (length a) (length b)"
  by (simp add: fb_xor_def)

lemma fb_xor_commute: "fb_xor a b = fb_xor b a"
  by (rule nth_equalityI) (simp_all add: fb_xor_def xor.commute)

lemma fb_xor_assoc: "fb_xor (fb_xor a b) c = fb_xor a (fb_xor b c)"
  by (rule nth_equalityI) (simp_all add: fb_xor_def xor.assoc)

lemma fb_xor_left_commute: "fb_xor a (fb_xor b c) = fb_xor b (fb_xor a c)"
  by (metis fb_xor_assoc fb_xor_commute)

lemmas fb_xor_ac = fb_xor_assoc fb_xor_commute fb_xor_left_commute

lemma fb_xor_zero: "length a = n \<Longrightarrow> fb_xor (fb_zero n) a = a"
  by (rule nth_equalityI) (simp_all add: fb_xor_def fb_zero_def)

lemma fb_xor_self: "fb_xor a a = fb_zero (length a)"
  by (rule nth_equalityI) (simp_all add: fb_xor_def fb_zero_def)

lemma fb_to_arith_eq: "fb_to_arith a = be_val a"
proof -
  have "(2 :: nat) ^ (8 * length a) = 256 ^ length a" by (simp add: power_mult)
  then show ?thesis
    using be_val_less [of a] by (simp add: fb_to_arith_def fromBigEndian_eq take_bit_eq_mod)
qed

lemma be_val_Cons: "be_val (b # bs) = unat b * 256 ^ length bs + be_val bs"
  using be_val_append [of "[b]" bs] by (simp add: be_val_def)

lemma fb_less_iff:
  "length a = length b \<Longrightarrow> fb_less a b \<longleftrightarrow> be_val a < be_val b"
proof (induction a b rule: fb_less.induct)
  case (1 a as b bs)
  let ?n = "length as"
  have len: "length as = length bs" using 1 by simp
  have bound: "be_val as < 256 ^ ?n" "be_val bs < 256 ^ ?n"
    using be_val_less [of as] be_val_less [of bs] len by simp_all
  have lt: "x < y \<Longrightarrow> unat x * 256 ^ ?n + u < unat y * 256 ^ ?n + v" if "u < 256 ^ ?n"
    for x y :: byte and u v
  proof -
    assume "x < y"
    then have "Suc (unat x) \<le> unat y" by (simp add: word_less_nat_alt)
    then have "Suc (unat x) * 256 ^ ?n \<le> unat y * 256 ^ ?n" by (rule mult_le_mono1)
    with that show ?thesis by simp
  qed
  consider "a < b" | "b < a" | "a = b" by fastforce
  then show ?case
  proof cases
    case 1
    then show ?thesis using lt [OF bound(1) 1] len by (simp add: be_val_Cons)
  next
    case 2
    then show ?thesis using lt [OF bound(2) 2, of "be_val as"] len
      by (auto simp: be_val_Cons)
  next
    case 3
    then show ?thesis using "1.IH" len by (simp add: be_val_Cons)
  qed
qed simp_all

lemma le_val_inj: "length a = length b \<Longrightarrow> le_val a = le_val b \<Longrightarrow> a = b"
  by (metis le_bytes_le_val)

lemma be_val_inj: "length a = length b \<Longrightarrow> be_val a = be_val b \<Longrightarrow> a = b"
  by (metis be_bytes_be_val)

lemma drop_split: "drop k a = take n (drop k a) @ drop (n + k) a"
  using append_take_drop_id [of n "drop k a"] by simp

lemma drop_eqI:
  "take n (drop k a) = take n (drop k b) \<Longrightarrow> drop (n + k) a = drop (n + k) b \<Longrightarrow> drop k a = drop k b"
  by (metis drop_split)

lemma h256_eq_iff:
  assumes "length a = 32" "length b = 32"
  shows "h256_eq a b \<longleftrightarrow> a = b"
proof
  assume eq: "h256_eq a b"
  have piece: "take 8 (drop (8 * i) a) = take 8 (drop (8 * i) b)" if "load64 a i = load64 b i" for i
    using that assms by (intro le_val_inj) (simp_all add: load64_def)
  have "take 8 (drop 24 a) = take 8 (drop 24 b)" using piece [of 3] eq by (simp add: h256_eq_def)
  then have "drop 24 a = drop 24 b" using assms by simp
  moreover have "take 8 (drop 16 a) = take 8 (drop 16 b)"
    using piece [of 2] eq by (simp add: h256_eq_def)
  ultimately have "drop 16 a = drop 16 b" using drop_eqI [of 8 16] by simp
  moreover have "take 8 (drop 8 a) = take 8 (drop 8 b)"
    using piece [of 1] eq by (simp add: h256_eq_def)
  ultimately have "drop 8 a = drop 8 b" using drop_eqI [of 8 8] by simp
  moreover have "take 8 a = take 8 b" using piece [of 0] eq by (simp add: h256_eq_def)
  ultimately show "a = b" by (metis append_take_drop_id)
qed (simp add: h256_eq_def)

lemma unat_ge_128: "bit (d :: byte) 7 \<Longrightarrow> 128 \<le> unat d"
proof (rule ccontr)
  assume "bit d 7" "\<not> 128 \<le> unat d"
  then have "bit (unat d) 7" "unat d div 128 = 0" by (simp_all add: bit_unsigned_iff)
  then show False by (simp add: bit_iff_odd)
qed

lemma top_bit_loop_bounds:
  "d \<noteq> 0 \<Longrightarrow> \<exists>k < 8. top_bit_loop ret d = ret + k \<and> 2 ^ (7 - k) \<le> unat d \<and> unat d < 2 ^ (8 - k)"
proof (induction ret d rule: top_bit_loop.induct)
  case (1 ret d)
  show ?case
  proof (cases "bit d 7")
    case True
    then show ?thesis using unat_ge_128 [of d]
      by (intro exI [of _ 0]) (simp add: top_bit_loop.simps [of ret d] and_80_iff)
  next
    case False
    have d: "unat (push_bit 1 d) = 2 * unat d" by (rule unat_push_bit_1 [OF False])
    have pos: "unat d > 0" using "1.prems" by (simp add: unat_gt_0)
    then have "push_bit 1 d \<noteq> 0" using d by force
    then obtain k where k: "k < 8" "top_bit_loop (Suc ret) (push_bit 1 d) = Suc ret + k"
      "2 ^ (7 - k) \<le> 2 * unat d" "2 * unat d < 2 ^ (8 - k)"
      using "1.IH" "1.prems" False unfolding and_80_iff d by auto
    have "k < 7" using k pos by (cases "k = 7") auto
    then have "2 ^ (8 - k) = 2 * (2 :: nat) ^ (7 - k)" "2 ^ (7 - k) = 2 * (2 :: nat) ^ (6 - k)"
      by (simp_all add: power_Suc [symmetric] Suc_diff_le del: power_Suc)
    with k \<open>k < 7\<close> have "2 ^ (7 - Suc k) \<le> unat d" "unat d < 2 ^ (8 - Suc k)" by simp_all
    then show ?thesis using k \<open>k < 7\<close> "1.prems" False
      by (intro exI [of _ "Suc k"]) (simp add: top_bit_loop.simps [of ret d] and_80_iff)
  qed
qed

lemma firstBitSet_loop_zero: "\<forall>d \<in> set ds. d = 0 \<Longrightarrow> firstBitSet_loop ret ds = ret + 8 * length ds"
  by (induction ds arbitrary: ret) simp_all

lemma firstBitSet_loop_bounds:
  assumes "be_val ds \<noteq> 0"
  shows "\<exists>k < 8 * length ds. firstBitSet_loop ret ds = ret + k \<and>
    2 ^ (8 * length ds - 1 - k) \<le> be_val ds \<and> be_val ds < 2 ^ (8 * length ds - k)"
  using assms
proof (induction ds arbitrary: ret)
  case (Cons d ds)
  let ?n = "length ds"
  have p: "(256 :: nat) ^ ?n = 2 ^ (8 * ?n)" by (simp add: power_mult)
  show ?case
  proof (cases "d = 0")
    case True
    with Cons.prems have "be_val ds \<noteq> 0" by (simp add: be_val_Cons)
    with Cons.IH [of "ret + 8"] obtain k where "k < 8 * ?n" "firstBitSet_loop (ret + 8) ds = ret + 8 + k"
      "2 ^ (8 * ?n - 1 - k) \<le> be_val ds" "be_val ds < 2 ^ (8 * ?n - k)" by auto
    with True show ?thesis by (intro exI [of _ "8 + k"]) (simp add: be_val_Cons)
  next
    case False
    then obtain k where k: "k < 8" "top_bit_loop ret d = ret + k" "2 ^ (7 - k) \<le> unat d"
      "Suc (unat d) \<le> 2 ^ (8 - k)" using top_bit_loop_bounds [OF False, of ret] by auto
    have "2 ^ (7 - k) * 256 ^ ?n \<le> unat d * 256 ^ ?n" "Suc (unat d) * 256 ^ ?n \<le> 2 ^ (8 - k) * 256 ^ ?n"
      using k by (simp_all only: mult_le_mono1)
    moreover have "be_val ds < 256 ^ ?n" by (rule be_val_less)
    moreover have "(2 :: nat) ^ (7 - k) * 256 ^ ?n = 2 ^ (8 * length (d # ds) - 1 - k)"
      "(2 :: nat) ^ (8 - k) * 256 ^ ?n = 2 ^ (8 * length (d # ds) - k)"
      unfolding p power_add [symmetric] using k(1) by (simp_all add: algebra_simps)
    ultimately show ?thesis using k(1,2) False
      by (intro exI [of _ k]) (simp add: be_val_Cons)
  qed
qed (simp add: be_val_def)

lemma be_val_zero_iff: "be_val ds = 0 \<longleftrightarrow> (\<forall>d \<in> set ds. d = 0)"
  by (induction ds) (auto simp: be_val_Cons unat_eq_0, simp add: be_val_def)

lemma length_bloom_loop [simp]: "length (bloom_loop i m k p ret) = length ret"
  by (induction i arbitrary: p ret) (simp_all add: Let_def)

lemma fb_or_absorb: "length a = length b \<Longrightarrow> fb_and (fb_or a b) b = b"
proof -
  have "(x OR y) AND y = y" for x y :: byte by (rule bit_eqI) (auto simp: bit_simps)
  then show "length a = length b \<Longrightarrow> fb_and (fb_or a b) b = b"
    by (intro nth_equalityI) (simp_all add: fb_or_def fb_and_def)
qed

section \<open>Properties\<close>

text \<open>
  The comparison operators of fixed-size byte strings order them as the big-endian
  numbers they convert to, so they form a strict linear order compatible with equality.
\<close>

theorem fixed_bytes_order:
  assumes "length a = length b"
  shows "(fb_less a b \<longleftrightarrow> fb_to_arith a < fb_to_arith b) \<and>
    (fb_le a b \<longleftrightarrow> fb_to_arith a \<le> fb_to_arith b) \<and>
    (fb_greater a b \<longleftrightarrow> fb_less b a) \<and> (fb_ge a b \<longleftrightarrow> fb_le b a)"
proof -
  have "a = b \<longleftrightarrow> be_val a = be_val b" using assms be_val_inj by blast
  with assms show ?thesis
    by (auto simp: fb_less_iff fb_to_arith_eq fb_le_def fb_greater_def fb_ge_def)
qed

theorem fixed_bytes_order_witness:
  "fb_less [1, 2] [1, 3] \<and> fb_to_arith [1, 2] < fb_to_arith [1, 3]"
  using fixed_bytes_order [of "[1, 2]" "[1, 3]"] by simp

text \<open>
  The index returned by the first-bit search is that of the most significant set bit
  counted from the left of the big-endian number, and the bit length when there is none.
\<close>

theorem first_bit_set_correct:
  "if fb_to_arith a = 0 then firstBitSet a = 8 * length a
   else firstBitSet a < 8 * length a \<and>
     2 ^ (8 * length a - 1 - firstBitSet a) \<le> fb_to_arith a \<and>
     fb_to_arith a < 2 ^ (8 * length a - firstBitSet a)"
  using firstBitSet_loop_bounds [of a 0] firstBitSet_loop_zero [of a 0]
  by (auto simp: fb_to_arith_eq firstBitSet_def be_val_zero_iff)

text \<open>
  The equality of 32-byte hashes by four machine words is equality of the byte
  strings.
\<close>

theorem h256_fast_equality:
  assumes "length a = 32" "length b = 32"
  shows "h256_eq a b \<longleftrightarrow> a = b"
  by (rule h256_eq_iff [OF assms])

theorem h256_fast_equality_witness:
  "h256_eq (fb_zero 32) (fb_of_arith 32 1) \<longleftrightarrow> fb_zero 32 = fb_of_arith 32 1"
  by (rule h256_fast_equality) (simp_all add: fb_of_arith_def)

end
