(* ===== verification/State_Storage.thy ===== *)
theory State_Storage
  imports Storage_Entry Fixed_Bytes
begin

text \<open>
  The layered key/value store \<^verbatim>\<open>libstorage/StateStorage.{h,cpp}\<close>.  A chain is the list
  of its state storages from the newest down, each one's \<^verbatim>\<open>m_prev\<close> being the next;
  below the last one there is nothing or a storage of another class, which is a parameter
  (the record \<^verbatim>\<open>ext_storage\<close> below).  The concurrent hash map is an association list in an
  arbitrary iteration order.  The per-thread recorder is indexed by a thread number.
\<close>

unbundle bit_operations_syntax

type_synonym entry_key = "string \<times> string"

record change =
  ch_table :: string
  ch_key :: string
  ch_entry :: "entry option"

type_synonym recoder = "change list"

record state_storage =
  m_data :: "(entry_key \<times> entry) list"
  m_recoder :: "nat \<Rightarrow> recoder option"
  m_capacity :: "64 word"
  m_enableTraverse :: bool
  m_readOnly :: bool

text \<open>The operations of a storage of another class at the bottom of a chain.\<close>

record ext_storage =
  ext_keys :: "string \<Rightarrow> condition option \<Rightarrow> string list result"
  ext_row :: "string \<Rightarrow> string \<Rightarrow> entry option result"
  ext_rows :: "string \<Rightarrow> string list \<Rightarrow> entry option list result"

section \<open>Construction, flags and recorders\<close>

definition new_state_storage :: state_storage where
  "new_state_storage =
     \<lparr>m_data = [], m_recoder = (\<lambda>_. None), m_capacity = 0, m_enableTraverse = False,
      m_readOnly = False\<rparr>"

definition setPrev :: "state_storage list \<Rightarrow> state_storage list \<Rightarrow> state_storage list" where
  "setPrev chain prev = (case chain of [] \<Rightarrow> [] | s # _ \<Rightarrow> s # prev)"

definition setEnableTraverse :: "state_storage \<Rightarrow> bool \<Rightarrow> state_storage" where
  "setEnableTraverse s b = s\<lparr>m_enableTraverse := b\<rparr>"

definition setReadOnly :: "state_storage \<Rightarrow> bool \<Rightarrow> state_storage" where
  "setReadOnly s b = s\<lparr>m_readOnly := b\<rparr>"

definition newRecoder :: recoder where
  "newRecoder = []"

definition setRecoder :: "nat \<Rightarrow> state_storage \<Rightarrow> recoder option \<Rightarrow> state_storage" where
  "setRecoder tid s r = s\<lparr>m_recoder := (m_recoder s)(tid := r)\<rparr>"

text \<open>\<^verbatim>\<open>Recoder::log\<close> adds at the front of the list of changes.\<close>

definition log_change :: "nat \<Rightarrow> change \<Rightarrow> state_storage \<Rightarrow> state_storage" where
  "log_change tid c s =
     (case m_recoder s tid of
        None \<Rightarrow> s
      | Some r \<Rightarrow> s\<lparr>m_recoder := (m_recoder s)(tid \<mapsto> c # r)\<rparr>)"

section \<open>Reading\<close>

definition importExistingEntry ::
    "state_storage \<Rightarrow> string \<Rightarrow> string \<Rightarrow> entry \<Rightarrow> entry \<times> state_storage" where
  "importExistingEntry s table key e =
     (if m_readOnly s then (e, s)
      else
        (let e' = setDirty e False;
             found = map_of (m_data s) (table, key) in
         (case found of None \<Rightarrow> e' | Some old \<Rightarrow> old,
          s\<lparr>m_data := hm_emplace (table, key) e' (m_data s)\<rparr>)))"

text \<open>
  \<^verbatim>\<open>asyncGetRow\<close> runs in two phases: the local lookup, and the callback that
  continues with the answer of the previous storage.  Another thread may change the layer
  between them.
\<close>

definition getRow_local :: "state_storage \<Rightarrow> string \<Rightarrow> string \<Rightarrow> entry option option" where
  "getRow_local s table key =
     (case map_of (m_data s) (table, key) of
        None \<Rightarrow> None
      | Some e \<Rightarrow> Some (if m_status e \<noteq> NORMAL then None else Some e))"

definition getRow_callback ::
    "state_storage \<Rightarrow> string \<Rightarrow> string \<Rightarrow> entry option result \<Rightarrow> entry option result \<times> state_storage" where
  "getRow_callback s table key answer =
     (case answer of
        Inl err \<Rightarrow>
          (Inl (Error (storage_error_code ReadError) ''Get row from storage failed!'' (Some err)), s)
      | Inr None \<Rightarrow> (Inr None, s)
      | Inr (Some e) \<Rightarrow>
          (let (e', s') = importExistingEntry s table key e in (Inr (Some e'), s')))"

fun asyncGetRow ::
    "ext_storage option \<Rightarrow> state_storage list \<Rightarrow> string \<Rightarrow> string
      \<Rightarrow> entry option result \<times> state_storage list" where
  "asyncGetRow b [] table key =
     (case b of None \<Rightarrow> (Inr None, []) | Some ext \<Rightarrow> (ext_row ext table key, []))"
| "asyncGetRow b (s # prev) table key =
     (case getRow_local s table key of
        Some answer \<Rightarrow> (Inr answer, s # prev)
      | None \<Rightarrow>
          (let (answer, prev') = asyncGetRow b prev table key;
               (answer', s') = getRow_callback s table key answer in
           (answer', s' # prev')))"

text \<open>
  The scan of \<^verbatim>\<open>asyncGetRows\<close>: the results so far and the keys that are missing
  locally, with their positions.
\<close>

fun getRows_scan ::
    "state_storage \<Rightarrow> string \<Rightarrow> nat \<Rightarrow> string list \<Rightarrow> entry option list \<times> (string \<times> nat) list" where
  "getRows_scan s table i [] = ([], [])"
| "getRows_scan s table i (key # keys) =
     (let (results, missing) = getRows_scan s table (Suc i) keys in
      case map_of (m_data s) (table, key) of
        Some e \<Rightarrow> ((if m_status e = NORMAL then Some e else None) # results, missing)
      | None \<Rightarrow> (None # results, (key, i) # missing))"

text \<open>
  The callback with the entries of the previous storage, one for each missing key.
\<close>

fun getRows_import ::
    "state_storage \<Rightarrow> string \<Rightarrow> ((string \<times> nat) \<times> entry option) list \<Rightarrow> entry option list
      \<Rightarrow> entry option list \<times> state_storage" where
  "getRows_import s table [] results = (results, s)"
| "getRows_import s table (((key, i), None) # rest) results = getRows_import s table rest results"
| "getRows_import s table (((key, i), Some e) # rest) results =
     (let (e', s') = importExistingEntry s table key e in
      getRows_import s' table rest (results[i := Some e']))"

fun asyncGetRows ::
    "ext_storage option \<Rightarrow> state_storage list \<Rightarrow> string \<Rightarrow> string list
      \<Rightarrow> entry option list result \<times> state_storage list" where
  "asyncGetRows b [] table keys =
     (case b of None \<Rightarrow> (Inr (replicate (length keys) None), [])
      | Some ext \<Rightarrow> (ext_rows ext table keys, []))"
| "asyncGetRows b (s # prev) table keys =
     (let (results, missing) = getRows_scan s table 0 keys in
      if missing \<noteq> [] \<and> (prev \<noteq> [] \<or> b \<noteq> None) then
        (case asyncGetRows b prev table (map fst missing) of
           (Inl err, prev') \<Rightarrow>
             (Inl (Error (storage_error_code ReadError) ''async get perv rows failed!'' (Some err)),
              s # prev')
         | (Inr entries, prev') \<Rightarrow>
             (let (results', s') = getRows_import s table (zip missing entries) results in
              (Inr results', s' # prev')))
      else (Inr results, s # prev))"

section \<open>Writing\<close>

definition asyncSetRow ::
    "nat \<Rightarrow> state_storage \<Rightarrow> string \<Rightarrow> string \<Rightarrow> entry \<Rightarrow> error option \<times> state_storage" where
  "asyncSetRow tid s table key e =
     (if m_readOnly s then
        (Some (Error (storage_error_code ReadOnly) ''Try to operate a read-only storage'' None), s)
      else
        (case map_of (m_data s) (table, key) of
           Some entryOld \<Rightarrow>
             (let updatedCapacity = m_size e - m_size entryOld;
                  data' = (if m_status e = PURGED then AList.delete (table, key) (m_data s)
                           else AList.update (table, key) e (m_data s));
                  s' = log_change tid \<lparr>ch_table = table, ch_key = key, ch_entry = Some entryOld\<rparr>
                         (s\<lparr>m_data := data'\<rparr>) in
              (None, s'\<lparr>m_capacity := m_capacity s' + word_of_int updatedCapacity\<rparr>))
         | None \<Rightarrow>
             if m_status e = PURGED then (None, s)
             else
               (let s' = log_change tid \<lparr>ch_table = table, ch_key = key, ch_entry = None\<rparr>
                           (s\<lparr>m_data := hm_emplace (table, key) e (m_data s)\<rparr>) in
                (None, s'\<lparr>m_capacity := m_capacity s' + word_of_int (m_size e)\<rparr>))))"

fun rollback_loop ::
    "recoder \<Rightarrow> (entry_key \<times> entry) list \<Rightarrow> error option \<times> (entry_key \<times> entry) list" where
  "rollback_loop [] data = (None, data)"
| "rollback_loop (c # cs) data =
     (let k = (ch_table c, ch_key c) in
      case ch_entry c of
        Some e \<Rightarrow>
          (if map_of data k \<noteq> None then rollback_loop cs (AList.update k e data)
           else rollback_loop cs (hm_emplace k e data))
      | None \<Rightarrow>
          (if map_of data k \<noteq> None then rollback_loop cs (AList.delete k data)
           else (Some (Error (storage_error_code UnknownError)
                   (''Not found rollback entry: '' @ ch_table c @ '':'' @ ch_key c) None), data)))"

definition rollback :: "state_storage \<Rightarrow> recoder \<Rightarrow> error option \<times> state_storage" where
  "rollback s r =
     (if m_readOnly s then (None, s)
      else (let (err, data') = rollback_loop r (m_data s) in (err, s\<lparr>m_data := data'\<rparr>)))"

section \<open>Keys, traversal and hash\<close>

definition local_keys :: "state_storage \<Rightarrow> string \<Rightarrow> condition option \<Rightarrow> (string \<times> status) list" where
  "local_keys s table c =
     (if m_enableTraverse s then
        sort_key fst
          (map (\<lambda>(k, e). (snd k, m_status e))
            (filter (\<lambda>(k, e). fst k = table \<and> (case c of None \<Rightarrow> True | Some c' \<Rightarrow> isValid c' (snd k)))
              (m_data s)))
      else [])"

definition normal_keys :: "(string \<times> status) list \<Rightarrow> string list" where
  "normal_keys l = map fst (filter (\<lambda>p. snd p = NORMAL) l)"

text \<open>
  The loop over the keys of the previous storage: a key that is deleted locally is dropped,
  and a key seen locally leaves the local map.
\<close>

fun merge_remote :: "(string \<times> status) list \<Rightarrow> string list \<Rightarrow> string list \<times> (string \<times> status) list" where
  "merge_remote l [] = ([], l)"
| "merge_remote l (k # ks) =
     (case map_of l k of
        None \<Rightarrow> (let (r, l') = merge_remote l ks in (k # r, l'))
      | Some st \<Rightarrow>
          (let (r, l') = merge_remote (AList.delete k l) ks in
           (if st \<noteq> NORMAL then r else k # r, l')))"

fun asyncGetPrimaryKeys ::
    "ext_storage option \<Rightarrow> state_storage list \<Rightarrow> string \<Rightarrow> condition option \<Rightarrow> string list result" where
  "asyncGetPrimaryKeys b [] table c =
     (case b of None \<Rightarrow> Inr [] | Some ext \<Rightarrow> ext_keys ext table c)"
| "asyncGetPrimaryKeys b (s # prev) table c =
     (let localKeys = local_keys s table c in
      if prev = [] \<and> b = None then Inr (normal_keys localKeys)
      else
        (case asyncGetPrimaryKeys b prev table c of
           Inl err \<Rightarrow>
             Inl (Error (storage_error_code ReadError) ''Get primary keys from prev failed!'' (Some err))
         | Inr remoteKeys \<Rightarrow>
             (let (kept, rest) = merge_remote localKeys remoteKeys in
              Inr (kept @ normal_keys rest))))"

text \<open>The calls that \<^verbatim>\<open>parallelTraverse\<close> makes, in some order.\<close>

definition parallelTraverse :: "state_storage \<Rightarrow> bool \<Rightarrow> (string \<times> string \<times> entry) list" where
  "parallelTraverse s onlyDirty =
     map (\<lambda>(k, e). (fst k, snd k, e)) (filter (\<lambda>(k, e). \<not> onlyDirty \<or> m_dirty e) (m_data s))"

text \<open>The bytes of field 0; entries of a storage satisfy the invariant that makes it defined.\<close>

definition field0 :: "entry \<Rightarrow> string" where
  "field0 e = (case getField e 0 of Inr (Some v) \<Rightarrow> v | _ \<Rightarrow> [])"

definition hash_step :: "(string \<Rightarrow> bytes) \<Rightarrow> bytes \<Rightarrow> entry_key \<times> entry \<Rightarrow> bytes" where
  "hash_step hashImpl totalHash it =
     (let e = snd it in
      if m_dirty e then
        if m_status e \<noteq> DELETED then fb_xor totalHash (hashImpl (field0 e))
        else fb_xor totalHash (fb_of_arith 32 1)
      else totalHash)"

definition hash_sequential :: "(string \<Rightarrow> bytes) \<Rightarrow> state_storage \<Rightarrow> bytes" where
  "hash_sequential hashImpl s = foldl (hash_step hashImpl) (fb_zero 32) (m_data s)"

text \<open>
  The parallel branch: the threads of the loop each take a range of the map.  The exclusive
  or of an ordinary entry is made under a lock and is one step.  That of a deleted entry is
  made without the lock: it reads the total in one step and writes it in another.
\<close>

record hash_thread =
  ht_rest :: "(entry_key \<times> entry) list"
  ht_loaded :: "bytes option"

definition hash_thread_step :: "(string \<Rightarrow> bytes) \<Rightarrow> bytes \<Rightarrow> hash_thread \<Rightarrow> bytes \<times> hash_thread" where
  "hash_thread_step hashImpl totalHash th =
     (case ht_rest th of
        [] \<Rightarrow> (totalHash, th)
      | it # rest \<Rightarrow>
          (case ht_loaded th of
             Some old \<Rightarrow> (fb_xor old (fb_of_arith 32 1), \<lparr>ht_rest = rest, ht_loaded = None\<rparr>)
           | None \<Rightarrow>
               (let e = snd it in
                if m_dirty e then
                  if m_status e \<noteq> DELETED
                  then (fb_xor totalHash (hashImpl (field0 e)), \<lparr>ht_rest = rest, ht_loaded = None\<rparr>)
                  else (totalHash, th\<lparr>ht_loaded := Some totalHash\<rparr>)
                else (totalHash, \<lparr>ht_rest = rest, ht_loaded = None\<rparr>))))"

definition hash_turn ::
    "(string \<Rightarrow> bytes) \<Rightarrow> bytes \<times> hash_thread list \<Rightarrow> nat \<Rightarrow> bytes \<times> hash_thread list" where
  "hash_turn hashImpl st i =
     (let (totalHash, ths) = st in
      if i < length ths then
        (let (totalHash', th) = hash_thread_step hashImpl totalHash (ths ! i) in (totalHash', ths[i := th]))
      else st)"

text \<open>
  The result under a schedule, the list of the threads that take a step one after the
  other; \<^term>\<open>None\<close> when some thread is not done.
\<close>

definition hash_parallel ::
    "(string \<Rightarrow> bytes) \<Rightarrow> (entry_key \<times> entry) list list \<Rightarrow> nat list \<Rightarrow> bytes option" where
  "hash_parallel hashImpl ranges schedule =
     (let (totalHash, ths) =
        foldl (hash_turn hashImpl) (fb_zero 32, map (\<lambda>r. \<lparr>ht_rest = r, ht_loaded = None\<rparr>) ranges) schedule
      in if list_all (\<lambda>th. ht_rest th = []) ths then Some totalHash else None)"

end
