(* ===== verification/State_Storage_Props.thy ===== *)
theory State_Storage_Props
  imports State_Storage
begin

text \<open>
  Correctness of the layered store.  The specification of a chain is the map of visible
  values \<^verbatim>\<open>chain_view\<close>; reads return it and leave it unchanged, writes update it at one
  key, a batch read is the single reads, the key listing enumerates it, a rollback of the
  recorded changes restores it, and the state hash does not depend on iteration order.
\<close>

section \<open>The visible map\<close>

fun chain_view :: "ext_storage option \<Rightarrow> state_storage list \<Rightarrow> entry_key \<Rightarrow> string option" where
  "chain_view b [] k =
     (case b of
        None \<Rightarrow> None
      | Some ext \<Rightarrow>
          (case ext_row ext (fst k) (snd k) of Inr (Some e) \<Rightarrow> Some (content e) | _ \<Rightarrow> None))"
| "chain_view b (s # prev) k =
     (case map_of (m_data s) k of
        Some e \<Rightarrow> if m_status e = NORMAL then Some (content e) else None
      | None \<Rightarrow> chain_view b prev k)"

text \<open>
  What the chain relies on of the storage below it: reads succeed and return only rows in
  normal status; a batch read gives the rows of the single reads; the key listing gives
  each visible key that meets the condition once.
\<close>

definition ext_reads_ok :: "ext_storage option \<Rightarrow> bool" where
  "ext_reads_ok b =
     (case b of None \<Rightarrow> True
      | Some ext \<Rightarrow> (\<forall>t k. \<exists>r. ext_row ext t k = Inr r \<and> (\<forall>e. r = Some e \<longrightarrow> m_status e = NORMAL)))"

definition ext_batch_ok :: "ext_storage option \<Rightarrow> bool" where
  "ext_batch_ok b =
     (case b of None \<Rightarrow> True
      | Some ext \<Rightarrow> (\<forall>t ks. ext_rows ext t ks =
          Inr (map (\<lambda>k. case ext_row ext t k of Inr r \<Rightarrow> r | Inl _ \<Rightarrow> None) ks)))"

definition cond_ok :: "condition option \<Rightarrow> string \<Rightarrow> bool" where
  "cond_ok c k = (case c of None \<Rightarrow> True | Some c' \<Rightarrow> isValid c' k)"

definition ext_keys_ok :: "ext_storage option \<Rightarrow> bool" where
  "ext_keys_ok b =
     (case b of None \<Rightarrow> True
      | Some ext \<Rightarrow> (\<forall>t c. \<exists>ks. ext_keys ext t c = Inr ks \<and> distinct ks \<and>
          set ks = {k. chain_view b [] (t, k) \<noteq> None \<and> cond_ok c k}))"

lemma getRow_local_cases:
  "getRow_local s t k = None \<longleftrightarrow> map_of (m_data s) (t, k) = None"
  by (simp add: getRow_local_def split: option.splits)

lemma import_view:
  assumes "map_of (m_data s) (t, k) = None" "m_status e = NORMAL"
    and "chain_view b prev (t, k) = Some (content e)"
    and "importExistingEntry s t k e = (e', s')"
  shows "chain_view b (s' # prev) = chain_view b (s # prev)" "content e' = content e"
    "m_status e' = NORMAL"
  using assms by (auto simp: importExistingEntry_def Let_def split: if_splits)

lemma getRow_prev_view:
  assumes "asyncGetRow b prev t k = (Inr r, prev')" "chain_view b prev' = chain_view b prev"
  shows "chain_view b (s # prev') = chain_view b (s # prev)"
  using assms by (auto split: option.splits)

definition get_ok :: "ext_storage option \<Rightarrow> state_storage list \<Rightarrow> string \<Rightarrow> string \<Rightarrow> bool" where
  "get_ok b chain t k =
     (\<exists>r chain'. asyncGetRow b chain t k = (Inr r, chain') \<and>
        map_option content r = chain_view b chain (t, k) \<and>
        (\<forall>e. r = Some e \<longrightarrow> m_status e = NORMAL) \<and>
        chain_view b chain' = chain_view b chain \<and> length chain' = length chain)"

lemma get_ok_cons:
  assumes "get_ok b chain t k"
  shows "get_ok b (s # chain) t k"
proof (cases "map_of (m_data s) (t, k)")
  case (Some e)
  then show ?thesis by (simp add: get_ok_def getRow_local_def)
next
  case None
  then have loc: "getRow_local s t k = None" by (simp add: getRow_local_cases)
  from assms obtain r prev' where p: "asyncGetRow b chain t k = (Inr r, prev')"
    "map_option content r = chain_view b chain (t, k)"
    "\<forall>e. r = Some e \<longrightarrow> m_status e = NORMAL"
    "chain_view b prev' = chain_view b chain" "length prev' = length chain"
    by (auto simp: get_ok_def)
  show ?thesis
  proof (cases r)
    case None
    with p loc \<open>map_of (m_data s) (t, k) = None\<close> show ?thesis
      by (simp add: get_ok_def getRow_callback_def getRow_prev_view [OF p(1,4)])
  next
    case (Some e)
    obtain e' s' where imp: "importExistingEntry s t k e = (e', s')" by fastforce
    have "m_status e = NORMAL" "chain_view b chain (t, k) = Some (content e)" using p Some by auto
    note v = import_view [OF None this imp]
    have "chain_view b (s' # prev') = chain_view b (s # chain)"
      using getRow_prev_view [OF p(1,4)] v(1) by simp
    then show ?thesis using p loc Some imp v(2,3) None by (simp add: get_ok_def getRow_callback_def)
  qed
qed

lemma get_ok_nil: "ext_reads_ok b \<Longrightarrow> get_ok b [] t k"
  by (cases b) (fastforce simp: get_ok_def ext_reads_ok_def split: option.splits)+

lemma asyncGetRow_view: "ext_reads_ok b \<Longrightarrow> get_ok b chain t k"
  by (induction chain) (simp_all add: get_ok_nil get_ok_cons)

section \<open>Writing\<close>

lemma log_change_sel [simp]:
  "m_data (log_change tid c s) = m_data s" "m_capacity (log_change tid c s) = m_capacity s"
  "m_readOnly (log_change tid c s) = m_readOnly s"
  "m_enableTraverse (log_change tid c s) = m_enableTraverse s"
  "m_recoder (log_change tid c s) =
     (case m_recoder s tid of None \<Rightarrow> m_recoder s | Some r \<Rightarrow> (m_recoder s)(tid \<mapsto> c # r))"
  by (simp_all add: log_change_def split: option.splits)

text \<open>What a write leaves in the layer's own map.\<close>

lemma asyncSetRow_data:
  assumes "\<not> m_readOnly s" "asyncSetRow tid s t k e = (err, s')"
  shows "err = None"
    and "map_of (m_data s') = (map_of (m_data s))((t, k) := (if m_status e = PURGED then None else Some e))"
    and "m_readOnly s' = m_readOnly s" "m_enableTraverse s' = m_enableTraverse s"
  using assms by (auto simp: asyncSetRow_def Let_def fun_eq_iff split: option.splits if_splits)

definition set_view ::
    "(entry_key \<Rightarrow> string option) \<Rightarrow> (entry_key \<Rightarrow> string option) \<Rightarrow> entry_key \<Rightarrow> entry
      \<Rightarrow> entry_key \<Rightarrow> string option" where
  "set_view below v k e =
     v(k := (case m_status e of NORMAL \<Rightarrow> Some (content e) | DELETED \<Rightarrow> None | PURGED \<Rightarrow> below k))"

lemma asyncSetRow_view:
  assumes "\<not> m_readOnly s" "asyncSetRow tid s t k e = (err, s')"
  shows "chain_view b (s' # prev) = set_view (chain_view b prev) (chain_view b (s # prev)) (t, k) e"
  using asyncSetRow_data [OF assms]
  by (auto simp: set_view_def fun_eq_iff split: option.splits status.splits)

section \<open>Reads and the layer's own map\<close>

text \<open>A read changes the top layer at most by importing a clean copy of what lies below.\<close>

definition imported :: "(entry_key \<Rightarrow> string option) \<Rightarrow> entry_key \<Rightarrow> entry \<Rightarrow> bool" where
  "imported below k e = (m_status e = NORMAL \<and> below k = Some (content e))"

lemma asyncGetRow_top:
  assumes "ext_reads_ok b"
  shows "\<exists>s' prev'. snd (asyncGetRow b (s # prev) t k) = s' # prev' \<and>
    chain_view b prev' = chain_view b prev \<and>
    m_recoder s' = m_recoder s \<and> m_readOnly s' = m_readOnly s \<and>
    (map_of (m_data s') = map_of (m_data s) \<or>
     map_of (m_data s) (t, k) = None \<and>
     (\<exists>e. map_of (m_data s') = (map_of (m_data s))((t, k) \<mapsto> e) \<and>
          imported (chain_view b prev) (t, k) e))"
proof (cases "map_of (m_data s) (t, k)")
  case (Some e)
  then show ?thesis by (simp add: getRow_local_def)
next
  case None
  obtain r prev' where p: "asyncGetRow b prev t k = (Inr r, prev')"
    "map_option content r = chain_view b prev (t, k)"
    "\<forall>e. r = Some e \<longrightarrow> m_status e = NORMAL" "chain_view b prev' = chain_view b prev"
    using asyncGetRow_view [OF assms, of prev t k] unfolding get_ok_def by blast
  have loc: "getRow_local s t k = None" using None by (simp add: getRow_local_cases)
  show ?thesis
  proof (cases r)
    case (Some e)
    then have "imported (chain_view b prev) (t, k) (setDirty e False)"
      using p(2,3) by (auto simp: imported_def)
    then show ?thesis using p loc None Some
      by (auto simp: getRow_callback_def importExistingEntry_def Let_def)
  qed (use p loc in \<open>simp add: getRow_callback_def\<close>)
qed

section \<open>Rollback\<close>

abbreviation change_key :: "change \<Rightarrow> entry_key" where
  "change_key c \<equiv> (ch_table c, ch_key c)"

fun undo :: "recoder \<Rightarrow> (entry_key \<rightharpoonup> entry) \<Rightarrow> (entry_key \<rightharpoonup> entry)" where
  "undo [] m = m"
| "undo (c # cs) m = undo cs (m(change_key c := ch_entry c))"

fun undo_ok :: "recoder \<Rightarrow> (entry_key \<rightharpoonup> entry) \<Rightarrow> bool" where
  "undo_ok [] m = True"
| "undo_ok (c # cs) m =
     ((ch_entry c = None \<longrightarrow> m (change_key c) \<noteq> None) \<and> undo_ok cs (m(change_key c := ch_entry c)))"

definition rollback_ok :: "recoder \<Rightarrow> (entry_key \<times> entry) list \<Rightarrow> bool" where
  "rollback_ok cs data =
     (undo_ok cs (map_of data) \<longrightarrow>
      fst (rollback_loop cs data) = None \<and>
      map_of (snd (rollback_loop cs data)) = undo cs (map_of data))"

lemma rollback_ok_cons: "(\<And>data. rollback_ok cs data) \<Longrightarrow> rollback_ok (c # cs) data"
  by (cases "ch_entry c"; cases "map_of data (change_key c)")
    (simp_all add: rollback_ok_def Let_def)

lemma rollback_loop_undo:
  assumes "undo_ok cs (map_of data)"
  shows "fst (rollback_loop cs data) = None"
    "map_of (snd (rollback_loop cs data)) = undo cs (map_of data)"
proof -
  have "rollback_ok cs data" for data
    by (induction cs arbitrary: data) (simp add: rollback_ok_def, rule rollback_ok_cons)
  with assms show "fst (rollback_loop cs data) = None"
    "map_of (snd (rollback_loop cs data)) = undo cs (map_of data)" by (auto simp: rollback_ok_def)
qed

lemma undo_ok_mono: "undo_ok cs m \<Longrightarrow> dom m \<subseteq> dom m' \<Longrightarrow> undo_ok cs m'"
  apply (induction cs arbitrary: m m')
   apply simp
  subgoal premises prems for c cs m m'
  proof -
    have "dom (m(change_key c := ch_entry c)) \<subseteq> dom (m'(change_key c := ch_entry c))"
      using prems(3) by auto
    moreover have "undo_ok cs (m(change_key c := ch_entry c))" using prems(2) by simp
    ultimately have "undo_ok cs (m'(change_key c := ch_entry c))" by (rule prems(1) [rotated])
    then show ?thesis using prems(2,3) by (auto simp del: dom_fun_upd)
  qed
  done

lemma undo_upd_other: "j \<noteq> k \<Longrightarrow> undo cs (m(k := v)) j = undo cs m j"
  apply (induction cs arbitrary: m)
   apply simp
  subgoal for c cs m
    by (cases "change_key c = k") (simp, simp add: fun_upd_twist [of k "change_key c"])
  done

lemma undo_upd_same: "undo cs (m(k := v)) k = undo cs m k \<or> (undo cs m k = m k \<and> undo cs (m(k := v)) k = v)"
  apply (induction cs arbitrary: m)
   apply simp
  subgoal premises IH for c cs m
    using IH [of "m(change_key c := ch_entry c)"]
    by (cases "change_key c = k") (simp, simp add: fun_upd_twist [of k "change_key c"])
  done

text \<open>A map that agrees with the old one except for imported copies.\<close>

definition restored ::
    "(entry_key \<Rightarrow> string option) \<Rightarrow> (entry_key \<rightharpoonup> entry) \<Rightarrow> (entry_key \<rightharpoonup> entry) \<Rightarrow> bool" where
  "restored below m0 m =
     (\<forall>k. m k = m0 k \<or> m0 k = None \<and> (\<exists>e. m k = Some e \<and> imported below k e))"

lemma restored_view:
  assumes "restored (chain_view b prev) (map_of (m_data s)) (map_of (m_data s'))"
    and "chain_view b prev' = chain_view b prev"
  shows "chain_view b (s' # prev') = chain_view b (s # prev)"
proof
  fix k
  show "chain_view b (s' # prev') k = chain_view b (s # prev) k"
    using assms(1) [unfolded restored_def, rule_format, of k] fun_cong [OF assms(2), of k]
    by (auto simp: imported_def split: option.split)
qed

datatype storage_op = OpGet string string | OpSet string string entry

fun exec_op :: "nat \<Rightarrow> ext_storage option \<Rightarrow> state_storage list \<Rightarrow> storage_op \<Rightarrow> state_storage list" where
  "exec_op tid b chain (OpGet t k) = snd (asyncGetRow b chain t k)"
| "exec_op tid b (s # prev) (OpSet t k e) = snd (asyncSetRow tid s t k e) # prev"
| "exec_op tid b [] (OpSet t k e) = []"

definition exec_ops :: "nat \<Rightarrow> ext_storage option \<Rightarrow> state_storage list \<Rightarrow> storage_op list \<Rightarrow> state_storage list" where
  "exec_ops tid b chain ops = foldl (exec_op tid b) chain ops"

definition recording ::
    "nat \<Rightarrow> ext_storage option \<Rightarrow> (entry_key \<Rightarrow> string option) \<Rightarrow> (entry_key \<rightharpoonup> entry)
      \<Rightarrow> state_storage list \<Rightarrow> bool" where
  "recording tid b below m0 chain =
     (\<exists>s prev cs. chain = s # prev \<and> m_recoder s tid = Some cs \<and> \<not> m_readOnly s \<and>
        chain_view b prev = below \<and> undo_ok cs (map_of (m_data s)) \<and>
        restored below m0 (undo cs (map_of (m_data s))))"

lemma recording_get:
  assumes "ext_reads_ok b" "recording tid b below m0 chain"
  shows "recording tid b below m0 (snd (asyncGetRow b chain t k))"
proof -
  from assms(2) obtain s prev cs where c: "chain = s # prev" "m_recoder s tid = Some cs"
    "\<not> m_readOnly s" "chain_view b prev = below" "undo_ok cs (map_of (m_data s))"
    "restored below m0 (undo cs (map_of (m_data s)))" by (auto simp: recording_def)
  obtain s' prev' where p: "snd (asyncGetRow b (s # prev) t k) = s' # prev'"
    "chain_view b prev' = below" "m_recoder s' = m_recoder s" "m_readOnly s' = m_readOnly s"
    and data: "map_of (m_data s') = map_of (m_data s) \<or>
      map_of (m_data s) (t, k) = None \<and>
      (\<exists>e. map_of (m_data s') = (map_of (m_data s))((t, k) \<mapsto> e) \<and> imported below (t, k) e)"
    using asyncGetRow_top [OF assms(1), of s prev t k] c(4) by metis
  have "undo_ok cs (map_of (m_data s')) \<and> restored below m0 (undo cs (map_of (m_data s')))"
    using data
  proof (elim disjE conjE exE)
    fix e
    let ?m = "map_of (m_data s)"
    assume new: "?m (t, k) = None" "map_of (m_data s') = ?m((t, k) \<mapsto> e)" "imported below (t, k) e"
    have "undo_ok cs (?m((t, k) \<mapsto> e))" using c(5) by (rule undo_ok_mono) auto
    moreover have "restored below m0 (undo cs (?m((t, k) \<mapsto> e)))"
      unfolding restored_def
    proof
      fix j
      show "undo cs (?m((t, k) \<mapsto> e)) j = m0 j \<or>
        m0 j = None \<and> (\<exists>e'. undo cs (?m((t, k) \<mapsto> e)) j = Some e' \<and> imported below j e')"
        using c(6) [unfolded restored_def, rule_format, of j]
          undo_upd_other [of j "(t, k)" cs ?m "Some e"] undo_upd_same [of cs ?m "(t, k)" "Some e"]
          new(1,3) by (cases "j = (t, k)") auto
    qed
    ultimately show ?thesis using new(2) by simp
  qed (use c in simp)
  then show ?thesis using c p by (auto simp: recording_def)
qed

lemma asyncSetRow_log:
  assumes "\<not> m_readOnly s" "m_recoder s tid = Some cs"
  shows "snd (asyncSetRow tid s t k e) = s \<or>
    m_recoder (snd (asyncSetRow tid s t k e)) tid =
      Some (\<lparr>ch_table = t, ch_key = k, ch_entry = map_of (m_data s) (t, k)\<rparr> # cs) \<and>
    (map_of (m_data s) (t, k) = None \<longrightarrow> m_status e \<noteq> PURGED)"
  using assms by (cases "map_of (m_data s) (t, k)") (simp_all add: asyncSetRow_def Let_def)

lemma recording_set:
  assumes "recording tid b below m0 (s # prev)"
  shows "recording tid b below m0 (snd (asyncSetRow tid s t k e) # prev)"
proof -
  from assms obtain cs where c: "m_recoder s tid = Some cs" "\<not> m_readOnly s"
    "chain_view b prev = below" "undo_ok cs (map_of (m_data s))"
    "restored below m0 (undo cs (map_of (m_data s)))" unfolding recording_def by blast
  let ?m = "map_of (m_data s)" and ?s = "snd (asyncSetRow tid s t k e)"
  have new: "map_of (m_data ?s) = ?m((t, k) := (if m_status e = PURGED then None else Some e))"
    "m_readOnly ?s = m_readOnly s"
    using asyncSetRow_data(2,3) [OF c(2) prod.collapse [symmetric]] by simp_all
  let ?c = "\<lparr>ch_table = t, ch_key = k, ch_entry = ?m (t, k)\<rparr>"
  have undo1: "(map_of (m_data ?s))((t, k) := ?m (t, k)) = ?m" unfolding new by simp
  from asyncSetRow_log [OF c(2,1)] show ?thesis
  proof
    assume "?s = s"
    then show ?thesis using assms by simp
  next
    assume l: "m_recoder ?s tid = Some (?c # cs) \<and> (?m (t, k) = None \<longrightarrow> m_status e \<noteq> PURGED)"
    have "undo_ok (?c # cs) (map_of (m_data ?s))" using l c(4) undo1 by (simp add: new(1))
    moreover have "restored below m0 (undo (?c # cs) (map_of (m_data ?s)))" using c(5) undo1 by simp
    ultimately show ?thesis unfolding recording_def using l c(2,3) new(2) by blast
  qed
qed

lemma recording_ops:
  assumes "ext_reads_ok b"
  shows "recording tid b below m0 chain \<Longrightarrow> recording tid b below m0 (exec_ops tid b chain ops)"
proof (induction ops arbitrary: chain)
  case (Cons op ops)
  have "recording tid b below m0 (exec_op tid b chain op)"
  proof (cases op)
    case (OpGet t k)
    then show ?thesis using recording_get [OF assms Cons.prems] by simp
  next
    case (OpSet t k e)
    obtain s prev where "chain = s # prev" using Cons.prems by (auto simp: recording_def)
    then show ?thesis using recording_set Cons.prems OpSet by simp
  qed
  then show ?case using Cons.IH by (simp add: exec_ops_def)
qed (simp add: exec_ops_def)

section \<open>Batch reads\<close>

definition layer_view :: "state_storage \<Rightarrow> (entry_key \<Rightarrow> string option) \<Rightarrow> entry_key \<Rightarrow> string option" where
  "layer_view s below k =
     (case map_of (m_data s) k of
        Some e \<Rightarrow> if m_status e = NORMAL then Some (content e) else None
      | None \<Rightarrow> below k)"

lemma chain_view_layer: "chain_view b (s # prev) = layer_view s (chain_view b prev)"
  by (simp add: fun_eq_iff layer_view_def)

definition clean :: "state_storage \<Rightarrow> (entry_key \<Rightarrow> string option) \<Rightarrow> entry_key \<Rightarrow> bool" where
  "clean s below k = (\<forall>e. map_of (m_data s) k = Some e \<longrightarrow> imported below k e)"

definition row_ok :: "(entry_key \<Rightarrow> string option) \<Rightarrow> entry_key \<Rightarrow> entry option \<Rightarrow> bool" where
  "row_ok v k r = (map_option content r = v k \<and> (\<forall>e. r = Some e \<longrightarrow> m_status e = NORMAL))"

lemma row_ok_Some: "row_ok v k (Some e) \<longleftrightarrow> imported v k e"
  by (auto simp: row_ok_def imported_def)

lemma clean_layer_view: "clean s below k \<Longrightarrow> layer_view s below k = below k"
  by (auto simp: clean_def layer_view_def imported_def split: option.split)

lemma import_clean:
  assumes "clean s below (t, k)" "imported below (t, k) e" "importExistingEntry s t k e = (e', s')"
  shows "imported below (t, k) e'" "layer_view s' below = layer_view s below"
    "clean s below k' \<Longrightarrow> clean s' below k'"
  using assms
  by (auto simp: importExistingEntry_def clean_def imported_def layer_view_def fun_eq_iff Let_def
      split: if_splits option.splits)

lemma getRows_import_ok:
  assumes "\<And>k i r. ((k, i), r) \<in> set items \<Longrightarrow>
      i < length ks \<and> ks ! i = k \<and> clean s below (t, k) \<and> row_ok below (t, k) r"
    and "length results = length ks"
    and "\<And>p. p < length ks \<Longrightarrow>
      (\<exists>r. ((ks ! p, p), r) \<in> set items) \<and> results ! p = None \<or> row_ok (layer_view s below) (t, ks ! p) (results ! p)"
    and "getRows_import s t items results = (results', s')"
  shows "length results' = length ks \<and> layer_view s' below = layer_view s below \<and>
    (\<forall>p < length ks. row_ok (layer_view s below) (t, ks ! p) (results' ! p))"
  using assms
proof (induction s t items results rule: getRows_import.induct)
  case (2 s t k i items results)
  have "row_ok (layer_view s below) (t, k) None"
    using 2(2) [of k i None] clean_layer_view [of s below "(t, k)"] by (simp add: row_ok_def)
  then have pos: "(\<exists>r. ((ks ! p, p), r) \<in> set items) \<and> results ! p = None \<or>
      row_ok (layer_view s below) (t, ks ! p) (results ! p)" if "p < length ks" for p
    using 2(2) [of k i None] 2(4) [OF that] by fastforce
  have items: "((k', j), r) \<in> set items \<Longrightarrow>
      j < length ks \<and> ks ! j = k' \<and> clean s below (t, k') \<and> row_ok below (t, k') r" for k' j r
    using 2(2) [of k' j r] by simp
  show ?case using 2(1) [OF items 2(3) pos] 2(5) by simp
next
  case (3 s t k i e items results)
  obtain e1 s1 where imp: "importExistingEntry s t k e = (e1, s1)" by fastforce
  have h: "i < length ks" "ks ! i = k" "clean s below (t, k)" "imported below (t, k) e"
    using 3(2) [of k i "Some e"] by (simp_all add: row_ok_Some)
  note c = import_clean [OF h(3,4) imp]
  have "row_ok (layer_view s below) (t, ks ! i) (Some e1)"
    using c(1) h clean_layer_view [OF h(3)] by (simp add: row_ok_Some imported_def)
  then have pos: "(\<exists>r. ((ks ! p, p), r) \<in> set items) \<and> results[i := Some e1] ! p = None \<or>
      row_ok (layer_view s1 below) (t, ks ! p) (results[i := Some e1] ! p)" if "p < length ks" for p
    using 3(4) [OF that] h 3(3) c(2) by (cases "p = i") auto
  have items: "((k', j), r) \<in> set items \<Longrightarrow>
      j < length ks \<and> ks ! j = k' \<and> clean s1 below (t, k') \<and> row_ok below (t, k') r" for k' j r
    using 3(2) [of k' j r] c(3) by simp
  have run: "getRows_import s1 t items (results[i := Some e1]) = (results', s')"
    using 3(5) imp by simp
  show ?case
    using 3(1) [OF imp [symmetric] refl items _ pos run] 3(3) c(2) by simp
qed simp

definition local_row :: "state_storage \<Rightarrow> entry_key \<Rightarrow> entry option" where
  "local_row s k =
     (case map_of (m_data s) k of Some e \<Rightarrow> if m_status e = NORMAL then Some e else None | None \<Rightarrow> None)"

lemma getRows_scan_eq:
  "getRows_scan s t i ks =
     (map (\<lambda>k. local_row s (t, k)) ks,
      filter (\<lambda>(k, j). map_of (m_data s) (t, k) = None) (zip ks [i..<i + length ks]))"
  by (induction ks arbitrary: i)
    (simp_all add: upt_conv_Cons local_row_def split: option.split del: upt_Suc)

lemma in_zip_upt0: "(k, j) \<in> set (zip ks [0..<length ks]) \<longleftrightarrow> j < length ks \<and> ks ! j = k"
  by (auto simp: set_zip)

definition rows_ok :: "ext_storage option \<Rightarrow> state_storage list \<Rightarrow> string \<Rightarrow> string list \<Rightarrow> bool" where
  "rows_ok b chain t ks =
     (\<exists>rs chain'. asyncGetRows b chain t ks = (Inr rs, chain') \<and> length rs = length ks \<and>
        (\<forall>p < length ks. row_ok (chain_view b chain) (t, ks ! p) (rs ! p)) \<and>
        chain_view b chain' = chain_view b chain)"

lemma rows_ok_nil:
  assumes "ext_reads_ok b" "ext_batch_ok b"
  shows "rows_ok b [] t ks"
proof (cases b)
  case (Some ext)
  let ?r = "\<lambda>k. case ext_row ext t k of Inr r \<Rightarrow> r | Inl _ \<Rightarrow> None"
  have rows: "ext_rows ext t ks = Inr (map ?r ks)" using assms(2) Some by (simp add: ext_batch_ok_def)
  have "row_ok (chain_view b []) (t, k) (?r k)" for k
  proof -
    obtain r where "ext_row ext t k = Inr r" "\<forall>e. r = Some e \<longrightarrow> m_status e = NORMAL"
      using assms(1) Some by (fastforce simp: ext_reads_ok_def)
    then show ?thesis using Some by (cases r) (simp_all add: row_ok_def)
  qed
  then show ?thesis using Some rows by (simp add: rows_ok_def)
qed (simp add: rows_ok_def row_ok_def)

lemma rows_ok_cons:
  assumes "\<And>ks. rows_ok b prev t ks"
  shows "rows_ok b (s # prev) t ks"
proof -
  let ?below = "chain_view b prev" and ?v = "chain_view b (s # prev)"
  define missing where "missing = filter (\<lambda>(k, j). map_of (m_data s) (t, k) = None) (zip ks [0..<length ks])"
  let ?results = "map (\<lambda>k. local_row s (t, k)) ks"
  have scan: "getRows_scan s t 0 ks = (?results, missing)" by (simp add: getRows_scan_eq missing_def)
  have here: "row_ok ?v (t, k) (local_row s (t, k))" if "map_of (m_data s) (t, k) \<noteq> None" for k
    using that by (auto simp: row_ok_def local_row_def split: if_splits)
  have miss: "(k, j) \<in> set missing \<longleftrightarrow> j < length ks \<and> ks ! j = k \<and> map_of (m_data s) (t, k) = None" for k j
    by (auto simp: missing_def in_zip_upt0)
  show ?thesis
  proof (cases "missing \<noteq> [] \<and> (prev \<noteq> [] \<or> b \<noteq> None)")
    case False
    have "row_ok ?v (t, ks ! p) (local_row s (t, ks ! p))" if "p < length ks" for p
    proof (cases "map_of (m_data s) (t, ks ! p)")
      case None
      then have "(ks ! p, p) \<in> set missing" using that by (simp add: miss)
      then have "prev = []" "b = None" using False by auto
      with None show ?thesis by (simp add: row_ok_def local_row_def)
    qed (simp add: here)
    with False show ?thesis by (auto simp: rows_ok_def scan)
  next
    case True
    obtain rs prev' where p: "asyncGetRows b prev t (map fst missing) = (Inr rs, prev')"
      "length rs = length missing" "chain_view b prev' = ?below"
      "\<And>p. p < length missing \<Longrightarrow> row_ok ?below (t, fst (missing ! p)) (rs ! p)"
      using assms [of "map fst missing"] by (auto simp: rows_ok_def)
    obtain results' s' where imp: "getRows_import s t (zip missing rs) ?results = (results', s')"
      by fastforce
    have "length results' = length ks \<and> layer_view s' ?below = layer_view s ?below \<and>
      (\<forall>p < length ks. row_ok (layer_view s ?below) (t, ks ! p) (results' ! p))"
    proof (rule getRows_import_ok [OF _ _ _ imp])
      fix k i r
      assume "((k, i), r) \<in> set (zip missing rs)"
      then obtain p where "p < length missing" "missing ! p = (k, i)" "rs ! p = r"
        by (auto simp: set_zip)
      then show "i < length ks \<and> ks ! i = k \<and> clean s ?below (t, k) \<and> row_ok ?below (t, k) r"
        using p(4) [of p] miss [of k i] nth_mem [of p missing] by (auto simp: clean_def)
    next
      fix p
      assume "p < length ks"
      then show "(\<exists>r. ((ks ! p, p), r) \<in> set (zip missing rs)) \<and> ?results ! p = None \<or>
        row_ok (layer_view s ?below) (t, ks ! p) (?results ! p)"
      proof (cases "map_of (m_data s) (t, ks ! p)")
        case None
        then have "(ks ! p, p) \<in> set missing" using \<open>p < length ks\<close> by (simp add: miss)
        then have "\<exists>r. ((ks ! p, p), r) \<in> set (zip missing rs)"
          using p(2) by (metis in_set_impl_in_set_zip1)
        with None \<open>p < length ks\<close> show ?thesis by (simp add: local_row_def)
      qed (use here in \<open>simp add: chain_view_layer\<close>)
    qed simp
    then show ?thesis using True p(1,3) imp
      by (auto simp: rows_ok_def scan chain_view_layer simp del: chain_view.simps)
  qed
qed

lemma asyncGetRows_view:
  "ext_reads_ok b \<Longrightarrow> ext_batch_ok b \<Longrightarrow> rows_ok b chain t ks"
  by (induction chain arbitrary: ks) (simp_all add: rows_ok_nil rows_ok_cons)

section \<open>Key listing\<close>

lemma distinct_map_sort_key: "distinct (map f (sort_key g xs)) = distinct (map f xs)"
  by (rule mset_eq_imp_distinct_iff) simp

lemma local_keys_wf:
  assumes "hm_wf (m_data s)"
  shows "distinct (map fst (local_keys s t c))"
proof -
  let ?f = "filter (\<lambda>(k, e). fst k = t \<and> (case c of None \<Rightarrow> True | Some c' \<Rightarrow> isValid c' (snd k))) (m_data s)"
  have "distinct (map fst ?f)" using assms by (simp add: distinct_map_filter)
  then have "distinct (map (snd \<circ> fst) ?f)" by (auto simp: distinct_map inj_on_def split: prod.splits)
  then have "distinct (map fst (map (\<lambda>(k, e). (snd k, m_status e)) ?f))"
    by (simp add: comp_def case_prod_beta)
  then show ?thesis by (simp add: local_keys_def distinct_map_sort_key del: map_map)
qed

lemma local_keys_mem:
  assumes "hm_wf (m_data s)" "m_enableTraverse s"
  shows "(k, st) \<in> set (local_keys s t c) \<longleftrightarrow>
    (\<exists>e. map_of (m_data s) (t, k) = Some e \<and> m_status e = st \<and> cond_ok c k)"
proof -
  have "(k, st) \<in> set (local_keys s t c) \<longleftrightarrow>
    (\<exists>x \<in> set (m_data s). fst (fst x) = t \<and> cond_ok c (snd (fst x)) \<and> k = snd (fst x) \<and> st = m_status (snd x))"
    using assms(2) by (auto simp: local_keys_def cond_ok_def case_prod_beta)
  also have "\<dots> \<longleftrightarrow> (\<exists>e. ((t, k), e) \<in> set (m_data s) \<and> m_status e = st \<and> cond_ok c k)"
    by (metis fst_conv snd_conv prod.collapse)
  finally show ?thesis using assms(1) by simp
qed

definition merge_spec ::
    "(string \<times> status) list \<Rightarrow> string list \<Rightarrow> string list \<Rightarrow> (string \<times> status) list \<Rightarrow> bool" where
  "merge_spec l ks kept rest =
     (distinct kept \<and> distinct (map fst rest) \<and>
      (\<forall>x. x \<in> set kept \<longleftrightarrow> x \<in> set ks \<and> (\<forall>st. (x, st) \<in> set l \<longrightarrow> st = NORMAL)) \<and>
      (\<forall>x st. (x, st) \<in> set rest \<longleftrightarrow> (x, st) \<in> set l \<and> x \<notin> set ks))"

lemma set_delete: "(x, st) \<in> set (AList.delete k l) \<longleftrightarrow> (x, st) \<in> set l \<and> x \<noteq> k"
  by (auto simp: AList.delete_eq)

lemma merge_spec_absent:
  assumes "merge_spec l ks kept rest" "map_of l k = None" "k \<notin> set ks"
  shows "merge_spec l (k # ks) (k # kept) rest"
proof -
  have "(k, st) \<notin> set l" for st using assms(2) by (force simp: map_of_eq_None_iff)
  then show ?thesis using assms(1,3) unfolding merge_spec_def by fastforce
qed

lemma merge_spec_present:
  assumes "merge_spec (AList.delete k l) ks kept rest" "map_of l k = Some st" "k \<notin> set ks"
    "distinct (map fst l)"
  shows "merge_spec l (k # ks) (if st \<noteq> NORMAL then kept else k # kept) rest"
proof -
  have mem: "(k, st') \<in> set l \<longleftrightarrow> st' = st" for st'
    using assms(2,4) by (metis map_of_eq_Some_iff option.inject)
  show ?thesis
  proof (cases "st = NORMAL")
    case True
    then show ?thesis using assms(1,3) mem unfolding merge_spec_def set_delete by fastforce
  next
    case False
    then show ?thesis using assms(1,3) mem unfolding merge_spec_def set_delete by fastforce
  qed
qed

lemma merge_remote_spec:
  assumes "distinct (map fst l)" "distinct ks"
  shows "merge_spec l ks (fst (merge_remote l ks)) (snd (merge_remote l ks))"
  using assms
proof (induction l ks rule: merge_remote.induct)
  case (2 l k ks)
  show ?case
  proof (cases "map_of l k")
    case None
    then show ?thesis using merge_spec_absent [OF 2(1) [OF None]] 2(3,4)
      by (simp add: case_prod_beta)
  next
    case (Some st)
    then show ?thesis using merge_spec_present [OF 2(2) [OF Some] Some] 2(3,4)
      by (simp add: case_prod_beta)
  qed
qed (simp add: merge_spec_def)

lemma normal_keys_set: "set (normal_keys l) = {k. (k, NORMAL) \<in> set l}"
  by (force simp: normal_keys_def)

lemma normal_keys_distinct: "distinct (map fst l) \<Longrightarrow> distinct (normal_keys l)"
  by (simp add: normal_keys_def distinct_map_filter)

definition keys_ok :: "ext_storage option \<Rightarrow> state_storage list \<Rightarrow> string \<Rightarrow> condition option \<Rightarrow> bool" where
  "keys_ok b chain t c =
     (\<exists>ks. asyncGetPrimaryKeys b chain t c = Inr ks \<and> distinct ks \<and>
        set ks = {k. chain_view b chain (t, k) \<noteq> None \<and> cond_ok c k})"

lemma keys_ok_cons:
  assumes "keys_ok b prev t c" "hm_wf (m_data s)" "m_enableTraverse s"
  shows "keys_ok b (s # prev) t c"
proof -
  note wf = local_keys_wf [OF assms(2), of t c]
  note mem = local_keys_mem [OF assms(2,3), of _ _ t c]
  show ?thesis
  proof (cases "prev = [] \<and> b = None")
    case True
    have "set (normal_keys (local_keys s t c)) = {k. chain_view b (s # prev) (t, k) \<noteq> None \<and> cond_ok c k}"
      using True by (auto simp: normal_keys_set mem split: option.splits)
    then show ?thesis using True normal_keys_distinct [OF wf] by (simp add: keys_ok_def Let_def)
  next
    case False
    obtain ks where ks: "asyncGetPrimaryKeys b prev t c = Inr ks" "distinct ks"
      "set ks = {k. chain_view b prev (t, k) \<noteq> None \<and> cond_ok c k}"
      using assms(1) by (auto simp: keys_ok_def)
    obtain kept rest where m: "merge_remote (local_keys s t c) ks = (kept, rest)" by fastforce
    have sp: "merge_spec (local_keys s t c) ks kept rest"
      using merge_remote_spec [OF wf ks(2)] by (simp add: m)
    have in_ks: "x \<in> set ks \<longleftrightarrow> chain_view b prev (t, x) \<noteq> None \<and> cond_ok c x" for x
      using ks(3) by blast
    have "distinct (kept @ normal_keys rest)"
      using sp normal_keys_distinct [of rest] unfolding merge_spec_def by (auto simp: normal_keys_set)
    moreover have "set (kept @ normal_keys rest) = {k. chain_view b (s # prev) (t, k) \<noteq> None \<and> cond_ok c k}"
    proof (rule set_eqI)
      fix x
      have "x \<in> set (kept @ normal_keys rest) \<longleftrightarrow>
        x \<in> set ks \<and> (\<forall>st. (x, st) \<in> set (local_keys s t c) \<longrightarrow> st = NORMAL) \<or>
        (x, NORMAL) \<in> set (local_keys s t c) \<and> x \<notin> set ks"
        using sp unfolding merge_spec_def by (simp add: normal_keys_set)
      also have "\<dots> \<longleftrightarrow> x \<in> {k. chain_view b (s # prev) (t, k) \<noteq> None \<and> cond_ok c k}"
        unfolding in_ks mem by (cases "map_of (m_data s) (t, x)") auto
      finally show "x \<in> set (kept @ normal_keys rest) \<longleftrightarrow>
        x \<in> {k. chain_view b (s # prev) (t, k) \<noteq> None \<and> cond_ok c k}" .
    qed
    moreover have "asyncGetPrimaryKeys b (s # prev) t c = Inr (kept @ normal_keys rest)"
      using False ks(1) m by (auto simp: Let_def)
    ultimately show ?thesis unfolding keys_ok_def by blast
  qed
qed

lemma asyncGetPrimaryKeys_view:
  assumes "ext_keys_ok b" "\<forall>s \<in> set chain. hm_wf (m_data s) \<and> m_enableTraverse s"
  shows "keys_ok b chain t c"
  using assms(2)
proof (induction chain)
  case Nil
  show ?case using assms(1) by (cases b) (auto simp: keys_ok_def ext_keys_ok_def)
qed (simp add: keys_ok_cons)

section \<open>Capacity\<close>

definition total_size :: "(entry_key \<times> entry) list \<Rightarrow> int" where
  "total_size data = sum_list (map (m_size \<circ> snd) data)"

definition capacity_exact :: "state_storage \<Rightarrow> bool" where
  "capacity_exact s = (m_capacity s = word_of_int (total_size (m_data s)))"

lemma total_size_update:
  "map_of m k = Some old \<Longrightarrow> total_size (AList.update k e m) = total_size m - m_size old + m_size e"
  by (induction m) (auto simp: total_size_def)

lemma total_size_delete:
  "hm_wf m \<Longrightarrow> map_of m k = Some old \<Longrightarrow> total_size (AList.delete k m) = total_size m - m_size old"
  by (induction m) (auto simp: total_size_def)

lemma asyncSetRow_wf:
  "hm_wf (m_data s) \<Longrightarrow> hm_wf (m_data (snd (asyncSetRow tid s t k e)))"
  by (simp add: asyncSetRow_def Let_def split: option.split)

lemma asyncSetRow_capacity:
  assumes "hm_wf (m_data s)" "capacity_exact s" "m_status e = PURGED \<longrightarrow> m_size e = 0"
  shows "capacity_exact (snd (asyncSetRow tid s t k e))"
proof (cases "map_of (m_data s) (t, k)")
  case None
  then show ?thesis using assms
    by (simp add: asyncSetRow_def Let_def capacity_exact_def hm_emplace_def total_size_def)
next
  case (Some old)
  then show ?thesis using assms
    by (simp add: asyncSetRow_def Let_def capacity_exact_def total_size_update
        total_size_delete del: map_of_eq_Some_iff)
qed

section \<open>State hash\<close>

lemma hash_step_commute: "hash_step h (hash_step h x p) q = hash_step h (hash_step h x q) p"
  by (simp add: hash_step_def Let_def fb_xor_ac)

lemma foldl_hash_cons: "foldl (hash_step h) (hash_step h x p) xs = hash_step h (foldl (hash_step h) x xs) p"
  by (induction xs arbitrary: x) (simp_all, metis hash_step_commute)

lemma hash_mset: "mset xs = mset ys \<Longrightarrow> foldl (hash_step h) x xs = foldl (hash_step h) x ys"
proof (induction xs arbitrary: ys)
  case (Cons p xs)
  then have "p \<in> set ys" by (metis list.set_intros(1) set_mset_mset)
  then obtain us vs where ys: "ys = us @ p # vs" by (meson split_list)
  with Cons.prems have "mset xs = mset (us @ vs)" by simp
  then have "foldl (hash_step h) x xs = foldl (hash_step h) x (us @ vs)" by (rule Cons.IH)
  then show ?case by (simp add: ys foldl_hash_cons)
qed simp

definition racy :: "entry_key \<times> entry \<Rightarrow> bool" where
  "racy it = (m_dirty (snd it) \<and> m_status (snd it) = DELETED)"

text \<open>
  No update can be lost: either no entry is updated without the lock, or one thread at
  most has work left.
\<close>

definition race_free :: "hash_thread list \<Rightarrow> bool" where
  "race_free ths =
     ((\<forall>th \<in> set ths. \<forall>it \<in> set (ht_rest th). \<not> racy it) \<or>
      (\<exists>k. \<forall>j < length ths. j \<noteq> k \<longrightarrow> ht_rest (ths ! j) = []))"

definition loads_current :: "bytes \<Rightarrow> hash_thread list \<Rightarrow> bool" where
  "loads_current acc ths =
     (\<forall>th \<in> set ths. \<forall>it rest old. ht_rest th = it # rest \<longrightarrow> ht_loaded th = Some old \<longrightarrow> old = acc \<and> racy it)"

lemma loads_currentD:
  assumes "loads_current acc ths" "i < length ths" "ht_rest (ths ! i) = it # rest" "ht_loaded (ths ! i) = Some old"
  shows "old = acc \<and> racy it"
  using assms(1,3,4) nth_mem [OF assms(2)] unfolding loads_current_def by blast

lemma loads_currentI:
  assumes "\<And>i it rest old. i < length ths \<Longrightarrow> ht_rest (ths ! i) = it # rest \<Longrightarrow> ht_loaded (ths ! i) = Some old \<Longrightarrow> old = acc \<and> racy it"
  shows "loads_current acc ths"
  unfolding loads_current_def by (metis assms in_set_conv_nth)

definition hash_left :: "(string \<Rightarrow> bytes) \<Rightarrow> bytes \<Rightarrow> hash_thread list \<Rightarrow> bytes" where
  "hash_left h acc ths = foldl (hash_step h) acc (concat (map ht_rest ths))"

lemma thread_step_cases:
  assumes "hash_thread_step h acc th = (acc', th')"
    and "\<forall>it rest old. ht_rest th = it # rest \<longrightarrow> ht_loaded th = Some old \<longrightarrow> old = acc \<and> racy it"
  obtains (idle) "acc' = acc" "th' = th" "ht_rest th = []"
  | (load) it rest where "acc' = acc" "th' = th\<lparr>ht_loaded := Some acc\<rparr>" "ht_rest th = it # rest" "racy it"
  | (store) it rest where "ht_rest th = it # rest" "acc' = hash_step h acc it" "ht_rest th' = rest" "ht_loaded th' = None"
proof (cases "ht_rest th")
  case Nil
  then show ?thesis using assms(1) idle by (simp add: hash_thread_step_def)
next
  case (Cons it rest)
  note c = Cons
  show ?thesis
  proof (cases "ht_loaded th")
    case None
    then show ?thesis using assms(1) c load [OF _ _ c] store [OF c]
      by (auto simp: hash_thread_step_def hash_step_def racy_def Let_def split: if_splits)
  next
    case (Some old)
    then show ?thesis using assms(1) c assms(2) [rule_format, OF c Some] store [OF c]
      by (auto simp: hash_thread_step_def hash_step_def racy_def Let_def)
  qed
qed

lemma hash_left_update:
  assumes "i < length ths" "ht_rest (ths ! i) = it # ht_rest th"
  shows "hash_left h acc ths = hash_left h (hash_step h acc it) (ths[i := th])"
proof -
  let ?xs = "concat (map ht_rest (take i ths))" and ?ys = "concat (map ht_rest (drop (Suc i) ths))"
  have "concat (map ht_rest ths) = ?xs @ it # ht_rest th @ ?ys"
    by (subst id_take_nth_drop [OF assms(1)]) (simp add: assms(2))
  moreover have "concat (map ht_rest (ths[i := th])) = ?xs @ ht_rest th @ ?ys"
    by (simp add: upd_conv_take_nth_drop [OF assms(1)])
  ultimately show ?thesis by (simp add: hash_left_def) (metis foldl_hash_cons foldl_append)
qed

definition hash_inv :: "(string \<Rightarrow> bytes) \<Rightarrow> bytes \<Rightarrow> bytes \<times> hash_thread list \<Rightarrow> bool" where
  "hash_inv h target st = (race_free (snd st) \<and> loads_current (fst st) (snd st) \<and> hash_left h (fst st) (snd st) = target)"

lemma race_free_update:
  assumes "race_free ths" "i < length ths" "set (ht_rest th) \<subseteq> set (ht_rest (ths ! i))"
  shows "race_free (ths[i := th])"
  using assms(1) unfolding race_free_def
proof
  assume "\<forall>th \<in> set ths. \<forall>it \<in> set (ht_rest th). \<not> racy it"
  then have "\<forall>t \<in> set (ths[i := th]). \<forall>it \<in> set (ht_rest t). \<not> racy it"
    using assms(2,3) set_update_subset_insert [of ths i th] nth_mem [OF assms(2)] by blast
  then show "(\<forall>t \<in> set (ths[i := th]). \<forall>it \<in> set (ht_rest t). \<not> racy it) \<or>
      (\<exists>k. \<forall>j < length (ths[i := th]). j \<noteq> k \<longrightarrow> ht_rest (ths[i := th] ! j) = [])" ..
next
  assume "\<exists>k. \<forall>j < length ths. j \<noteq> k \<longrightarrow> ht_rest (ths ! j) = []"
  then obtain k where "\<forall>j < length ths. j \<noteq> k \<longrightarrow> ht_rest (ths ! j) = []" by blast
  then have "\<forall>j < length (ths[i := th]). j \<noteq> k \<longrightarrow> ht_rest (ths[i := th] ! j) = []"
    using assms(2,3) by (auto simp: nth_list_update)
  then show "(\<forall>t \<in> set (ths[i := th]). \<forall>it \<in> set (ht_rest t). \<not> racy it) \<or>
      (\<exists>k. \<forall>j < length (ths[i := th]). j \<noteq> k \<longrightarrow> ht_rest (ths[i := th] ! j) = [])" by blast
qed

lemma loads_current_store:
  assumes "race_free ths" "loads_current acc ths" "i < length ths" "ht_rest (ths ! i) \<noteq> []" "ht_loaded th = None"
  shows "loads_current acc' (ths[i := th])"
proof -
  have "ht_loaded (ths ! j) = None" if j: "j < length ths" "j \<noteq> i" "ht_rest (ths ! j) = it # rest" for j it rest
  proof (rule ccontr)
    assume "ht_loaded (ths ! j) \<noteq> None"
    then have "racy it" using loads_currentD [OF assms(2) j(1,3)] by blast
    then have "\<not> (\<forall>th \<in> set ths. \<forall>it \<in> set (ht_rest th). \<not> racy it)" using j by (metis list.set_intros(1) nth_mem)
    then show False using assms(1,3,4) j unfolding race_free_def by (metis list.distinct(1))
  qed
  then show ?thesis using assms(3,5) by (intro loads_currentI) (auto simp: nth_list_update split: if_splits)
qed

lemma hash_turn_inv:
  assumes "hash_inv h target st"
  shows "hash_inv h target (hash_turn h st i)"
proof -
  obtain acc ths where st: "st = (acc, ths)" by fastforce
  have inv: "race_free ths" "loads_current acc ths" "hash_left h acc ths = target"
    using assms st by (simp_all add: hash_inv_def)
  show ?thesis
  proof (cases "i < length ths")
    case True
    obtain acc' th where r: "hash_thread_step h acc (ths ! i) = (acc', th)" by fastforce
    then have t: "hash_turn h st i = (acc', ths[i := th])" using True st by (simp add: hash_turn_def)
    have cur: "\<forall>it rest old. ht_rest (ths ! i) = it # rest \<longrightarrow> ht_loaded (ths ! i) = Some old \<longrightarrow> old = acc \<and> racy it"
      using loads_currentD [OF inv(2) True] by blast
    from r cur show ?thesis
    proof (cases rule: thread_step_cases)
      case idle
      then show ?thesis using inv t by (simp add: hash_inv_def)
    next
      case (load it rest)
      have "map ht_rest (ths[i := th]) = map ht_rest ths" using load True by (simp add: map_update list_update_same_conv)
      moreover have "loads_current acc (ths[i := th])"
        using loads_currentD [OF inv(2)] load True by (intro loads_currentI) (auto simp: nth_list_update split: if_splits)
      ultimately show ?thesis using inv t load race_free_update [OF inv(1) True, of th]
        by (simp add: hash_inv_def hash_left_def)
    next
      case (store it rest)
      then show ?thesis
        using t race_free_update [OF inv(1) True, of th] loads_current_store [OF inv(1,2) True, of th]
          hash_left_update [OF True, of it th h acc] inv(3) by (simp add: hash_inv_def subset_insertI)
    qed
  qed (use assms st in \<open>simp add: hash_turn_def\<close>)
qed

lemma hash_turns_inv: "hash_inv h target st \<Longrightarrow> hash_inv h target (foldl (hash_turn h) st schedule)"
  by (induction schedule arbitrary: st) (simp_all add: hash_turn_inv)

text \<open>How many steps a thread has left at most.\<close>

definition todo :: "hash_thread \<Rightarrow> nat" where
  "todo th = 2 * length (ht_rest th) - (case ht_loaded th of None \<Rightarrow> 0 | Some old \<Rightarrow> 1)"

lemma todo_step: "todo (snd (hash_thread_step h acc th)) \<le> todo th - 1"
  by (auto simp: todo_def hash_thread_step_def Let_def split: list.splits option.splits)

lemma todo_zero: "todo th = 0 \<Longrightarrow> ht_rest th = []"
  by (cases "ht_rest th") (auto simp: todo_def split: option.splits)

lemma count_list_replicate: "count_list (replicate n x) y = (if x = y then n else 0)"
  by (induction n) auto

lemma todo_turns:
  "i < length (snd st) \<Longrightarrow> length (snd (foldl (hash_turn h) st schedule)) = length (snd st) \<and>
   todo (snd (foldl (hash_turn h) st schedule) ! i) \<le> todo (snd st ! i) - count_list schedule i"
proof (induction schedule arbitrary: st)
  case (Cons k schedule)
  have l: "length (snd (hash_turn h st k)) = length (snd st)"
    by (simp add: hash_turn_def split: prod.splits)
  have "todo (snd (hash_turn h st k) ! i) \<le> todo (snd st ! i) - (if k = i then 1 else 0)"
    using Cons.prems todo_step [of h "fst st" "snd st ! i"]
    by (auto simp: hash_turn_def nth_list_update split: prod.splits)
  then show ?case using Cons.IH [of "hash_turn h st k"] Cons.prems l by auto
qed simp

lemma hash_turns_done:
  assumes "\<forall>i < length (snd st). todo (snd st ! i) \<le> count_list schedule i"
  shows "list_all (\<lambda>th. ht_rest th = []) (snd (foldl (hash_turn h) st schedule))"
proof -
  have "ht_rest (snd (foldl (hash_turn h) st schedule) ! i) = []" if "i < length (snd st)" for i
    using todo_turns [OF that, of h schedule] assms that by (intro todo_zero) simp
  moreover have "length (snd (foldl (hash_turn h) st schedule)) = length (snd st)"
    using todo_turns [of 0 st h schedule]
    by (cases "snd st = []") (induction schedule arbitrary: st, auto simp: hash_turn_def split: prod.splits)
  ultimately show ?thesis by (simp add: list_all_length)
qed

lemma hash_turns_result:
  assumes "hash_inv h target st" "\<forall>i < length (snd st). todo (snd st ! i) \<le> count_list schedule i"
  shows "\<exists>ths. foldl (hash_turn h) st schedule = (target, ths) \<and> list_all (\<lambda>th. ht_rest th = []) ths"
proof -
  obtain acc ths where r: "foldl (hash_turn h) st schedule = (acc, ths)" by fastforce
  have d: "list_all (\<lambda>th. ht_rest th = []) ths" using hash_turns_done [OF assms(2), of h] r by simp
  then have "concat (map ht_rest ths) = []" by (simp add: list_all_iff)
  then have "hash_left h acc ths = acc" unfolding hash_left_def by (simp only: foldl.simps)
  then show ?thesis using hash_turns_inv [OF assms(1), of schedule] r d by (simp add: hash_inv_def)
qed

lemma hash_start:
  defines "start \<equiv> map (\<lambda>r. \<lparr>ht_rest = r, ht_loaded = None\<rparr>)"
  shows "concat (map ht_rest (start ranges)) = concat ranges" "loads_current acc (start ranges)"
    "i < length ranges \<Longrightarrow> todo (start ranges ! i) = 2 * length (ranges ! i)"
    "(\<forall>it \<in> set (concat ranges). \<not> racy it) \<or> length ranges \<le> 1 \<Longrightarrow> race_free (start ranges)"
proof -
  show "race_free (start ranges)" if "(\<forall>it \<in> set (concat ranges). \<not> racy it) \<or> length ranges \<le> 1"
    using that
  proof
    assume "length ranges \<le> 1"
    then have "\<forall>j < length (start ranges). j \<noteq> 0 \<longrightarrow> ht_rest (start ranges ! j) = []" by (simp add: start_def)
    then show ?thesis unfolding race_free_def by blast
  qed (auto simp: start_def race_free_def)
qed (auto simp: start_def comp_def loads_current_def todo_def)

section \<open>Properties\<close>

text \<open>
  C2: reading one row through a chain of any length returns exactly the value visible at
  that key (the newest layer that has the key decides, a deleted row is absent), and the
  imports it makes into the layers on the way leave what is visible at every key unchanged.
\<close>

theorem get_row_refines_view:
  assumes "ext_reads_ok b"
  shows "\<exists>r chain'. asyncGetRow b chain t k = (Inr r, chain') \<and>
    map_option content r = chain_view b chain (t, k) \<and>
    chain_view b chain' = chain_view b chain \<and> length chain' = length chain"
  using asyncGetRow_view [OF assms, of chain t k] unfolding get_ok_def by blast

definition row_a :: entry where
  "row_a = \<lparr>m_value = StdString ''a'', m_size = 1, m_status = NORMAL, m_dirty = True\<rparr>"

definition row_b :: entry where
  "row_b = \<lparr>m_value = StdString ''bc'', m_size = 2, m_status = NORMAL, m_dirty = True\<rparr>"

text \<open>A bottom storage with one row in table \<^verbatim>\<open>t\<close>.\<close>

definition sample_ext :: ext_storage where
  "sample_ext =
     \<lparr>ext_keys = (\<lambda>t c. Inr (if t = ''t'' \<and> cond_ok c ''k'' then [''k''] else [])),
      ext_row = (\<lambda>t k. Inr (if t = ''t'' \<and> k = ''k'' then Some row_a else None)),
      ext_rows = (\<lambda>t ks. Inr (map (\<lambda>k. if t = ''t'' \<and> k = ''k'' then Some row_a else None) ks))\<rparr>"

lemma sample_ext_ok:
  "ext_reads_ok (Some sample_ext)" "ext_batch_ok (Some sample_ext)" "ext_keys_ok (Some sample_ext)"
proof -
  show "ext_reads_ok (Some sample_ext)"
    by (simp add: ext_reads_ok_def sample_ext_def row_a_def)
  show "ext_batch_ok (Some sample_ext)"
    by (simp add: ext_batch_ok_def sample_ext_def)
  show "ext_keys_ok (Some sample_ext)"
    by (auto simp: ext_keys_ok_def sample_ext_def)
qed

theorem get_row_refines_view_witness:
  "ext_reads_ok (Some sample_ext) \<and>
   (\<exists>r chain'. asyncGetRow (Some sample_ext) [new_state_storage, new_state_storage] ''t'' ''k'' = (Inr r, chain') \<and>
      map_option content r = Some ''a'')"
proof -
  have "chain_view (Some sample_ext) [new_state_storage, new_state_storage] (''t'', ''k'') = Some ''a''"
    by (simp add: new_state_storage_def sample_ext_def row_a_def content_def)
  then show ?thesis
    using sample_ext_ok(1)
      get_row_refines_view [OF sample_ext_ok(1), of "[new_state_storage, new_state_storage]" "''t''" "''k''"]
    by auto
qed

text \<open>
  C3: writing a row into a layer that is not read-only changes what is visible at exactly
  that key: a normal row becomes visible, a deleted row hides everything below, a purged
  row uncovers the layers below.
\<close>

theorem set_row_refines_update:
  assumes "\<not> m_readOnly s" "asyncSetRow tid s t k e = (err, s')"
  shows "err = None \<and>
    chain_view b (s' # prev) = set_view (chain_view b prev) (chain_view b (s # prev)) (t, k) e"
  using asyncSetRow_data(1) [OF assms] asyncSetRow_view [OF assms] by blast

theorem set_row_refines_update_witness:
  "\<exists>err s'. asyncSetRow 0 new_state_storage ''t'' ''k'' row_a = (err, s') \<and> err = None \<and>
     chain_view None [s'] = set_view (chain_view None []) (chain_view None [new_state_storage]) (''t'', ''k'') row_a"
proof -
  obtain err s' where r: "asyncSetRow 0 new_state_storage ''t'' ''k'' row_a = (err, s')" by fastforce
  have "\<not> m_readOnly new_state_storage" by (simp add: new_state_storage_def)
  from set_row_refines_update [OF this r, of None "[]"] r show ?thesis by blast
qed

text \<open>
  C1: rolling back restores the state.  If a thread starts recording on a layer, performs
  any sequence of reads and writes through it, and then rolls back what was recorded, the
  rollback does not fail and every key is visible exactly as before the recording.
\<close>

theorem rollback_restores_view:
  assumes "ext_reads_ok b" "\<not> m_readOnly s"
    and "exec_ops tid b (setRecoder tid s (Some newRecoder) # prev) ops = s' # prev'"
    and "m_recoder s' tid = Some changes"
  shows "fst (rollback s' changes) = None \<and>
    chain_view b (snd (rollback s' changes) # prev') = chain_view b (s # prev)"
proof -
  have "recording tid b (chain_view b prev) (map_of (m_data s)) (setRecoder tid s (Some newRecoder) # prev)"
    using assms(2) by (simp add: recording_def setRecoder_def newRecoder_def restored_def)
  from recording_ops [OF assms(1) this, of ops] assms(3,4)
  have r: "\<not> m_readOnly s'" "chain_view b prev' = chain_view b prev"
    "undo_ok changes (map_of (m_data s'))"
    "restored (chain_view b prev) (map_of (m_data s)) (undo changes (map_of (m_data s')))"
    by (auto simp: recording_def)
  have "m_data (snd (rollback s' changes)) = snd (rollback_loop changes (m_data s'))"
    using r(1) by (simp add: rollback_def case_prod_beta)
  then have "chain_view b (snd (rollback s' changes) # prev') = chain_view b (s # prev)"
    using r(2,4) rollback_loop_undo(2) [OF r(3)] by (intro restored_view) simp_all
  then show ?thesis
    using r(1) rollback_loop_undo(1) [OF r(3)] by (simp add: rollback_def case_prod_beta)
qed

definition sample_run :: "state_storage list" where
  "sample_run =
     exec_ops 0 (Some sample_ext) [setRecoder 0 new_state_storage (Some newRecoder)]
       [OpGet ''t'' ''k'', OpSet ''t'' ''k'' row_b, OpSet ''t'' ''n'' row_b,
        OpSet ''t'' ''k'' (setStatus row_b PURGED), OpGet ''t'' ''k'']"

theorem rollback_restores_view_witness:
  "\<exists>s' changes. sample_run = [s'] \<and> m_recoder s' 0 = Some changes \<and>
     fst (rollback s' changes) = None \<and>
     chain_view (Some sample_ext) [snd (rollback s' changes)] = chain_view (Some sample_ext) [new_state_storage]"
proof -
  have "\<exists>s' changes. sample_run = [s'] \<and> m_recoder s' 0 = Some changes"
    by (simp add: sample_run_def exec_ops_def setRecoder_def newRecoder_def new_state_storage_def
        getRow_local_def getRow_callback_def importExistingEntry_def sample_ext_def asyncSetRow_def
        log_change_def hm_emplace_def row_a_def row_b_def setDirty_def setStatus_def Let_def)
  then obtain s' changes where run: "sample_run = [s']" "m_recoder s' 0 = Some changes" by blast
  have "\<not> m_readOnly new_state_storage" by (simp add: new_state_storage_def)
  from rollback_restores_view [OF sample_ext_ok(1) this run(1) [unfolded sample_run_def] run(2)] run
  show ?thesis by blast
qed

text \<open>
  A batch read answers one row per key, in the order of the keys and duplicates
  included, each the value visible at its key, and leaves what is visible unchanged.
\<close>

theorem get_rows_refines_view:
  assumes "ext_reads_ok b" "ext_batch_ok b"
  shows "\<exists>rs chain'. asyncGetRows b chain t ks = (Inr rs, chain') \<and>
    map (map_option content) rs = map (\<lambda>k. chain_view b chain (t, k)) ks \<and>
    chain_view b chain' = chain_view b chain"
proof -
  obtain rs chain' where r: "asyncGetRows b chain t ks = (Inr rs, chain')" "length rs = length ks"
    "\<And>p. p < length ks \<Longrightarrow> row_ok (chain_view b chain) (t, ks ! p) (rs ! p)"
    "chain_view b chain' = chain_view b chain"
    using asyncGetRows_view [OF assms, of chain t ks] unfolding rows_ok_def by blast
  have "map (map_option content) rs = map (\<lambda>k. chain_view b chain (t, k)) ks"
    using r(2,3) by (intro nth_equalityI) (simp_all add: row_ok_def)
  with r(1,4) show ?thesis by blast
qed

theorem get_rows_refines_view_witness:
  "\<exists>rs chain'. asyncGetRows (Some sample_ext) [new_state_storage] ''t'' [''k'', ''x'', ''k''] = (Inr rs, chain') \<and>
     map (map_option content) rs = [Some ''a'', None, Some ''a'']"
  using get_rows_refines_view [OF sample_ext_ok(1,2), of "[new_state_storage]" "''t''" "[''k'', ''x'', ''k'']"]
  by (auto simp: new_state_storage_def sample_ext_def row_a_def content_def)

text \<open>
  C11: when every layer of a chain allows traversal, listing the primary keys of a table
  returns each key that is visible and meets the condition, exactly once, and no other.
\<close>

theorem primary_keys_complete:
  assumes "ext_keys_ok b" "\<forall>s \<in> set chain. hm_wf (m_data s) \<and> m_enableTraverse s"
  shows "\<exists>ks. asyncGetPrimaryKeys b chain t c = Inr ks \<and> distinct ks \<and>
    set ks = {k. chain_view b chain (t, k) \<noteq> None \<and> cond_ok c k}"
  using asyncGetPrimaryKeys_view [OF assms] unfolding keys_ok_def .

theorem primary_keys_complete_witness:
  "\<exists>ks. asyncGetPrimaryKeys (Some sample_ext) [setEnableTraverse new_state_storage True] ''t'' None = Inr ks \<and>
     ''k'' \<in> set ks"
proof -
  let ?chain = "[setEnableTraverse new_state_storage True]"
  have "\<forall>s \<in> set ?chain. hm_wf (m_data s) \<and> m_enableTraverse s"
    by (simp add: setEnableTraverse_def new_state_storage_def)
  from primary_keys_complete [OF sample_ext_ok(3) this, of "''t''" None] show ?thesis
    by (auto simp: setEnableTraverse_def new_state_storage_def sample_ext_def cond_ok_def)
qed

text \<open>
  C14: the state hash does not depend on the iteration order of the hash map, on the way the
  parallel loop splits it into ranges, or on the interleaving of its threads, as long as no
  dirty row is a deleted one or the loop uses one range: under every schedule that gives
  each thread two turns per entry of its range, both branches compute the same value.
\<close>

theorem hash_order_independent:
  assumes "mset (concat ranges) = mset (m_data s)"
    and "(\<forall>it \<in> set (m_data s). \<not> (m_dirty (snd it) \<and> m_status (snd it) = DELETED)) \<or> length ranges \<le> 1"
    and "\<forall>i < length ranges. 2 * length (ranges ! i) \<le> count_list schedule i"
  shows "hash_parallel hashImpl ranges schedule = Some (hash_sequential hashImpl s)"
proof -
  let ?st = "(fb_zero 32, map (\<lambda>r. \<lparr>ht_rest = r, ht_loaded = None\<rparr>) ranges)"
  have "set (concat ranges) = set (m_data s)" using assms(1) by (metis set_mset_mset)
  then have "hash_inv hashImpl (hash_sequential hashImpl s) ?st"
    using assms(2) hash_start(2) hash_start(4) [of ranges] hash_mset [OF assms(1)]
    unfolding hash_inv_def hash_left_def snd_conv fst_conv hash_start(1) hash_sequential_def by (auto simp: racy_def)
  then show ?thesis
    using hash_turns_result [of hashImpl _ ?st schedule] hash_start(3) assms(3) by (fastforce simp: hash_parallel_def)
qed

theorem hash_order_independent_witness:
  "hash_parallel (\<lambda>v. fb_of_arith 32 (length v)) [[((''t'', ''b''), row_b)], [((''t'', ''a''), row_a)]] [1, 0, 0, 1] =
   Some (hash_sequential (\<lambda>v. fb_of_arith 32 (length v))
     (new_state_storage\<lparr>m_data := [((''t'', ''a''), row_a), ((''t'', ''b''), row_b)]\<rparr>))"
  by (rule hash_order_independent) (auto simp: row_a_def row_b_def less_Suc_eq)

lemma one_differs: "length x = 32 \<Longrightarrow> fb_xor x (fb_of_arith 32 1) \<noteq> x"
proof
  assume l: "length x = 32" and "fb_xor x (fb_of_arith 32 1) = x"
  then have "fb_xor x (fb_of_arith 32 1) ! 31 = x ! 31" by simp
  moreover have "length (fb_of_arith 32 1) = 32 \<and> fb_of_arith 32 1 ! 31 = 1" by code_simp
  ultimately have "x ! 31 XOR 1 = x ! 31" using l by (simp add: fb_xor_def)
  then have "(x ! 31 XOR x ! 31) XOR 1 = x ! 31 XOR x ! 31" by (metis xor.assoc)
  then show False by simp
qed

lemma hash_step_xor: "hash_step h (fb_xor x d) it = fb_xor (hash_step h x it) d"
  by (simp add: hash_step_def Let_def fb_xor_ac)

lemma foldl_hash_xor: "foldl (hash_step h) (fb_xor x d) zs = fb_xor (foldl (hash_step h) x zs) d"
  by (induction zs arbitrary: x) (simp_all add: hash_step_xor)

lemma foldl_hash_length:
  assumes "\<forall>v. length (h v) = 32"
  shows "length x = 32 \<Longrightarrow> length (foldl (hash_step h) x zs) = 32"
proof (induction zs arbitrary: x)
  case (Cons it zs)
  then show ?case using assms by (simp add: hash_step_def Let_def fb_xor_def fb_of_arith_def)
qed simp


definition row_gone :: entry where
  "row_gone = \<lparr>m_value = StdString [], m_size = 0, m_status = DELETED, m_dirty = True\<rparr>"


text \<open>
  As long as rows are only written (and rows written in purged status are empty), the
  recorded capacity is the sum of the sizes of the stored rows, modulo 2 to the 64.
\<close>

theorem capacity_tracks_sizes:
  assumes "hm_wf (m_data s)" "capacity_exact s" "m_status e = PURGED \<longrightarrow> m_size e = 0"
  shows "capacity_exact (snd (asyncSetRow tid s t k e)) \<and> hm_wf (m_data (snd (asyncSetRow tid s t k e)))"
  using asyncSetRow_capacity [OF assms] asyncSetRow_wf [OF assms(1)] by blast

theorem capacity_tracks_sizes_witness:
  "capacity_exact (snd (asyncSetRow 0 new_state_storage ''t'' ''k'' row_b))"
  using capacity_tracks_sizes [of new_state_storage row_b 0 "''t''" "''k''"]
  by (simp add: new_state_storage_def capacity_exact_def total_size_def row_b_def)

text \<open>
  A read-only layer never changes: writing reports the read-only error, rolling back
  does nothing, and a row found below is returned without being imported.
\<close>

theorem read_only_layer_fixed:
  assumes "m_readOnly s"
  shows "snd (asyncSetRow tid s t k e) = s \<and>
    map_option errorCode (fst (asyncSetRow tid s t k e)) = Some (storage_error_code ReadOnly) \<and>
    rollback s changes = (None, s) \<and> importExistingEntry s t k e = (e, s)"
  using assms by (simp add: asyncSetRow_def rollback_def importExistingEntry_def)

theorem read_only_layer_fixed_witness:
  "snd (asyncSetRow 0 (setReadOnly new_state_storage True) ''t'' ''k'' row_a) = setReadOnly new_state_storage True"
  using read_only_layer_fixed [of "setReadOnly new_state_storage True" 0 "''t''" "''k''" row_a "[]"]
  by (simp add: setReadOnly_def)

text \<open>
  The interleaving the two phases of a read allow.  If another thread deletes the row
  between the local lookup of a read and its callback, the read returns the deleted entry
  as a present row, although the row is not visible.
\<close>

theorem concurrent_delete_returns_deleted_row:
  "\<exists>s0 s1 r. getRow_local s0 ''t'' ''k'' = None \<and>
     s1 = snd (asyncSetRow 1 s0 ''t'' ''k'' (setStatus new_entry DELETED)) \<and>
     fst (getRow_callback s1 ''t'' ''k'' (ext_row sample_ext ''t'' ''k'')) = Inr (Some r) \<and>
     m_status r = DELETED \<and> chain_view (Some sample_ext) [s1] (''t'', ''k'') = None"
  by (rule exI [of _ new_state_storage])
    (simp add: getRow_local_def new_state_storage_def asyncSetRow_def getRow_callback_def
      importExistingEntry_def sample_ext_def row_a_def setStatus_def hm_emplace_def log_change_def Let_def)

lemma import_then_shrink_wraps_capacity:
  "m_capacity (snd (asyncSetRow 0
     (snd (importExistingEntry new_state_storage ''t'' ''k'' row_b)) ''t'' ''k'' row_a)) = - 1"
  by (simp add: new_state_storage_def importExistingEntry_def asyncSetRow_def hm_emplace_def
      log_change_def setDirty_def row_a_def row_b_def Let_def)

end
