(* ===== verification/Storage_Table.thy ===== *)
theory Storage_Table
  imports State_Storage_Props
begin

text \<open>
  Tables and helpers on top of a storage: \<^verbatim>\<open>libstorage/StorageInterface.cpp\<close>,
  \<^verbatim>\<open>libstorage/Table.cpp\<close>, \<^verbatim>\<open>libutilities/KVStorageHelper.h\<close> and
  \<^verbatim>\<open>libutilities/BatchStorageHelper.h\<close>.  The virtual operations of
  \<^verbatim>\<open>StorageInterface\<close> are a record of functions on the state of the storage.  The
  interface \<^verbatim>\<open>row_storage\<close> states what the clients rely on; the layered store
  satisfies it.  Splitting a string at commas is a library call and a parameter.
  Dereferencing an empty optional, or reading outside a buffer, is \<^term>\<open>None\<close>.
\<close>

record 's storage_ops =
  si_getPrimaryKeys :: "'s \<Rightarrow> string \<Rightarrow> condition option \<Rightarrow> string list result"
  si_getRow :: "'s \<Rightarrow> string \<Rightarrow> string \<Rightarrow> entry option result \<times> 's"
  si_getRows :: "'s \<Rightarrow> string \<Rightarrow> string list \<Rightarrow> entry option list result \<times> 's"
  si_setRow :: "'s \<Rightarrow> string \<Rightarrow> string \<Rightarrow> entry \<Rightarrow> error option \<times> 's"

text \<open>The layered store of one thread as a storage; a chain has at least one layer.\<close>

definition state_ops :: "ext_storage option \<Rightarrow> nat \<Rightarrow> state_storage list storage_ops" where
  "state_ops b tid =
     \<lparr>si_getPrimaryKeys = asyncGetPrimaryKeys b,
      si_getRow = asyncGetRow b,
      si_getRows = asyncGetRows b,
      si_setRow = (\<lambda>chain t k e.
        case chain of
          [] \<Rightarrow> (None, [])
        | s # prev \<Rightarrow> (case asyncSetRow tid s t k e of (err, s') \<Rightarrow> (err, s' # prev)))\<rparr>"

section \<open>Tables\<close>

record table =
  m_tableInfo :: table_info

definition table_getPrimaryKeys :: "'s storage_ops \<Rightarrow> 's \<Rightarrow> table \<Rightarrow> condition option \<Rightarrow> string list result" where
  "table_getPrimaryKeys ops s t c = si_getPrimaryKeys ops s (m_name (m_tableInfo t)) c"

definition table_getRow :: "'s storage_ops \<Rightarrow> 's \<Rightarrow> table \<Rightarrow> string \<Rightarrow> entry option result \<times> 's" where
  "table_getRow ops s t key = si_getRow ops s (m_name (m_tableInfo t)) key"

definition table_getRows :: "'s storage_ops \<Rightarrow> 's \<Rightarrow> table \<Rightarrow> string list \<Rightarrow> entry option list result \<times> 's" where
  "table_getRows ops s t keys = si_getRows ops s (m_name (m_tableInfo t)) keys"

definition table_setRow :: "'s storage_ops \<Rightarrow> 's \<Rightarrow> table \<Rightarrow> string \<Rightarrow> entry \<Rightarrow> error option \<times> 's" where
  "table_setRow ops s t key e = si_setRow ops s (m_name (m_tableInfo t)) key e"

definition newEntry :: "table \<Rightarrow> entry" where
  "newEntry t = new_entry"

definition newDeletedEntry :: "table \<Rightarrow> entry" where
  "newDeletedEntry t = setStatus (newEntry t) DELETED"

section \<open>Creating and opening tables\<close>

definition SYS_TABLES :: string where "SYS_TABLES = ''s_tables''"
definition SYS_TABLE_VALUE_FIELDS :: string where "SYS_TABLE_VALUE_FIELDS = ''value_fields,key_field''"

definition getSysTableInfo :: "string \<Rightarrow> table_info option" where
  "getSysTableInfo tableName =
     (if tableName = SYS_TABLES then Some (new_table_info SYS_TABLES [SYS_TABLE_VALUE_FIELDS]) else None)"

text \<open>
  \<^verbatim>\<open>asyncGetTableInfo\<close> opens the system table to look a name up, and opening a table
  asks for its description; the recursion stops at the system table, whose description is
  built in.
\<close>

function asyncOpenTable ::
    "(string \<Rightarrow> string list) \<Rightarrow> 's storage_ops \<Rightarrow> 's \<Rightarrow> string \<Rightarrow> (table option result \<times> 's) option"
  and asyncGetTableInfo ::
    "(string \<Rightarrow> string list) \<Rightarrow> 's storage_ops \<Rightarrow> 's \<Rightarrow> string \<Rightarrow> (table_info option result \<times> 's) option" where
  "asyncOpenTable split ops s tableName =
     (case asyncGetTableInfo split ops s tableName of
        None \<Rightarrow> None
      | Some (Inl err, s') \<Rightarrow> Some (Inl err, s')
      | Some (Inr None, s') \<Rightarrow> Some (Inr None, s')
      | Some (Inr (Some info), s') \<Rightarrow> Some (Inr (Some \<lparr>m_tableInfo = info\<rparr>), s'))"
| "asyncGetTableInfo split ops s tableName =
     (case getSysTableInfo tableName of
        Some info \<Rightarrow> Some (Inr (Some info), s)
      | None \<Rightarrow>
          (case asyncOpenTable split ops s SYS_TABLES of
             None \<Rightarrow> None
           | Some (Inl err, s') \<Rightarrow> Some (Inl err, s')
           | Some (Inr None, s') \<Rightarrow>
               Some (Inl (Error (storage_error_code SystemTableNotExists)
                      (''System table: '' @ SYS_TABLES @ '' not found!'') None), s')
           | Some (Inr (Some sysTable), s') \<Rightarrow>
               (case table_getRow ops s' sysTable tableName of
                  (Inl err, s'') \<Rightarrow> Some (Inl err, s'')
                | (Inr None, s'') \<Rightarrow> Some (Inr None, s'')
                | (Inr (Some e), s'') \<Rightarrow>
                    (case getField e 0 of
                       Inr (Some v) \<Rightarrow> Some (Inr (Some (new_table_info tableName (split v))), s'')
                     | _ \<Rightarrow> None))))"
  by pat_completeness auto
termination
  by (relation "measure (\<lambda>x. case x of
        Inl (split, ops, s, t) \<Rightarrow> if t = SYS_TABLES then 1 else 3
      | Inr (split, ops, s, t) \<Rightarrow> if t = SYS_TABLES then 0 else 2)")
    (auto simp: getSysTableInfo_def split: if_splits)

declare asyncOpenTable.simps [simp del] asyncGetTableInfo.simps [simp del]

definition asyncCreateTable ::
    "(string \<Rightarrow> string list) \<Rightarrow> 's storage_ops \<Rightarrow> 's \<Rightarrow> string \<Rightarrow> string \<Rightarrow> (table option result \<times> 's) option" where
  "asyncCreateTable split ops s tableName valueFields =
     (case asyncOpenTable split ops s SYS_TABLES of
        None \<Rightarrow> None
      | Some (Inl err, s') \<Rightarrow> Some (Inl (Error (-1) ''Open sys_tables failed!'' (Some err)), s')
      | Some (Inr None, s') \<Rightarrow> None
      | Some (Inr (Some sysTable), s') \<Rightarrow>
          (case table_getRow ops s' sysTable tableName of
             (Inl err, s'') \<Rightarrow>
               Some (Inl (Error (storage_error_code ReadError) ''Get table info row failed!'' (Some err)), s'')
           | (Inr (Some e), s'') \<Rightarrow>
               Some (Inl (Error (storage_error_code TableExists)
                      (''Table: '' @ tableName @ '' already exists'') None), s'')
           | (Inr None, s'') \<Rightarrow>
               (case setField (newEntry sysTable) 0 (InString valueFields) of
                  Inr (Some tableEntry) \<Rightarrow>
                    (case table_setRow ops s'' sysTable tableName tableEntry of
                       (Some err, s3) \<Rightarrow>
                         Some (Inl (Error (-1) ''Put table info into sys_tables failed!'' (Some err)), s3)
                     | (None, s3) \<Rightarrow>
                         Some (Inr (Some \<lparr>m_tableInfo = new_table_info tableName (split valueFields)\<rparr>), s3))
                | _ \<Rightarrow> None)))"

section \<open>Key/value helper\<close>

definition kv_asyncGet :: "'s storage_ops \<Rightarrow> 's \<Rightarrow> string \<Rightarrow> string \<Rightarrow> (string result \<times> 's) option" where
  "kv_asyncGet ops s columnFamily key =
     (case si_getRow ops s columnFamily key of
        (Inl err, s') \<Rightarrow> Some (Inl err, s')
      | (Inr None, s') \<Rightarrow> Some (Inr [], s')
      | (Inr (Some e), s') \<Rightarrow>
          (case getField e 0 of Inr (Some v) \<Rightarrow> Some (Inr v, s') | _ \<Rightarrow> None))"

fun batch_values :: "entry option list \<Rightarrow> string list option" where
  "batch_values [] = Some []"
| "batch_values (r # rs) =
     (case batch_values rs of
        None \<Rightarrow> None
      | Some vs \<Rightarrow>
          (case r of
             None \<Rightarrow> Some ([] # vs)
           | Some e \<Rightarrow> (case getField e 0 of Inr (Some v) \<Rightarrow> Some (v # vs) | _ \<Rightarrow> None)))"

definition kv_asyncGetBatch ::
    "'s storage_ops \<Rightarrow> 's \<Rightarrow> string \<Rightarrow> string list \<Rightarrow> (string list result \<times> 's) option" where
  "kv_asyncGetBatch ops s columnFamily keys =
     (case si_getRows ops s columnFamily keys of
        (Inl err, s') \<Rightarrow> Some (Inl err, s')
      | (Inr entries, s') \<Rightarrow> map_option (\<lambda>vs. (Inr vs, s')) (batch_values entries))"

definition kv_asyncPut :: "'s storage_ops \<Rightarrow> 's \<Rightarrow> string \<Rightarrow> string \<Rightarrow> input \<Rightarrow> (error option \<times> 's) option" where
  "kv_asyncPut ops s columnFamily key v =
     (case importFields new_entry [v] of
        Inr (Some e) \<Rightarrow> Some (si_setRow ops s columnFamily key e)
      | _ \<Rightarrow> None)"

definition kv_asyncRemove :: "'s storage_ops \<Rightarrow> 's \<Rightarrow> string \<Rightarrow> string \<Rightarrow> error option \<times> 's" where
  "kv_asyncRemove ops s columnFamily key = si_setRow ops s columnFamily key (setStatus new_entry DELETED)"

section \<open>Batch writes\<close>

record result_collection =
  rc_success :: nat
  rc_failed :: nat
  rc_results :: "bool list"

definition new_collection :: "nat \<Rightarrow> result_collection" where
  "new_collection n = \<lparr>rc_success = 0, rc_failed = 0, rc_results = replicate n False\<rparr>"

text \<open>
  The callback of one row: the new collection, and the argument of the user's callback if
  this reply completes the batch.
\<close>

definition batch_reply ::
    "result_collection \<Rightarrow> nat \<Rightarrow> error option \<Rightarrow> result_collection \<times> bool list option" where
  "batch_reply c index err =
     (let c' = (case err of
                  Some _ \<Rightarrow> c\<lparr>rc_results := (rc_results c)[index := False], rc_failed := rc_failed c + 1\<rparr>
                | None \<Rightarrow> c\<lparr>rc_results := (rc_results c)[index := True], rc_success := rc_success c + 1\<rparr>) in
      (c', if rc_success c' + rc_failed c' = length (rc_results c') then Some (rc_results c') else None))"

text \<open>A sequence of replies, in the order in which the storage answers, and the calls made.\<close>

fun batch_replies :: "result_collection \<Rightarrow> (nat \<times> error option) list \<Rightarrow> bool list list" where
  "batch_replies c [] = []"
| "batch_replies c ((i, err) # rs) =
     (case batch_reply c i err of
        (c', None) \<Rightarrow> batch_replies c' rs
      | (c', Some results) \<Rightarrow> results # batch_replies c' rs)"

text \<open>The loop over the rows with a storage that answers before it returns.\<close>

fun batch_set_loop ::
    "'s storage_ops \<Rightarrow> 's \<Rightarrow> string \<Rightarrow> nat \<Rightarrow> (string \<times> entry) list \<Rightarrow> (nat \<times> error option) list \<times> 's" where
  "batch_set_loop ops s table index [] = ([], s)"
| "batch_set_loop ops s table index ((key, e) # es) =
     (case si_setRow ops s table key e of
        (err, s') \<Rightarrow>
          (case batch_set_loop ops s' table (index + 1) es of (rs, s'') \<Rightarrow> ((index, err) # rs, s'')))"

definition asyncBatchSetRows ::
    "'s storage_ops \<Rightarrow> 's \<Rightarrow> string \<Rightarrow> (string \<times> entry) list \<Rightarrow> bool list list \<times> 's" where
  "asyncBatchSetRows ops s table entries =
     (case batch_set_loop ops s table 0 entries of
        (rs, s') \<Rightarrow> (batch_replies (new_collection (length entries)) rs, s'))"

end
