(* ===== verification/Storage_Table_Props.thy ===== *)
theory Storage_Table_Props
  imports Storage_Table
begin

text \<open>
  Correctness of tables and helpers over any storage that satisfies the interface
  \<^verbatim>\<open>row_storage\<close>, and the layered store as an instance of the interface.
\<close>

section \<open>The interface\<close>

fun write_all :: "string \<Rightarrow> (string \<times> entry) list \<Rightarrow> (entry_key \<Rightarrow> string option) \<Rightarrow> entry_key \<Rightarrow> string option" where
  "write_all t [] v = v"
| "write_all t ((k, e) # es) v = write_all t es (v((t, k) \<mapsto> content e))"

text \<open>A row answers a visible value: same bytes, well formed and in normal status.\<close>

definition row_gives :: "string option \<Rightarrow> entry option \<Rightarrow> bool" where
  "row_gives v r = (v = map_option content r \<and> (\<forall>e. r = Some e \<longrightarrow> entry_wf e \<and> m_status e = NORMAL))"

locale row_storage =
  fixes ops :: "'s storage_ops"
    and inv :: "'s \<Rightarrow> bool"
    and view :: "'s \<Rightarrow> entry_key \<Rightarrow> string option"
  assumes get_row: "inv s \<Longrightarrow>
      \<exists>r s'. si_getRow ops s t k = (Inr r, s') \<and> row_gives (view s (t, k)) r \<and> view s' = view s \<and> inv s'"
    and get_rows: "inv s \<Longrightarrow>
      \<exists>rs s'. si_getRows ops s t ks = (Inr rs, s') \<and> list_all2 (\<lambda>k. row_gives (view s (t, k))) ks rs \<and>
        view s' = view s \<and> inv s'"
    and set_row: "inv s \<Longrightarrow> entry_wf e \<Longrightarrow> m_status e \<noteq> PURGED \<Longrightarrow>
      \<exists>s'. si_setRow ops s t k e = (None, s') \<and> inv s' \<and>
        view s' = (view s)((t, k) := if m_status e = NORMAL then Some (content e) else None)"
begin

lemma open_sys:
  "asyncOpenTable split ops s SYS_TABLES =
     Some (Inr (Some \<lparr>m_tableInfo = new_table_info SYS_TABLES [SYS_TABLE_VALUE_FIELDS]\<rparr>), s)"
  by (simp add: asyncOpenTable.simps asyncGetTableInfo.simps getSysTableInfo_def)

lemma sys_get_row:
  "table_getRow ops s \<lparr>m_tableInfo = new_table_info SYS_TABLES fs\<rparr> k = si_getRow ops s SYS_TABLES k"
  by (simp add: table_getRow_def new_table_info_def)

lemma sys_set_row:
  "table_setRow ops s \<lparr>m_tableInfo = new_table_info SYS_TABLES fs\<rparr> k e = si_setRow ops s SYS_TABLES k e"
  by (simp add: table_setRow_def new_table_info_def)

lemma open_table:
  assumes "inv s" "name \<noteq> SYS_TABLES"
  shows "\<exists>s'. asyncOpenTable split ops s name =
      Some (Inr (map_option (\<lambda>v. \<lparr>m_tableInfo = new_table_info name (split v)\<rparr>) (view s (SYS_TABLES, name))), s') \<and>
    inv s' \<and> view s' = view s"
proof -
  obtain r s' where r: "si_getRow ops s SYS_TABLES name = (Inr r, s')"
    "row_gives (view s (SYS_TABLES, name)) r" "view s' = view s" "inv s'"
    using get_row [OF assms(1)] by blast
  show ?thesis
  proof (cases r)
    case None
    then show ?thesis using r assms(2)
      by (simp add: asyncOpenTable.simps [of _ _ _ name] asyncGetTableInfo.simps open_sys getSysTableInfo_def
          sys_get_row row_gives_def)
  next
    case (Some e)
    then have "view s (SYS_TABLES, name) = Some (content e)" "entry_wf e"
      using r(2) by (auto simp: row_gives_def)
    then show ?thesis using r Some assms(2)
      by (simp add: asyncOpenTable.simps [of _ _ _ name] asyncGetTableInfo.simps open_sys getSysTableInfo_def
          sys_get_row getField_def)
  qed
qed

lemma create_table:
  assumes "inv s" "view s (SYS_TABLES, name) = None" "length vf < 2147483648"
  shows "\<exists>s'. asyncCreateTable split ops s name vf =
      Some (Inr (Some \<lparr>m_tableInfo = new_table_info name (split vf)\<rparr>), s') \<and>
    inv s' \<and> view s' = (view s)((SYS_TABLES, name) \<mapsto> vf)"
proof -
  obtain s1 where s1: "si_getRow ops s SYS_TABLES name = (Inr None, s1)" "view s1 = view s" "inv s1"
    using get_row [OF assms(1), of SYS_TABLES name] assms(2) by (auto simp: row_gives_def)
  obtain e where e: "set_input new_entry (InString vf) = Some e" "entry_wf e" "content e = vf" "m_status e = NORMAL"
    using set_input_wf [OF entry_wf_new, of "InString vf"] assms(3) by (auto simp: new_entry_def)
  obtain s2 where s2: "si_setRow ops s1 SYS_TABLES name e = (None, s2)" "inv s2"
    "view s2 = (view s)((SYS_TABLES, name) \<mapsto> vf)"
    using set_row [OF s1(3) e(2), of SYS_TABLES name] e s1(2) by auto
  show ?thesis using s1 s2 e
    by (simp add: asyncCreateTable_def open_sys sys_get_row sys_set_row setField_def newEntry_def)
qed

lemma create_table_exists:
  assumes "inv s" "view s (SYS_TABLES, name) = Some v"
  shows "\<exists>s'. asyncCreateTable split ops s name vf =
      Some (Inl (Error (storage_error_code TableExists) (''Table: '' @ name @ '' already exists'') None), s') \<and>
    inv s' \<and> view s' = view s"
proof -
  obtain r s1 where r: "si_getRow ops s SYS_TABLES name = (Inr r, s1)"
    "row_gives (view s (SYS_TABLES, name)) r" "view s1 = view s" "inv s1"
    using get_row [OF assms(1), of SYS_TABLES name] by blast
  moreover obtain e where "r = Some e" using r(2) assms(2) by (cases r) (auto simp: row_gives_def)
  ultimately show ?thesis by (simp add: asyncCreateTable_def open_sys sys_get_row)
qed

lemma kv_get:
  assumes "inv s"
  shows "\<exists>s'. kv_asyncGet ops s t k = Some (Inr (case view s (t, k) of None \<Rightarrow> [] | Some v \<Rightarrow> v), s') \<and>
    inv s' \<and> view s' = view s"
proof -
  obtain r s' where r: "si_getRow ops s t k = (Inr r, s')" "row_gives (view s (t, k)) r" "view s' = view s" "inv s'"
    using get_row [OF assms] by blast
  then show ?thesis by (cases r) (auto simp: kv_asyncGet_def row_gives_def getField_def split: option.splits)
qed

lemma batch_values_gives:
  "list_all2 (\<lambda>k. row_gives (v k)) ks rs \<Longrightarrow>
   batch_values rs = Some (map (\<lambda>k. case v k of None \<Rightarrow> [] | Some x \<Rightarrow> x) ks)"
  by (induction rule: list_all2_induct) (auto simp: row_gives_def getField_def split: option.splits)

lemma kv_get_batch:
  assumes "inv s"
  shows "\<exists>s'. kv_asyncGetBatch ops s t ks =
      Some (Inr (map (\<lambda>k. case view s (t, k) of None \<Rightarrow> [] | Some v \<Rightarrow> v) ks), s') \<and> inv s' \<and> view s' = view s"
proof -
  obtain rs s' where "si_getRows ops s t ks = (Inr rs, s')" "list_all2 (\<lambda>k. row_gives (view s (t, k))) ks rs"
    "view s' = view s" "inv s'"
    using get_rows [OF assms] by blast
  then show ?thesis
    using batch_values_gives [of "\<lambda>k. view s (t, k)" ks rs] by (simp add: kv_asyncGetBatch_def)
qed

lemma kv_put:
  assumes "inv s" "length (input_view v) < 2147483648"
  shows "\<exists>s'. kv_asyncPut ops s t k v = Some (None, s') \<and> inv s' \<and> view s' = (view s)((t, k) \<mapsto> input_view v)"
proof -
  obtain e where e: "set_input new_entry v = Some e" "entry_wf e" "content e = input_view v" "m_status e = NORMAL"
    using set_input_wf [OF entry_wf_new assms(2)] by (auto simp: new_entry_def)
  then show ?thesis using set_row [OF assms(1) e(2), of t k]
    by (auto simp: kv_asyncPut_def importFields_def setField_def)
qed

lemma kv_remove:
  assumes "inv s"
  shows "\<exists>s'. kv_asyncRemove ops s t k = (None, s') \<and> inv s' \<and> view s' = (view s)((t, k) := None)"
proof -
  have "entry_wf (setStatus new_entry DELETED)"
    by (simp add: entry_wf_def setStatus_def new_entry_def empty_sbo_def)
  from set_row [OF assms this, of t k] show ?thesis by (auto simp: kv_asyncRemove_def setStatus_def)
qed

end

section \<open>The layered store satisfies the interface\<close>

definition data_wf :: "state_storage \<Rightarrow> bool" where
  "data_wf s = (\<forall>k e. map_of (m_data s) k = Some e \<longrightarrow> entry_wf e)"

definition ext_wf :: "ext_storage option \<Rightarrow> bool" where
  "ext_wf b =
     (case b of None \<Rightarrow> True
      | Some ext \<Rightarrow> (\<forall>t k e. ext_row ext t k = Inr (Some e) \<longrightarrow> entry_wf e))"

definition below_ok :: "ext_storage option \<Rightarrow> bool" where
  "below_ok b = (ext_reads_ok b \<and> ext_batch_ok b \<and> ext_wf b)"

definition chain_inv :: "state_storage list \<Rightarrow> bool" where
  "chain_inv chain = (chain \<noteq> [] \<and> \<not> m_readOnly (hd chain) \<and> (\<forall>s \<in> set chain. data_wf s))"

lemma import_wf:
  assumes "entry_wf e" "data_wf s" "importExistingEntry s t k e = (e', s')"
  shows "entry_wf e' \<and> data_wf s' \<and> m_readOnly s' = m_readOnly s"
  using assms by (auto simp: importExistingEntry_def data_wf_def Let_def setDirty_def entry_wf_def
      split: if_splits option.splits)

lemma getRow_callback_wf:
  assumes "\<forall>e. answer = Inr (Some e) \<longrightarrow> entry_wf e" "data_wf s" "getRow_callback s t k answer = (r, s')"
  shows "(\<forall>e. r = Inr (Some e) \<longrightarrow> entry_wf e) \<and> data_wf s' \<and> m_readOnly s' = m_readOnly s"
proof (cases "\<exists>e. answer = Inr (Some e)")
  case True
  then obtain e e' where e: "answer = Inr (Some e)" "importExistingEntry s t k e = (e', s')" "r = Inr (Some e')"
    using assms(3) by (auto simp: getRow_callback_def split: prod.splits)
  show ?thesis using import_wf [OF _ assms(2) e(2)] assms(1) e(1,3) by simp
next
  case False
  then show ?thesis using assms(2,3) by (auto simp: getRow_callback_def split: sum.splits option.splits)
qed

lemma asyncGetRow_wf:
  assumes "ext_wf b"
  shows "\<forall>s \<in> set chain. data_wf s \<Longrightarrow> asyncGetRow b chain t k = (r, chain') \<Longrightarrow>
    (\<forall>e. r = Inr (Some e) \<longrightarrow> entry_wf e) \<and> (\<forall>s \<in> set chain'. data_wf s) \<and>
    map m_readOnly chain' = map m_readOnly chain"
proof (induction chain arbitrary: r chain')
  case Nil
  then show ?case using assms by (auto simp: ext_wf_def split: option.splits)
next
  case (Cons s prev)
  show ?case
  proof (cases "getRow_local s t k")
    case (Some answer)
    then show ?thesis using Cons.prems
      by (auto simp: getRow_local_def data_wf_def split: option.splits if_splits)
  next
    case None
    obtain answer prev' r' s' where d: "asyncGetRow b prev t k = (answer, prev')"
      "getRow_callback s t k answer = (r', s')" by (metis surj_pair)
    then have "r = r'" "chain' = s' # prev'" using Cons.prems(2) None by simp_all
    moreover have ih: "(\<forall>e. answer = Inr (Some e) \<longrightarrow> entry_wf e) \<and> (\<forall>s \<in> set prev'. data_wf s) \<and>
      map m_readOnly prev' = map m_readOnly prev"
      using Cons.prems(1) by (intro Cons.IH [OF _ d(1)]) simp
    moreover have "(\<forall>e. r' = Inr (Some e) \<longrightarrow> entry_wf e) \<and> data_wf s' \<and> m_readOnly s' = m_readOnly s"
      using ih Cons.prems(1) by (intro getRow_callback_wf [OF _ _ d(2)]) simp_all
    ultimately show ?thesis by auto
  qed
qed

lemma getRows_scan_wf:
  "data_wf s \<Longrightarrow> \<forall>e. Some e \<in> set (fst (getRows_scan s t i ks)) \<longrightarrow> entry_wf e"
  by (auto simp: getRows_scan_eq local_row_def data_wf_def split: option.splits if_splits)

lemma getRows_import_wf:
  assumes "data_wf s" "\<forall>e. Some e \<in> snd ` set items \<longrightarrow> entry_wf e" "\<forall>e. Some e \<in> set results \<longrightarrow> entry_wf e"
    and "getRows_import s t items results = (results', s')"
  shows "data_wf s' \<and> m_readOnly s' = m_readOnly s \<and> (\<forall>e. Some e \<in> set results' \<longrightarrow> entry_wf e)"
  using assms
proof (induction s t items results arbitrary: results' s' rule: getRows_import.induct)
  case (3 s t k i e rest results)
  obtain e' s1 where imp: "importExistingEntry s t k e = (e', s1)" by (metis surj_pair)
  have wf: "entry_wf e' \<and> data_wf s1 \<and> m_readOnly s1 = m_readOnly s"
    using import_wf [OF _ 3(2) imp] 3(3) by force
  have "\<forall>x. Some x \<in> set (results[i := Some e']) \<longrightarrow> entry_wf x"
    using 3(4) wf set_update_subset_insert [of results i "Some e'"] by blast
  moreover have "\<forall>x. Some x \<in> snd ` set rest \<longrightarrow> entry_wf x" using 3(3) by simp
  ultimately show ?case using 3(1) [OF imp [symmetric] refl] 3(5) wf imp by simp
qed auto

lemma asyncGetRows_wf:
  assumes "ext_batch_ok b" "ext_wf b"
  shows "\<forall>s \<in> set chain. data_wf s \<Longrightarrow> asyncGetRows b chain t ks = (Inr rs, chain') \<Longrightarrow>
    (\<forall>e. Some e \<in> set rs \<longrightarrow> entry_wf e) \<and> (\<forall>s \<in> set chain'. data_wf s) \<and>
    map m_readOnly chain' = map m_readOnly chain"
proof (induction chain arbitrary: ks rs chain')
  case Nil
  then show ?case using assms
    by (auto simp: ext_wf_def ext_batch_ok_def split: option.splits sum.splits)
next
  case (Cons s prev)
  obtain results missing where scan: "getRows_scan s t 0 ks = (results, missing)" by fastforce
  have res: "\<forall>e. Some e \<in> set results \<longrightarrow> entry_wf e"
    using getRows_scan_wf [of s t 0 ks] Cons.prems(1) scan by simp
  show ?case
  proof (cases "missing \<noteq> [] \<and> (prev \<noteq> [] \<or> b \<noteq> None)")
    case False
    then show ?thesis using Cons.prems scan res by auto
  next
    case True
    then obtain entries prev' s' where d: "asyncGetRows b prev t (map fst missing) = (Inr entries, prev')"
      "getRows_import s t (zip missing entries) results = (rs, s')" "chain' = s' # prev'"
      using Cons.prems(2) scan by (auto split: prod.splits sum.splits)
    have "\<forall>e. Some e \<in> set entries \<longrightarrow> entry_wf e" "\<forall>s \<in> set prev'. data_wf s"
      "map m_readOnly prev' = map m_readOnly prev"
      using Cons.IH [OF _ d(1)] Cons.prems(1) by auto
    moreover from this(1) have "\<forall>e. Some e \<in> snd ` set (zip missing entries) \<longrightarrow> entry_wf e"
      by (auto dest: set_zip_rightD)
    ultimately show ?thesis using getRows_import_wf [OF _ _ res d(2)] d(3) Cons.prems(1) by simp
  qed
qed

lemma asyncSetRow_data_wf:
  assumes "data_wf s" "entry_wf e" "\<not> m_readOnly s" "asyncSetRow tid s t k e = (err, s')"
  shows "data_wf s'"
  using assms(1,2) asyncSetRow_data(2) [OF assms(3,4)] by (auto simp: data_wf_def split: if_splits)

lemma chain_inv_keep:
  assumes "chain_inv chain" "\<forall>s \<in> set chain'. data_wf s" "map m_readOnly chain' = map m_readOnly chain"
  shows "chain_inv chain'"
  using assms by (cases chain; cases chain') (auto simp: chain_inv_def)

lemma state_get_row:
  assumes "below_ok b" "chain_inv chain"
  shows "\<exists>r chain'. asyncGetRow b chain t k = (Inr r, chain') \<and> row_gives (chain_view b chain (t, k)) r \<and>
    chain_view b chain' = chain_view b chain \<and> chain_inv chain'"
proof -
  obtain r chain' where r: "asyncGetRow b chain t k = (Inr r, chain')"
    "map_option content r = chain_view b chain (t, k)" "\<forall>e. r = Some e \<longrightarrow> m_status e = NORMAL"
    "chain_view b chain' = chain_view b chain"
    using asyncGetRow_view [of b chain t k] assms(1) unfolding get_ok_def below_ok_def by blast
  moreover have "(\<forall>e. r = Some e \<longrightarrow> entry_wf e) \<and> chain_inv chain'"
    using asyncGetRow_wf [OF _ _ r(1)] assms chain_inv_keep [OF assms(2)]
    by (auto simp: below_ok_def chain_inv_def)
  ultimately show ?thesis by (auto simp: row_gives_def)
qed

lemma state_get_rows:
  assumes "below_ok b" "chain_inv chain"
  shows "\<exists>rs chain'. asyncGetRows b chain t ks = (Inr rs, chain') \<and>
    list_all2 (\<lambda>k. row_gives (chain_view b chain (t, k))) ks rs \<and>
    chain_view b chain' = chain_view b chain \<and> chain_inv chain'"
proof -
  obtain rs chain' where r: "asyncGetRows b chain t ks = (Inr rs, chain')" "length rs = length ks"
    "\<forall>p < length ks. row_ok (chain_view b chain) (t, ks ! p) (rs ! p)"
    "chain_view b chain' = chain_view b chain"
    using asyncGetRows_view [of b chain t ks] assms(1) unfolding rows_ok_def below_ok_def by blast
  have wf: "(\<forall>e. Some e \<in> set rs \<longrightarrow> entry_wf e) \<and> chain_inv chain'"
    using asyncGetRows_wf [OF _ _ _ r(1)] assms chain_inv_keep [OF assms(2)]
    by (auto simp: below_ok_def chain_inv_def)
  have "row_gives (chain_view b chain (t, ks ! p)) (rs ! p)" if "p < length ks" for p
  proof -
    have "row_ok (chain_view b chain) (t, ks ! p) (rs ! p)" using r(3) that by blast
    moreover have "entry_wf e" if "rs ! p = Some e" for e
      using wf nth_mem [of p rs] that \<open>p < length ks\<close> r(2) by metis
    ultimately show ?thesis by (auto simp: row_ok_def row_gives_def)
  qed
  then show ?thesis using r wf by (auto simp: list_all2_conv_all_nth)
qed

lemma state_set_row:
  assumes "chain_inv chain" "entry_wf e" "m_status e \<noteq> PURGED"
  shows "\<exists>chain'. si_setRow (state_ops b tid) chain t k e = (None, chain') \<and> chain_inv chain' \<and>
    chain_view b chain' = (chain_view b chain)((t, k) := if m_status e = NORMAL then Some (content e) else None)"
proof -
  obtain s prev where c: "chain = s # prev" "\<not> m_readOnly s" "data_wf s" "\<forall>s \<in> set prev. data_wf s"
    using assms(1) by (cases chain) (auto simp: chain_inv_def)
  obtain err s' where set: "asyncSetRow tid s t k e = (err, s')" by fastforce
  note d = asyncSetRow_data [OF c(2) set] asyncSetRow_view [OF c(2) set, of b prev]
    asyncSetRow_data_wf [OF c(3) assms(2) c(2) set]
  have "set_view (chain_view b prev) (chain_view b chain) (t, k) e =
    (chain_view b chain)((t, k) := if m_status e = NORMAL then Some (content e) else None)"
    using assms(3) by (cases "m_status e") (simp_all add: set_view_def)
  then show ?thesis using d c set by (simp add: state_ops_def chain_inv_def)
qed

interpretation layered: row_storage "state_ops b tid" "\<lambda>chain. below_ok b \<and> chain_inv chain" "chain_view b"
proof
  fix chain t k
  assume "below_ok b \<and> chain_inv chain"
  then show "\<exists>r chain'. si_getRow (state_ops b tid) chain t k = (Inr r, chain') \<and>
      row_gives (chain_view b chain (t, k)) r \<and> chain_view b chain' = chain_view b chain \<and>
      (below_ok b \<and> chain_inv chain')"
    using state_get_row [of b chain t k] by (auto simp: state_ops_def)
next
  fix chain t ks
  assume "below_ok b \<and> chain_inv chain"
  then show "\<exists>rs chain'. si_getRows (state_ops b tid) chain t ks = (Inr rs, chain') \<and>
      list_all2 (\<lambda>k. row_gives (chain_view b chain (t, k))) ks rs \<and>
      chain_view b chain' = chain_view b chain \<and> (below_ok b \<and> chain_inv chain')"
    using state_get_rows [of b chain t ks] by (auto simp: state_ops_def)
next
  fix chain e t k
  assume "below_ok b \<and> chain_inv chain" "entry_wf e" "m_status e \<noteq> PURGED"
  then show "\<exists>chain'. si_setRow (state_ops b tid) chain t k e = (None, chain') \<and>
      (below_ok b \<and> chain_inv chain') \<and>
      chain_view b chain' = (chain_view b chain)((t, k) := if m_status e = NORMAL then Some (content e) else None)"
    using state_set_row [of chain e b tid t k] by auto
qed

section \<open>Batch replies\<close>

lemma batch_reply_simps:
  "rc_results (fst (batch_reply c i err)) = (rc_results c)[i := (err = None)]"
  "rc_success (fst (batch_reply c i err)) + rc_failed (fst (batch_reply c i err)) = rc_success c + rc_failed c + 1"
  "snd (batch_reply c i err) =
     (if rc_success c + rc_failed c + 1 = length (rc_results c)
      then Some ((rc_results c)[i := (err = None)]) else None)"
  by (cases err; simp add: batch_reply_def Let_def)+

lemma batch_replies_once:
  assumes "rs \<noteq> []" "rc_success c + rc_failed c + length rs = length (rc_results c)"
    and "distinct (map fst rs)" "\<forall>i \<in> fst ` set rs. i < length (rc_results c)"
    and "\<forall>(i, err) \<in> set rs. f i = (err = None)"
    and "\<forall>i < length (rc_results c). i \<notin> fst ` set rs \<longrightarrow> rc_results c ! i = f i"
  shows "batch_replies c rs = [map f [0..<length (rc_results c)]]"
  using assms
proof (induction rs arbitrary: c)
  case (Cons r rs)
  obtain i err where r: "r = (i, err)" by fastforce
  obtain c' out where reply: "batch_reply c i err = (c', out)" by fastforce
  note c' = batch_reply_simps [of c i err, unfolded reply, simplified]
  have fi: "f i = (err = None)" using Cons.prems(5) r by auto
  have others: "\<forall>j < length (rc_results c'). j \<notin> fst ` set rs \<longrightarrow> rc_results c' ! j = f j"
  proof (intro allI impI)
    fix j
    assume "j < length (rc_results c')" "j \<notin> fst ` set rs"
    then show "rc_results c' ! j = f j" using Cons.prems(6) fi r by (cases "j = i") (simp_all add: c'(1))
  qed
  show ?case
  proof (cases "rs = []")
    case True
    then have "rc_results c' = map f [0..<length (rc_results c)]"
      using others by (intro nth_equalityI) (simp_all add: c'(1))
    then show ?thesis using True r reply c' Cons.prems(2) by auto
  next
    case False
    have "batch_replies c' rs = [map f [0..<length (rc_results c')]]"
      using Cons.prems r others c' False by (intro Cons.IH) auto
    moreover have "out = None" using c'(3) Cons.prems(2) False by (cases rs) auto
    ultimately show ?thesis using r reply c'(1) by simp
  qed
qed simp

context row_storage
begin

lemma batch_loop:
  assumes "inv s" "\<forall>(k, e) \<in> set entries. entry_wf e \<and> m_status e = NORMAL"
  shows "\<exists>s'. batch_set_loop ops s t i entries = (map (\<lambda>j. (j, None)) [i..<i + length entries], s') \<and> inv s' \<and>
    view s' = write_all t entries (view s)"
  using assms
proof (induction entries arbitrary: s i)
  case (Cons p entries)
  obtain k e where p: "p = (k, e)" by fastforce
  obtain s1 where s1: "si_setRow ops s t k e = (None, s1)" "inv s1" "view s1 = (view s)((t, k) \<mapsto> content e)"
    using set_row [OF Cons.prems(1), of e t k] Cons.prems(2) p by auto
  obtain s2 where s2: "batch_set_loop ops s1 t (Suc i) entries =
      (map (\<lambda>j. (j, None)) [Suc i..<Suc i + length entries], s2)" "inv s2"
    "view s2 = write_all t entries (view s1)"
    using Cons.IH [OF s1(2), of "Suc i"] Cons.prems(2) by (auto simp del: upt_Suc)
  have "[i..<i + length (p # entries)] = i # [Suc i..<Suc i + length entries]"
    by (simp add: upt_conv_Cons del: upt_Suc)
  then show ?case using s1 s2 p by (auto simp del: upt_Suc)
qed simp

lemma batch_set_rows:
  assumes "inv s" "\<forall>(k, e) \<in> set entries. entry_wf e \<and> m_status e = NORMAL" "entries \<noteq> []"
  shows "\<exists>s'. asyncBatchSetRows ops s t entries = ([replicate (length entries) True], s') \<and> inv s' \<and>
    view s' = write_all t entries (view s)"
proof -
  let ?n = "length entries" and ?rs = "map (\<lambda>j. (j, None)) [0..<length entries] :: (nat \<times> error option) list"
  have "batch_replies (new_collection ?n) ?rs = [map (\<lambda>_. True) [0..<length (rc_results (new_collection ?n))]]"
    using assms(3) by (intro batch_replies_once) (auto simp: new_collection_def comp_def image_image)
  moreover have "map (\<lambda>_. True) [0..<?n] = replicate ?n True" by (simp add: map_replicate_const)
  ultimately show ?thesis using batch_loop [OF assms(1,2), of t 0]
    by (auto simp: asyncBatchSetRows_def new_collection_def)
qed

end

section \<open>Properties\<close>

text \<open>
  C13: creating a table that does not exist records it: opening it afterwards gives the same
  description, creating it again fails with the TableExists code, and no other visible
  value changes.
\<close>

theorem create_then_open_table:
  assumes "below_ok b" "chain_inv chain" "name \<noteq> SYS_TABLES"
    and "chain_view b chain (SYS_TABLES, name) = None" "length vf < 2147483648"
  shows "\<exists>tbl chain1 chain2 chain3 err.
    asyncCreateTable split (state_ops b tid) chain name vf = Some (Inr (Some tbl), chain1) \<and>
    tbl = \<lparr>m_tableInfo = new_table_info name (split vf)\<rparr> \<and>
    asyncOpenTable split (state_ops b tid) chain1 name = Some (Inr (Some tbl), chain2) \<and>
    asyncCreateTable split (state_ops b tid) chain2 name vf2 = Some (Inl err, chain3) \<and>
    errorCode err = storage_error_code TableExists \<and>
    chain_view b chain3 = (chain_view b chain)((SYS_TABLES, name) \<mapsto> vf)"
proof -
  let ?ops = "state_ops b tid" and ?tbl = "\<lparr>m_tableInfo = new_table_info name (split vf)\<rparr>"
  obtain c1 where c1: "asyncCreateTable split ?ops chain name vf = Some (Inr (Some ?tbl), c1)"
    "below_ok b \<and> chain_inv c1" "chain_view b c1 = (chain_view b chain)((SYS_TABLES, name) \<mapsto> vf)"
    using layered.create_table [of b chain name vf split tid] assms by blast
  obtain c2 where c2: "asyncOpenTable split ?ops c1 name = Some (Inr (Some ?tbl), c2)"
    "below_ok b \<and> chain_inv c2" "chain_view b c2 = chain_view b c1"
    using layered.open_table [OF c1(2) assms(3), of split tid] c1(3) by auto
  obtain c3 where "asyncCreateTable split ?ops c2 name vf2 = Some (Inl (Error (storage_error_code TableExists)
      (''Table: '' @ name @ '' already exists'') None), c3)" "chain_view b c3 = chain_view b c2"
    using layered.create_table_exists [OF c2(2), of name vf split tid vf2] c1(3) c2(3) by auto
  with c1 c2 show ?thesis by auto
qed

lemma chain_inv_new: "chain_inv [new_state_storage]"
  by (simp add: chain_inv_def new_state_storage_def data_wf_def)

lemma below_ok_none: "below_ok None"
  by (simp add: below_ok_def ext_reads_ok_def ext_batch_ok_def ext_wf_def)

theorem create_then_open_table_witness:
  "\<exists>tbl chain1 chain2. asyncCreateTable (\<lambda>s. [s]) (state_ops None 0) [new_state_storage] ''t'' ''v'' = Some (Inr (Some tbl), chain1) \<and>
     asyncOpenTable (\<lambda>s. [s]) (state_ops None 0) chain1 ''t'' = Some (Inr (Some tbl), chain2)"
proof -
  have "''t'' \<noteq> SYS_TABLES" by (simp add: SYS_TABLES_def)
  moreover have "chain_view None [new_state_storage] (SYS_TABLES, ''t'') = None"
    by (simp add: new_state_storage_def)
  moreover have "length ''v'' < 2147483648" by simp
  ultimately show ?thesis
    using create_then_open_table [OF below_ok_none chain_inv_new, of "''t''" "''v''" "\<lambda>s. [s]" 0 "''w''"] by blast
qed

text \<open>
  C19: the key/value helper over the layered store.  A value that is put is what a later get
  and a batch get return, a removed key reads as the empty string, and other keys keep
  their values.
\<close>

theorem kv_put_get_remove:
  assumes "below_ok b" "chain_inv chain" "length (input_view v) < 2147483648"
  shows "\<exists>c1 c2 c3 c4 c5. kv_asyncPut (state_ops b tid) chain t k v = Some (None, c1) \<and>
    kv_asyncGet (state_ops b tid) c1 t k = Some (Inr (input_view v), c2) \<and>
    kv_asyncGetBatch (state_ops b tid) c2 t [j, k] =
      Some (Inr [if j = k then input_view v else case chain_view b chain (t, j) of None \<Rightarrow> [] | Some x \<Rightarrow> x,
                 input_view v], c3) \<and>
    kv_asyncRemove (state_ops b tid) c3 t k = (None, c4) \<and>
    kv_asyncGet (state_ops b tid) c4 t k = Some (Inr [], c5) \<and>
    chain_view b c5 = (chain_view b chain)((t, k) := None)"
proof -
  let ?ops = "state_ops b tid"
  obtain c1 where c1: "kv_asyncPut ?ops chain t k v = Some (None, c1)" "below_ok b \<and> chain_inv c1"
    "chain_view b c1 = (chain_view b chain)((t, k) \<mapsto> input_view v)"
    using layered.kv_put [of b chain v tid t k] assms by blast
  obtain c2 where c2: "kv_asyncGet ?ops c1 t k = Some (Inr (input_view v), c2)" "below_ok b \<and> chain_inv c2"
    "chain_view b c2 = chain_view b c1"
    using layered.kv_get [OF c1(2), of tid t k] c1(3) by auto
  obtain c3 where c3: "kv_asyncGetBatch ?ops c2 t [j, k] =
      Some (Inr (map (\<lambda>k. case chain_view b c2 (t, k) of None \<Rightarrow> [] | Some v \<Rightarrow> v) [j, k]), c3)"
    "below_ok b \<and> chain_inv c3" "chain_view b c3 = chain_view b c2"
    using layered.kv_get_batch [OF c2(2)] by blast
  obtain c4 where c4: "kv_asyncRemove ?ops c3 t k = (None, c4)" "below_ok b \<and> chain_inv c4"
    "chain_view b c4 = (chain_view b c3)((t, k) := None)"
    using layered.kv_remove [OF c3(2)] by blast
  obtain c5 where "kv_asyncGet ?ops c4 t k = Some (Inr [], c5)" "chain_view b c5 = chain_view b c4"
    using layered.kv_get [OF c4(2), of tid t k] c4(3) by auto
  with c1(1,3) c2(1,3) c3(1,3) c4(1,3) show ?thesis by simp
qed

theorem kv_put_get_remove_witness:
  "\<exists>c1 c2. kv_asyncPut (state_ops None 0) [new_state_storage] ''t'' ''k'' (InString ''v'') = Some (None, c1) \<and>
     kv_asyncGet (state_ops None 0) c1 ''t'' ''k'' = Some (Inr ''v'', c2)"
proof -
  have "length (input_view (InString ''v'')) < 2147483648" by simp
  from kv_put_get_remove [OF below_ok_none chain_inv_new this, of 0 "''t''" "''k''" "''j''"] show ?thesis
    unfolding input_view.simps by blast
qed

text \<open>
  In a batch write the user's callback runs exactly once, after the last reply, in
  whatever order the storage answers the rows, and reports each row's own outcome; for an
  empty batch it never runs.
\<close>

theorem batch_callback_once:
  assumes "distinct (map fst replies)" "fst ` set replies = {..<n}"
  shows "batch_replies (new_collection n) replies =
    (if n = 0 then [] else [map (\<lambda>i. map_of replies i = Some None) [0..<n]])"
proof (cases "n = 0")
  case True
  then show ?thesis using assms(2) by simp
next
  case False
  have len: "length replies = n"
    using distinct_card [OF assms(1)] assms(2) by simp
  have "batch_replies (new_collection n) replies =
      [map (\<lambda>i. map_of replies i = Some None) [0..<length (rc_results (new_collection n))]]"
    using assms len False
    by (intro batch_replies_once) (auto simp: new_collection_def dest: eq_key_imp_eq_value)
  then show ?thesis using False by (simp add: new_collection_def)
qed

theorem batch_callback_once_witness:
  "batch_replies (new_collection 2) [(1, Some (Error 1 [] None)), (0, None)] = [[True, False]]"
proof -
  have "fst ` set [(1, Some (Error 1 [] None)), (0, None)] = {..<2 :: nat}" by auto
  from batch_callback_once [OF _ this] show ?thesis by (simp del: batch_replies.simps add: upt_rec)
qed

text \<open>
  A batch write on the layered store writes all rows in order, the last write of a key
  winning, and reports success for each.
\<close>

theorem batch_set_rows_writes_all:
  assumes "below_ok b" "chain_inv chain" "entries \<noteq> []"
    and "\<forall>(k, e) \<in> set entries. entry_wf e \<and> m_status e = NORMAL"
  shows "\<exists>chain'. asyncBatchSetRows (state_ops b tid) chain t entries = ([replicate (length entries) True], chain') \<and>
    chain_view b chain' = write_all t entries (chain_view b chain)"
  using layered.batch_set_rows [of b chain entries tid t] assms by blast

theorem batch_set_rows_writes_all_witness:
  "\<exists>chain'. asyncBatchSetRows (state_ops None 0) [new_state_storage] ''t'' [(''k'', new_entry)] = ([[True]], chain')"
proof -
  have "\<forall>(k, e) \<in> set [(''k'', new_entry)]. entry_wf e \<and> m_status e = NORMAL"
    using entry_wf_new by (simp add: new_entry_def)
  from batch_set_rows_writes_all [OF below_ok_none chain_inv_new _ this] show ?thesis by auto
qed

end
