(* ===== verification/Sealing.thy ===== *)
theory Sealing
  imports Bcos_Prelude
begin

text \<open>
  The sealer: \<^verbatim>\<open>libsealer/SealingManager.{h,cpp}\<close> and the driver of
  \<^verbatim>\<open>libsealer/Sealer.cpp\<close>.  An operation returns the new state of the manager and
  the calls it makes to the transaction pool, the worker thread and the consensus module.
  Clock readings are arguments.  Block numbers are integers (they stay far from the 64-bit
  limits); sizes and times are 64-bit words where the code computes with them.
\<close>

record tx_meta =
  md_hash :: bytes
  md_to :: string

record block =
  b_number :: int
  b_timestamp :: "64 word"
  b_metas :: "tx_meta list"
  b_sealerList :: "bytes list"
  b_weightList :: "nat list"
  b_sealer :: int

datatype sealer_call =
  EnqueueMarkTxs "bytes list"
| MarkTxs "bytes list" bool nat bool
| SealTxs int
| NoteUnsealed nat
| OnReady
| SubmitProposal bool block

record sealing_manager =
  m_pendingTxs :: "tx_meta list"
  m_pendingSysTxs :: "tx_meta list"
  m_lastSealTime :: "64 word"
  m_sealingNumber :: int
  m_unsealedTxsSize :: nat
  m_startSealingNumber :: int
  m_endSealingNumber :: int
  m_maxTxsPerBlock :: nat
  m_waitUntil :: int
  m_fetchingTxs :: bool
  m_currentNumber :: int
  m_minSealTime :: nat

definition new_sealing_manager :: sealing_manager where
  "new_sealing_manager =
     \<lparr>m_pendingTxs = [], m_pendingSysTxs = [], m_lastSealTime = 0, m_sealingNumber = -1,
      m_unsealedTxsSize = 0, m_startSealingNumber = 0, m_endSealingNumber = 0,
      m_maxTxsPerBlock = 0, m_waitUntil = 0, m_fetchingTxs = False, m_currentNumber = 0,
      m_minSealTime = 500\<rparr>"

section \<open>Operations of the manager\<close>

definition pendingTxsSize :: "sealing_manager \<Rightarrow> nat" where
  "pendingTxsSize m = length (m_pendingSysTxs m) + length (m_pendingTxs m)"

definition clearPendingTxs :: "sealing_manager \<Rightarrow> sealing_manager \<times> sealer_call list" where
  "clearPendingTxs m =
     (if length (m_pendingTxs m) + length (m_pendingSysTxs m) = 0 then (m, [])
      else
        (m\<lparr>m_pendingTxs := [], m_pendingSysTxs := []\<rparr>,
         [EnqueueMarkTxs (map md_hash (m_pendingTxs m) @ map md_hash (m_pendingSysTxs m))]))"

definition resetSealing :: "sealing_manager \<Rightarrow> sealing_manager \<times> sealer_call list" where
  "resetSealing m = clearPendingTxs (m\<lparr>m_sealingNumber := m_endSealingNumber m + 1\<rparr>)"

text \<open>\<^verbatim>\<open>appendTransactions\<close> on the queue of ordinary or of system transactions.\<close>

definition appendTransactions ::
    "bool \<Rightarrow> tx_meta list \<Rightarrow> sealing_manager \<Rightarrow> sealing_manager \<times> sealer_call list" where
  "appendTransactions sys fetched m =
     (if sys then m\<lparr>m_pendingSysTxs := m_pendingSysTxs m @ fetched\<rparr>
      else m\<lparr>m_pendingTxs := m_pendingTxs m @ fetched\<rparr>, [OnReady])"

definition reachMinSealTimeCondition :: "64 word \<Rightarrow> sealing_manager \<Rightarrow> bool" where
  "reachMinSealTimeCondition now m =
     (if pendingTxsSize m = 0 then False
      else if unat (now - m_lastSealTime m) < m_minSealTime m then False
      else True)"

definition shouldGenerateProposal ::
    "64 word \<Rightarrow> sealing_manager \<Rightarrow> bool \<times> sealing_manager \<times> sealer_call list" where
  "shouldGenerateProposal now m =
     (if m_sealingNumber m < m_startSealingNumber m \<or> m_sealingNumber m > m_endSealingNumber m then
        (False, clearPendingTxs m)
      else if m_currentNumber m < m_waitUntil m then (False, m, [])
      else if pendingTxsSize m \<ge> m_maxTxsPerBlock m \<or> reachMinSealTimeCondition now m
      then (True, m, []) else (False, m, []))"

text \<open>
  The part of \<^verbatim>\<open>generateProposal\<close> after the check: number and time stamp, system
  transactions first, then ordinary ones, up to the limit.
\<close>

definition seal_block ::
    "64 word \<Rightarrow> 64 word \<Rightarrow> sealing_manager \<Rightarrow> bool \<times> block \<times> sealing_manager" where
  "seal_block utc now m =
     (let number = max (m_sealingNumber m) (m_currentNumber m + 1);
          txsSize = min (m_maxTxsPerBlock m) (length (m_pendingTxs m) + length (m_pendingSysTxs m));
          systemTxsSize = min txsSize (length (m_pendingSysTxs m));
          waitUntil = (if length (m_pendingSysTxs m) > 0 then number else m_waitUntil m);
          metas = take systemTxsSize (m_pendingSysTxs m) @ take (txsSize - systemTxsSize) (m_pendingTxs m)
      in (systemTxsSize > 0,
          \<lparr>b_number = number, b_timestamp = utc, b_metas = metas, b_sealerList = [],
           b_weightList = [], b_sealer = 0\<rparr>,
          m\<lparr>m_pendingSysTxs := drop systemTxsSize (m_pendingSysTxs m),
            m_pendingTxs := drop (txsSize - systemTxsSize) (m_pendingTxs m),
            m_waitUntil := waitUntil, m_sealingNumber := number + 1, m_lastSealTime := now\<rparr>))"

definition generateProposal ::
    "64 word \<Rightarrow> 64 word \<Rightarrow> sealing_manager \<Rightarrow> bool \<times> block option \<times> sealing_manager \<times> sealer_call list" where
  "generateProposal utc now m =
     (case shouldGenerateProposal now m of
        (False, m', calls) \<Rightarrow> (False, None, m', calls)
      | (True, m', calls) \<Rightarrow>
          (let (containSysTxs, blk, m'') = seal_block utc now m' in (containSysTxs, Some blk, m'', calls)))"

definition shouldFetchTransaction :: "sealing_manager \<Rightarrow> bool" where
  "shouldFetchTransaction m =
     (if m_fetchingTxs m \<or> m_unsealedTxsSize m = 0 then False
      else if m_sealingNumber m < m_startSealingNumber m \<or> m_sealingNumber m > m_endSealingNumber m
      then False else True)"

definition txsSizeExpectedToFetch :: "sealing_manager \<Rightarrow> int" where
  "txsSizeExpectedToFetch m =
     (let txsSizeToFetch = (word_of_int (m_endSealingNumber m - m_sealingNumber m + 1) :: 64 word)
            * of_nat (m_maxTxsPerBlock m);
          txsSize = (of_nat (pendingTxsSize m) :: 64 word) in
      if txsSizeToFetch \<le> txsSize then 0 else sint (txsSizeToFetch - txsSize))"

definition fetchTransactions :: "sealing_manager \<Rightarrow> sealing_manager \<times> sealer_call list" where
  "fetchTransactions m =
     (if \<not> shouldFetchTransaction m then (m, [])
      else
        (let txsToFetch = txsSizeExpectedToFetch m in
         if txsToFetch = 0 then (m, [])
         else (m\<lparr>m_fetchingTxs := True\<rparr>, [SealTxs txsToFetch])))"

text \<open>The callback of the transaction pool: an error, or the two lists of transactions.\<close>

definition onFetched ::
    "error + tx_meta list \<times> tx_meta list \<Rightarrow> sealing_manager \<Rightarrow> sealing_manager \<times> sealer_call list" where
  "onFetched answer m =
     (case answer of
        Inl _ \<Rightarrow> (m\<lparr>m_fetchingTxs := False\<rparr>, [])
      | Inr (txs, sysTxs) \<Rightarrow>
          (let (m1, c1) = appendTransactions False txs m;
               (m2, c2) = appendTransactions True sysTxs m1 in
           (m2\<lparr>m_fetchingTxs := False\<rparr>, c1 @ c2)))"

definition setUnsealedTxsSize :: "nat \<Rightarrow> sealing_manager \<Rightarrow> sealing_manager \<times> sealer_call list" where
  "setUnsealedTxsSize n m = (m\<lparr>m_unsealedTxsSize := n\<rparr>, [NoteUnsealed n])"

definition resetSealingInfo ::
    "64 word \<Rightarrow> int \<Rightarrow> int \<Rightarrow> nat \<Rightarrow> sealing_manager \<Rightarrow> sealing_manager \<times> sealer_call list" where
  "resetSealingInfo now startNum endNum maxTxs m =
     (if startNum > endNum then (m, [])
      else
        (let (m', calls) =
           (if m_sealingNumber m > m_endSealingNumber m \<or> startNum \<noteq> m_endSealingNumber m + 1 then
              (let (m1, c) = clearPendingTxs m in
               (m1\<lparr>m_startSealingNumber := startNum, m_sealingNumber := startNum, m_lastSealTime := now\<rparr>, c))
            else (m, []))
         in (m'\<lparr>m_endSealingNumber := endNum, m_maxTxsPerBlock := maxTxs\<rparr>, calls)))"

definition resetCurrentNumber :: "int \<Rightarrow> sealing_manager \<Rightarrow> sealing_manager" where
  "resetCurrentNumber n m = m\<lparr>m_currentNumber := n\<rparr>"

text \<open>
  \<^verbatim>\<open>notifyResetTxsFlag\<close> asks the pool to mark transactions; \<^term>\<open>fails\<close> tells whether
  the call with a given retry count reports an error.  The result is the list of calls,
  each with its retry count and whether it succeeded.
\<close>

function notifyResetTxsFlag :: "(nat \<Rightarrow> bool) \<Rightarrow> bytes list \<Rightarrow> bool \<Rightarrow> nat \<Rightarrow> sealer_call list" where
  "notifyResetTxsFlag fails hashes flag retryTime =
     MarkTxs hashes flag retryTime (\<not> fails retryTime) #
     (if \<not> fails retryTime then []
      else if retryTime \<ge> 3 then []
      else notifyResetTxsFlag fails hashes flag (retryTime + 1))"
  by auto
termination
  by (relation "measure (\<lambda>(fails, hashes, flag, retryTime). 3 - retryTime)") auto

declare notifyResetTxsFlag.simps [simp del]

definition block_hashes :: "block \<Rightarrow> bytes list" where
  "block_hashes blk = map md_hash (b_metas blk)"

definition notifyResetProposal :: "(nat \<Rightarrow> bool) \<Rightarrow> block \<Rightarrow> sealer_call list" where
  "notifyResetProposal fails blk = notifyResetTxsFlag fails (block_hashes blk) False 0"

section \<open>The driver\<close>

text \<open>What the sealer asks of the consensus module: the node list and the own index.\<close>

record consensus_info =
  ci_nodes :: "(bytes \<times> nat) list"
  ci_nodeIndex :: int

text \<open>
  \<^verbatim>\<open>submitProposal\<close> dereferences the block it is given; a null block gives
  \<^term>\<open>None\<close>.
\<close>

definition submitProposal ::
    "consensus_info \<Rightarrow> (nat \<Rightarrow> bool) \<Rightarrow> sealing_manager \<Rightarrow> bool \<Rightarrow> block option \<Rightarrow> sealer_call list option" where
  "submitProposal ci fails m containSysTxs blkOpt =
     (case blkOpt of
        None \<Rightarrow> None
      | Some blk \<Rightarrow>
          Some (if b_number blk \<le> m_currentNumber m then notifyResetProposal fails blk
                else [SubmitProposal containSysTxs
                  (blk\<lparr>b_sealerList := map fst (ci_nodes ci), b_weightList := map snd (ci_nodes ci),
                       b_sealer := ci_nodeIndex ci\<rparr>)]))"

definition asyncNotifySealProposal ::
    "64 word \<Rightarrow> int \<Rightarrow> int \<Rightarrow> nat \<Rightarrow> sealing_manager \<Rightarrow> sealing_manager \<times> sealer_call list" where
  "asyncNotifySealProposal now startIndex endIndex maxTxs m = resetSealingInfo now startIndex endIndex maxTxs m"

definition asyncNoteLatestBlockNumber :: "int \<Rightarrow> sealing_manager \<Rightarrow> sealing_manager" where
  "asyncNoteLatestBlockNumber n m = resetCurrentNumber n m"

definition asyncNoteUnSealedTxsSize :: "nat \<Rightarrow> sealing_manager \<Rightarrow> sealing_manager \<times> sealer_call list" where
  "asyncNoteUnSealedTxsSize n m = setUnsealedTxsSize n m"

definition asyncResetSealing :: "sealing_manager \<Rightarrow> sealing_manager \<times> sealer_call list" where
  "asyncResetSealing m = resetSealing m"

text \<open>
  One pass of \<^verbatim>\<open>executeWorker\<close> with no other thread in between: the two checks before
  the wait, the check, generation and submission of a proposal, and fetching.  \<^term>\<open>t1\<close> to
  \<^term>\<open>t3\<close> are the steady clock at the three evaluations of the time condition.  \<^term>\<open>None\<close>
  is the dereference of a null block.
\<close>

definition executeWorker ::
    "consensus_info \<Rightarrow> (nat \<Rightarrow> bool) \<Rightarrow> 64 word \<Rightarrow> 64 word \<Rightarrow> 64 word \<Rightarrow> 64 word \<Rightarrow> sealing_manager
      \<Rightarrow> (sealing_manager \<times> sealer_call list) option" where
  "executeWorker ci fails utc t1 t2 t3 m =
     (let (_, m1, c1) = shouldGenerateProposal t1 m;
          (go, m2, c2) = shouldGenerateProposal t2 m1;
          generated =
            (if go then
               (let (containSysTxs, blkOpt, m3, c3) = generateProposal utc t3 m2 in
                case submitProposal ci fails m3 containSysTxs blkOpt of
                  None \<Rightarrow> None
                | Some c4 \<Rightarrow> Some (m3, c3 @ c4))
             else Some (m2, []))
      in case generated of
           None \<Rightarrow> None
         | Some (m4, c5) \<Rightarrow>
             (let (m5, c6) = (if shouldFetchTransaction m4 then fetchTransactions m4 else (m4, [])) in
              Some (m5, c1 @ c2 @ c5 @ c6)))"

end
