(* ===== verification/Sealing_Props.thy ===== *)
theory Sealing_Props
  imports Sealing
begin

text \<open>
  Correctness of the sealer.  The operations of the manager are the steps of a transition
  system whose state adds what was fetched from the pool, what waits on the thread pool to
  be handed back, what was handed back, what was given up after the last failed attempt,
  and what was submitted to consensus.  Every fetched transaction is in exactly one of the
  places; a block with system transactions is waited for; a generated block respects the
  limits and the order of the queues.
\<close>

section \<open>The transition system\<close>

text \<open>
  \<^term>\<open>w_pool\<close> holds the hand-backs enqueued on the thread pool, which run one by one unless
  \<^verbatim>\<open>SealingManager::stop\<close> has stopped the pool.
\<close>

record sealer_world =
  w_mgr :: sealing_manager
  w_fetched :: "bytes list"
  w_pool :: "bytes list list"
  w_stopped :: bool
  w_returned :: "bytes list"
  w_givenUp :: "bytes list"
  w_submitted :: "block list"

fun call_enqueued :: "sealer_call \<Rightarrow> bytes list list" where
  "call_enqueued (EnqueueMarkTxs hs) = [hs]"
| "call_enqueued _ = []"

fun call_returned :: "sealer_call \<Rightarrow> bytes list" where
  "call_returned (MarkTxs hs flag retry ok) = (if ok then hs else [])"
| "call_returned _ = []"

fun call_givenUp :: "sealer_call \<Rightarrow> bytes list" where
  "call_givenUp (MarkTxs hs flag retry ok) = (if \<not> ok \<and> retry \<ge> 3 then hs else [])"
| "call_givenUp _ = []"

fun call_submitted :: "sealer_call \<Rightarrow> block list" where
  "call_submitted (SubmitProposal c blk) = [blk]"
| "call_submitted _ = []"

definition world_after ::
    "sealer_world \<Rightarrow> sealing_manager \<times> sealer_call list \<Rightarrow> bytes list \<Rightarrow> sealer_world" where
  "world_after w r fetched =
     w\<lparr>w_mgr := fst r, w_fetched := w_fetched w @ fetched,
       w_pool := w_pool w @ concat (map call_enqueued (snd r)),
       w_returned := w_returned w @ concat (map call_returned (snd r)),
       w_givenUp := w_givenUp w @ concat (map call_givenUp (snd r)),
       w_submitted := w_submitted w @ concat (map call_submitted (snd r))\<rparr>"

text \<open>
  \<^term>\<open>Pass\<close> is one pass of the worker without another thread in between; \<^term>\<open>Generate\<close> and
  \<^term>\<open>Fetch\<close> are its parts, between which other threads may act.  The argument \<^term>\<open>fails\<close> of a
  label tells which attempts to mark transactions fail.
\<close>

datatype sealer_label =
  Notify "64 word" int int nat
| Number int
| Unsealed nat
| Reset
| Generate "nat \<Rightarrow> bool" "64 word" "64 word"
| Fetch
| Fetched "error + tx_meta list \<times> tx_meta list"
| Pass "nat \<Rightarrow> bool" "64 word" "64 word" "64 word" "64 word"
| PoolRun "nat \<Rightarrow> bool" nat
| PoolStop

definition fetched_hashes :: "error + tx_meta list \<times> tx_meta list \<Rightarrow> bytes list" where
  "fetched_hashes answer = (case answer of Inl _ \<Rightarrow> [] | Inr (a, b) \<Rightarrow> map md_hash a @ map md_hash b)"

inductive sealer_step ::
    "consensus_info \<Rightarrow> sealer_label \<Rightarrow> sealer_world \<Rightarrow> sealer_world \<Rightarrow> bool"
  for ci where
  notify: "sealer_step ci (Notify now s e mx) w
    (world_after w (asyncNotifySealProposal now s e mx (w_mgr w)) [])"
| number: "sealer_step ci (Number n) w
    (world_after w (asyncNoteLatestBlockNumber n (w_mgr w), []) [])"
| unsealed: "sealer_step ci (Unsealed n) w
    (world_after w (asyncNoteUnSealedTxsSize n (w_mgr w)) [])"
| reset: "sealer_step ci Reset w (world_after w (asyncResetSealing (w_mgr w)) [])"
| generate: "generateProposal utc now (w_mgr w) = (c, Some blk, m', calls) \<Longrightarrow>
    submitProposal ci fails m' c (Some blk) = Some calls' \<Longrightarrow>
    sealer_step ci (Generate fails utc now) w (world_after w (m', calls @ calls') [])"
| generate_none: "generateProposal utc now (w_mgr w) = (c, None, m', calls) \<Longrightarrow>
    sealer_step ci (Generate fails utc now) w (world_after w (m', calls) [])"
| fetch: "sealer_step ci Fetch w (world_after w (fetchTransactions (w_mgr w)) [])"
| fetched: "m_fetchingTxs (w_mgr w) \<Longrightarrow>
    sealer_step ci (Fetched answer) w
      (world_after w (onFetched answer (w_mgr w)) (fetched_hashes answer))"
| pass: "executeWorker ci fails utc t1 t2 t3 (w_mgr w) = Some r \<Longrightarrow>
    sealer_step ci (Pass fails utc t1 t2 t3) w (world_after w r [])"
| pool_run: "\<not> w_stopped w \<Longrightarrow> i < length (w_pool w) \<Longrightarrow>
    sealer_step ci (PoolRun fails i) w
      (world_after (w\<lparr>w_pool := take i (w_pool w) @ drop (Suc i) (w_pool w)\<rparr>)
        (w_mgr w, notifyResetTxsFlag fails (w_pool w ! i) False 0) [])"
| pool_stop: "sealer_step ci PoolStop w (w\<lparr>w_stopped := True\<rparr>)"

inductive_cases sealer_stepE: "sealer_step ci l w w'"

definition pending_hashes :: "sealing_manager \<Rightarrow> bytes list" where
  "pending_hashes m = map md_hash (m_pendingTxs m) @ map md_hash (m_pendingSysTxs m)"

definition conserved :: "sealer_world \<Rightarrow> bool" where
  "conserved w =
     (mset (w_fetched w) =
      mset (pending_hashes (w_mgr w)) + mset (concat (w_pool w)) + mset (w_returned w) + mset (w_givenUp w) +
      mset (concat (map block_hashes (w_submitted w))))"

text \<open>Where the calls of an operation leave transactions.\<close>

definition placed :: "sealer_call list \<Rightarrow> bytes multiset" where
  "placed cs =
     mset (concat (concat (map call_enqueued cs))) + mset (concat (map call_returned cs)) +
     mset (concat (map call_givenUp cs)) + mset (concat (map block_hashes (concat (map call_submitted cs))))"

lemma placed_simps [simp]:
  "placed [] = {#}" "placed (xs @ ys) = placed xs + placed ys"
  "placed (EnqueueMarkTxs hs # cs) = mset hs + placed cs"
  "placed (SubmitProposal c blk # cs) = mset (block_hashes blk) + placed cs"
  "placed (MarkTxs hs flag r ok # cs) = (if ok \<or> r \<ge> 3 then mset hs else {#}) + placed cs"
  "placed (SealTxs n # cs) = placed cs" "placed (NoteUnsealed k # cs) = placed cs" "placed (OnReady # cs) = placed cs"
  by (simp_all add: placed_def)

text \<open>An operation is balanced if what leaves the queues is placed.\<close>

definition balanced :: "sealing_manager \<Rightarrow> bytes list \<Rightarrow> sealing_manager \<times> sealer_call list \<Rightarrow> bool" where
  "balanced m fetched r = (mset (pending_hashes m) + mset fetched = mset (pending_hashes (fst r)) + placed (snd r))"

lemma conserved_after:
  "conserved w \<Longrightarrow> balanced (w_mgr w) fetched r \<Longrightarrow> conserved (world_after w r fetched)"
  unfolding conserved_def balanced_def world_after_def placed_def
  by (simp add: ac_simps)

lemma balanced_trans:
  "balanced m [] (m1, c1) \<Longrightarrow> balanced m1 [] (m2, c2) \<Longrightarrow> balanced m [] (m2, c1 @ c2)"
  by (simp add: balanced_def ac_simps)

lemma balanced_same: "balanced m [] (m, [])"
  by (simp add: balanced_def)

lemma balanced_clear: "balanced m [] (clearPendingTxs m)"
  by (simp add: balanced_def clearPendingTxs_def pending_hashes_def)

lemma balanced_clear_upd:
  "pending_hashes m = pending_hashes m0 \<Longrightarrow> balanced m0 [] (clearPendingTxs m)"
  using balanced_clear [of m] by (simp add: balanced_def)

lemma pending_hashes_upd [simp]:
  "pending_hashes (m\<lparr>m_sealingNumber := n\<rparr>) = pending_hashes m"
  "pending_hashes (m\<lparr>m_endSealingNumber := n\<rparr>) = pending_hashes m"
  "pending_hashes (m\<lparr>m_startSealingNumber := n\<rparr>) = pending_hashes m"
  "pending_hashes (m\<lparr>m_maxTxsPerBlock := k\<rparr>) = pending_hashes m"
  "pending_hashes (m\<lparr>m_lastSealTime := t\<rparr>) = pending_hashes m"
  "pending_hashes (m\<lparr>m_currentNumber := n\<rparr>) = pending_hashes m"
  "pending_hashes (m\<lparr>m_unsealedTxsSize := k\<rparr>) = pending_hashes m"
  "pending_hashes (m\<lparr>m_fetchingTxs := b\<rparr>) = pending_hashes m"
  "pending_hashes (m\<lparr>m_waitUntil := n\<rparr>) = pending_hashes m"
  by (simp_all add: pending_hashes_def)

lemma balanced_reset: "balanced m [] (resetSealing m)"
  by (simp add: resetSealing_def balanced_clear_upd)

lemma balanced_notify: "balanced m [] (resetSealingInfo now s e mx m)"
  using balanced_clear [of m]
  by (auto simp: resetSealingInfo_def balanced_def Let_def split: prod.splits)

lemma balanced_fetch: "balanced m [] (fetchTransactions m)"
  by (simp add: fetchTransactions_def balanced_def Let_def)

lemma balanced_fetched: "balanced m (fetched_hashes answer) (onFetched answer m)"
  by (auto simp: onFetched_def balanced_def fetched_hashes_def appendTransactions_def
      pending_hashes_def split: sum.splits)

lemma balanced_should: "balanced m [] (snd (shouldGenerateProposal now m))"
  using balanced_clear [of m] by (simp add: shouldGenerateProposal_def balanced_def)

lemma seal_block_hashes:
  assumes "seal_block utc now m = (c, blk, m')"
  shows "mset (pending_hashes m) = mset (pending_hashes m') + mset (block_hashes blk)"
proof -
  have split: "mset (map f (take n xs)) + mset (map f (drop n xs)) = mset (map f xs)"
    for f :: "tx_meta \<Rightarrow> bytes" and n xs
    by (metis append_take_drop_id map_append mset_append)
  define n where "n = min (m_maxTxsPerBlock m) (length (m_pendingTxs m) + length (m_pendingSysTxs m))"
  define k where "k = min n (length (m_pendingSysTxs m))"
  have "pending_hashes m' = map md_hash (drop (n - k) (m_pendingTxs m)) @ map md_hash (drop k (m_pendingSysTxs m))"
    "block_hashes blk = map md_hash (take k (m_pendingSysTxs m)) @ map md_hash (take (n - k) (m_pendingTxs m))"
    using assms by (auto simp: seal_block_def Let_def n_def k_def pending_hashes_def block_hashes_def)
  moreover have "mset (pending_hashes m) =
      (mset (map md_hash (take (n - k) (m_pendingTxs m))) + mset (map md_hash (drop (n - k) (m_pendingTxs m)))) +
      (mset (map md_hash (take k (m_pendingSysTxs m))) + mset (map md_hash (drop k (m_pendingSysTxs m))))"
    by (simp only: split mset_append pending_hashes_def)
  ultimately show ?thesis by (simp only: mset_append ac_simps)
qed

lemma generate_cases:
  assumes "generateProposal utc now m = (c, Some blk, m', calls)"
  shows "shouldGenerateProposal now m = (True, m, [])" "calls = []" "seal_block utc now m = (c, blk, m')"
  using assms by (auto simp: generateProposal_def shouldGenerateProposal_def split: if_splits prod.splits)

lemma generate_none_cases:
  assumes "generateProposal utc now m = (c, None, m', calls)"
  shows "shouldGenerateProposal now m = (False, m', calls)"
  using assms by (auto simp: generateProposal_def split: prod.splits bool.splits)

text \<open>A hand-back ends as returned or, after the attempt with retry count three, as given up.\<close>

lemma placed_notify [simp]: "r \<le> 3 \<Longrightarrow> placed (notifyResetTxsFlag fails hs flag r) = mset hs"
proof (induction fails hs flag r rule: notifyResetTxsFlag.induct)
  case (1 fails hs flag r)
  then show ?case by (subst notifyResetTxsFlag.simps) auto
qed

lemma submitted_notify [simp]: "concat (map call_submitted (notifyResetTxsFlag fails hs flag r)) = []"
  by (induction fails hs flag r rule: notifyResetTxsFlag.induct)
    (subst notifyResetTxsFlag.simps, simp)

lemma balanced_generate:
  assumes "generateProposal utc now m = (c, Some blk, m', calls)"
    and "submitProposal ci fails m' c (Some blk) = Some calls'"
  shows "balanced m [] (m', calls @ calls')"
  using seal_block_hashes [OF generate_cases(3) [OF assms(1)]] generate_cases(2) [OF assms(1)] assms(2)
  by (auto simp: balanced_def submitProposal_def notifyResetProposal_def block_hashes_def split: if_splits)

lemma balanced_pass:
  assumes "executeWorker ci fails utc t1 t2 t3 m = Some r"
  shows "balanced m [] r"
proof -
  obtain b1 m1 c1 where s1: "shouldGenerateProposal t1 m = (b1, m1, c1)" by (metis prod_cases3)
  obtain go m2 c2 where s2: "shouldGenerateProposal t2 m1 = (go, m2, c2)" by (metis prod_cases3)
  obtain m4 c5 where g: "balanced m2 [] (m4, c5)"
    and r: "(let (m5, c6) = (if shouldFetchTransaction m4 then fetchTransactions m4 else (m4, [])) in (m5, c1 @ c2 @ c5 @ c6)) = r"
  proof (cases go)
    case True
    obtain c blkOpt m3 c3 where gen: "generateProposal utc t3 m2 = (c, blkOpt, m3, c3)" by (metis prod_cases4)
    obtain blk c4 where sub: "blkOpt = Some blk" "submitProposal ci fails m3 c (Some blk) = Some c4"
      using assms s1 s2 True gen by (cases blkOpt) (auto simp: executeWorker_def submitProposal_def)
    then have "balanced m2 [] (m3, c3 @ c4)" using balanced_generate gen by simp
    moreover have "(let (m5, c6) = (if shouldFetchTransaction m3 then fetchTransactions m3 else (m3, []))
        in (m5, c1 @ c2 @ (c3 @ c4) @ c6)) = r"
      using assms s1 s2 True gen sub by (simp add: executeWorker_def split: prod.splits if_splits)
    ultimately show ?thesis by (rule that)
  next
    case False
    then show ?thesis using that [OF balanced_same] assms s1 s2
      by (simp add: executeWorker_def split: prod.splits if_splits)
  qed
  obtain m5 c6 where f: "(if shouldFetchTransaction m4 then fetchTransactions m4 else (m4, [])) = (m5, c6)" by fastforce
  have "balanced m4 [] (m5, c6)" using f balanced_fetch [of m4] balanced_same [of m4] by (simp split: if_splits)
  moreover have "balanced m [] (m1, c1)" "balanced m1 [] (m2, c2)"
    using balanced_should [of m t1] balanced_should [of m1 t2] s1 s2 by simp_all
  ultimately show ?thesis using g r f by (auto intro: balanced_trans)
qed

lemma conserved_pool_run:
  assumes "conserved w" "i < length (w_pool w)"
  shows "conserved (world_after (w\<lparr>w_pool := take i (w_pool w) @ drop (Suc i) (w_pool w)\<rparr>)
    (w_mgr w, notifyResetTxsFlag fails (w_pool w ! i) False 0) [])"
proof -
  have "mset (concat (w_pool w)) = mset (concat (take i (w_pool w) @ drop (Suc i) (w_pool w))) + mset (w_pool w ! i)"
    by (subst id_take_nth_drop [OF assms(2)]) simp
  then show ?thesis using assms(1) placed_notify [of 0 fails "w_pool w ! i" False]
    by (simp add: conserved_def world_after_def placed_def ac_simps)
qed

lemma sealer_step_conserved:
  assumes "conserved w" "sealer_step ci l w w'"
  shows "conserved w'"
  using assms(2,1)
proof (cases rule: sealer_step.cases)
  case (generate utc now c blk m' calls fails calls')
  then show ?thesis using assms(1) balanced_generate by (auto intro: conserved_after)
next
  case (generate_none utc now c m' calls)
  then show ?thesis
    using assms(1) balanced_should [of "w_mgr w" now] generate_none_cases [OF generate_none(3)]
    by (auto intro: conserved_after)
next
  case (pass fails utc t1 t2 t3 r)
  obtain m' calls where r: "r = (m', calls)" by fastforce
  then show ?thesis using assms(1) balanced_pass [OF pass(3)] pass(2) by (auto intro: conserved_after)
next
  case (pool_run i fails)
  then show ?thesis using assms(1) conserved_pool_run by simp
next
  case pool_stop
  then show ?thesis using assms(1) by (simp add: conserved_def)
qed (auto intro!: conserved_after assms(1) balanced_reset balanced_notify balanced_fetch balanced_fetched
    simp: asyncNotifySealProposal_def asyncNoteLatestBlockNumber_def resetCurrentNumber_def
      asyncNoteUnSealedTxsSize_def setUnsealedTxsSize_def asyncResetSealing_def balanced_def [of _ "[]" "(_, [])"]
      balanced_def [of _ "[]" "(_, [NoteUnsealed _])"])

definition sealer_init :: "sealer_world \<Rightarrow> bool" where
  "sealer_init w =
     (\<exists>t. w_mgr w = new_sealing_manager\<lparr>m_minSealTime := t\<rparr> \<and> w_fetched w = [] \<and> w_pool w = [] \<and> \<not> w_stopped w \<and>
       w_returned w = [] \<and> w_givenUp w = [] \<and> w_submitted w = [])"

interpretation sealer: transition_system sealer_init "sealer_step ci" conserved
proof
  show "conserved w" if "sealer_init w" for w
    using that by (auto simp: sealer_init_def conserved_def pending_hashes_def new_sealing_manager_def)
  show "conserved w'" if "conserved w" "sealer_step ci l w w'" for l w w'
    using that by (rule sealer_step_conserved)
qed

section \<open>Waiting for system blocks\<close>

definition waiting :: "int \<Rightarrow> sealer_world \<Rightarrow> bool" where
  "waiting n w = (m_waitUntil (w_mgr w) = n \<and> m_currentNumber (w_mgr w) < n)"

fun label_commits :: "int \<Rightarrow> sealer_label \<Rightarrow> bool" where
  "label_commits n (Number k) = (n \<le> k)"
| "label_commits n _ = False"

lemma clear_keeps [simp]:
  "m_waitUntil (fst (clearPendingTxs m)) = m_waitUntil m"
  "m_currentNumber (fst (clearPendingTxs m)) = m_currentNumber m"
  "concat (map call_submitted (snd (clearPendingTxs m))) = []"
  by (simp_all add: clearPendingTxs_def)

lemma waiting_no_generate:
  "m_currentNumber m < m_waitUntil m \<Longrightarrow> \<not> fst (shouldGenerateProposal now m)"
  by (simp add: shouldGenerateProposal_def)

lemma should_keeps:
  assumes "shouldGenerateProposal now m = (b, m', calls)"
  shows "m_waitUntil m' = m_waitUntil m" "m_currentNumber m' = m_currentNumber m"
    "concat (map call_submitted calls) = []"
  using assms by (auto simp: shouldGenerateProposal_def clearPendingTxs_def split: if_splits)

lemma notify_keeps:
  "m_waitUntil (fst (resetSealingInfo now s e mx m)) = m_waitUntil m"
  "m_currentNumber (fst (resetSealingInfo now s e mx m)) = m_currentNumber m"
  "concat (map call_submitted (snd (resetSealingInfo now s e mx m))) = []"
  by (auto simp: resetSealingInfo_def clearPendingTxs_def Let_def split: prod.splits)

lemma fetch_keeps:
  "m_waitUntil (fst (fetchTransactions m)) = m_waitUntil m"
  "m_currentNumber (fst (fetchTransactions m)) = m_currentNumber m"
  "concat (map call_submitted (snd (fetchTransactions m))) = []"
  by (simp_all add: fetchTransactions_def Let_def)

lemma fetched_keeps:
  "m_waitUntil (fst (onFetched answer m)) = m_waitUntil m"
  "m_currentNumber (fst (onFetched answer m)) = m_currentNumber m"
  "concat (map call_submitted (snd (onFetched answer m))) = []"
  by (auto simp: onFetched_def appendTransactions_def split: sum.splits)

lemmas op_keeps = notify_keeps fetch_keeps fetched_keeps

lemma waiting_pass:
  assumes "executeWorker ci fails utc t1 t2 t3 m = Some r" "m_currentNumber m < m_waitUntil m"
  shows "m_waitUntil (fst r) = m_waitUntil m \<and> m_currentNumber (fst r) = m_currentNumber m \<and>
    concat (map call_submitted (snd r)) = []"
proof -
  obtain b1 m1 c1 where s1: "shouldGenerateProposal t1 m = (b1, m1, c1)" by (metis prod_cases3)
  obtain go m2 c2 where s2: "shouldGenerateProposal t2 m1 = (go, m2, c2)" by (metis prod_cases3)
  note k = should_keeps [OF s1] should_keeps [OF s2]
  have "\<not> go" using waiting_no_generate [of m1 t2] s2 k assms(2) by simp
  then show ?thesis using assms(1) s1 s2 k fetch_keeps [of m2]
    by (auto simp: executeWorker_def split: prod.splits if_splits)
qed

lemma waiting_step:
  assumes "sealer_step ci l w w'" "waiting n w" "\<not> label_commits n l"
  shows "waiting n w' \<and> w_submitted w' = w_submitted w"
  using assms(1)
proof (cases rule: sealer_step.cases)
  case (generate utc now c blk m' calls fails calls')
  then show ?thesis
    using generate_cases(1) [OF generate(3)] waiting_no_generate [of "w_mgr w" now] assms(2)
    by (simp add: waiting_def)
next
  case (generate_none utc now c m' calls)
  then show ?thesis
    using should_keeps [OF generate_none_cases [OF generate_none(3)]] assms(2)
    by (simp add: waiting_def world_after_def)
next
  case (pass fails utc t1 t2 t3 r)
  then show ?thesis using waiting_pass [OF pass(3)] assms(2) by (simp add: waiting_def world_after_def)
qed (use assms(2,3) op_keeps in \<open>auto simp: waiting_def world_after_def asyncNotifySealProposal_def
  asyncNoteLatestBlockNumber_def resetCurrentNumber_def asyncNoteUnSealedTxsSize_def
  setUnsealedTxsSize_def asyncResetSealing_def resetSealing_def\<close>)

lemma waiting_run:
  "run (sealer_step ci) w ls w' \<Longrightarrow> waiting n w \<Longrightarrow> \<forall>l \<in> set ls. \<not> label_commits n l \<Longrightarrow>
   w_submitted w' = w_submitted w"
proof (induction rule: run.induct)
  case (run_cons l s s' ls s'')
  then show ?case using waiting_step [OF run_cons(1), of n] by auto
qed simp

section \<open>Properties\<close>


definition sample_world :: sealer_world where
  "sample_world = \<lparr>w_mgr = new_sealing_manager, w_fetched = [], w_pool = [], w_stopped = False, w_returned = [],
     w_givenUp = [], w_submitted = []\<rparr>"

definition sample_ci :: consensus_info where
  "sample_ci = \<lparr>ci_nodes = [([1], 1)], ci_nodeIndex = 0\<rparr>"

lemma sample_world_init: "sealer_init sample_world"
  by (auto simp: sealer_init_def sample_world_def new_sealing_manager_def)

text \<open>
  Two transactions are fetched; a pass of the worker seals one, and a reset hands the other
  back through the thread pool, where the third attempt succeeds.
\<close>

definition sample_answer :: "error + tx_meta list \<times> tx_meta list" where
  "sample_answer = Inr ([\<lparr>md_hash = [2], md_to = []\<rparr>], [\<lparr>md_hash = [1], md_to = []\<rparr>])"

lemmas sample_defs = world_after_def asyncResetSealing_def resetSealing_def clearPendingTxs_def new_sealing_manager_def
  onFetched_def appendTransactions_def executeWorker_def shouldGenerateProposal_def generateProposal_def seal_block_def
  submitProposal_def fetchTransactions_def shouldFetchTransaction_def txsSizeExpectedToFetch_def pendingTxsSize_def
  sample_ci_def notifyResetTxsFlag.simps

lemmas sealer_run_cons = run_cons [of "sealer_step ci" for ci]

lemma sample_run:
  "\<exists>w'. run (sealer_step sample_ci) sample_world [Notify 0 2 3 1, Unsealed 5, Fetch, Fetched sample_answer,
     Pass (\<lambda>_. False) 7 8 9 9, Reset, PoolRun (\<lambda>r. r < 2) 0] w' \<and>
     w_fetched w' = [[2], [1]] \<and> map block_hashes (w_submitted w') = [[[1]]] \<and> w_returned w' = [[2]] \<and>
     pending_hashes (w_mgr w') = [] \<and> w_pool w' = []"
proof -
  define m3 where "m3 = new_sealing_manager\<lparr>m_startSealingNumber := 2, m_sealingNumber := 2, m_endSealingNumber := 3,
    m_maxTxsPerBlock := 1, m_unsealedTxsSize := 5, m_fetchingTxs := True\<rparr>"
  define m5 where "m5 = new_sealing_manager\<lparr>m_pendingTxs := [\<lparr>md_hash = [2], md_to = []\<rparr>], m_startSealingNumber := 2,
    m_sealingNumber := 3, m_endSealingNumber := 3, m_maxTxsPerBlock := 1, m_unsealedTxsSize := 5, m_waitUntil := 2,
    m_lastSealTime := 9\<rparr>"
  define blk where "blk = \<lparr>b_number = 2, b_timestamp = 7, b_metas = [\<lparr>md_hash = [1], md_to = []\<rparr>], b_sealerList = [[1]],
    b_weightList = [1], b_sealer = 0\<rparr>"
  define w3 where "w3 = sample_world\<lparr>w_mgr := m3\<rparr>"
  define w4 where "w4 = w3\<lparr>w_mgr := m3\<lparr>m_pendingTxs := [\<lparr>md_hash = [2], md_to = []\<rparr>],
    m_pendingSysTxs := [\<lparr>md_hash = [1], md_to = []\<rparr>], m_fetchingTxs := False\<rparr>, w_fetched := [[2], [1]]\<rparr>"
  define w5 where "w5 = w4\<lparr>w_mgr := m5, w_submitted := [blk]\<rparr>"
  define w7 where "w7 = w5\<lparr>w_mgr := m5\<lparr>m_pendingTxs := [], m_sealingNumber := 4\<rparr>, w_returned := [[2]]\<rparr>"
  have r3: "run (sealer_step sample_ci) sample_world [Notify 0 2 3 1, Unsealed 5, Fetch] w3"
    by (rule sealer_run_cons [OF sealer_step.notify sealer_run_cons [OF sealer_step.unsealed sealer_run_cons [OF sealer_step.fetch]]])
      (simp add: w3_def m3_def sample_world_def world_after_def asyncNotifySealProposal_def resetSealingInfo_def clearPendingTxs_def
        new_sealing_manager_def asyncNoteUnSealedTxsSize_def setUnsealedTxsSize_def fetchTransactions_def
        shouldFetchTransaction_def txsSizeExpectedToFetch_def pendingTxsSize_def run_nil)
  have w4: "world_after w3 (onFetched sample_answer (w_mgr w3)) (fetched_hashes sample_answer) = w4"
    by (simp add: w4_def w3_def m3_def sample_answer_def sample_world_def sample_defs fetched_hashes_def)
  have p4: "executeWorker sample_ci (\<lambda>_. False) 7 8 9 9 (w_mgr w4) = Some (m5, [SubmitProposal True blk])"
    by (simp add: w4_def m3_def m5_def blk_def sample_world_def sample_defs)
  have w5: "world_after w4 (m5, [SubmitProposal True blk]) [] = w5"
    by (simp add: w5_def w4_def w3_def world_after_def sample_world_def)
  have f3: "m_fetchingTxs (w_mgr w3)" by (simp add: w3_def m3_def)
  have r5: "run (sealer_step sample_ci) w3 [Fetched sample_answer, Pass (\<lambda>_. False) 7 8 9 9] w5"
    using sealer_step.fetched [of w3 sample_ci sample_answer] sealer_step.pass [OF p4] w4 w5 f3
    by (auto intro!: sealer_run_cons run_nil)
  have r7: "run (sealer_step sample_ci) w5 [Reset, PoolRun (\<lambda>r. r < 2) 0] w7"
    by (rule sealer_run_cons [OF sealer_step.reset sealer_run_cons [OF sealer_step.pool_run]])
      (simp_all add: w7_def w5_def w4_def w3_def m5_def sample_world_def sample_defs run_nil)
  have "run (sealer_step sample_ci) sample_world ([Notify 0 2 3 1, Unsealed 5, Fetch] @ [Fetched sample_answer,
     Pass (\<lambda>_. False) 7 8 9 9] @ [Reset, PoolRun (\<lambda>r. r < 2) 0]) w7"
    by (intro run_append [OF r3] run_append [OF r5] r7)
  then show ?thesis
    by (intro exI [of _ w7]) (simp add: w7_def w5_def w4_def w3_def m5_def blk_def sample_world_def new_sealing_manager_def
        pending_hashes_def block_hashes_def)
qed


text \<open>
  C18: a generated proposal has a number above the committed one and not before the start of
  the requested interval; it is beyond the end of the interval only if it is the block right
  after the committed one.  The proposal holds at most the maximal number of
  transactions, takes system transactions first and each queue in order, and is flagged
  exactly when it contains system transactions; the next number to seal is its successor.
\<close>

theorem proposal_well_formed:
  assumes "generateProposal utc now m = (c, Some blk, m', calls)"
  shows "m_currentNumber m < b_number blk \<and> m_startSealingNumber m \<le> b_number blk \<and>
    (b_number blk \<le> m_endSealingNumber m \<or> b_number blk = m_currentNumber m + 1) \<and>
    length (b_metas blk) \<le> m_maxTxsPerBlock m \<and>
    (\<exists>sys txs. b_metas blk = sys @ txs \<and> m_pendingSysTxs m = sys @ m_pendingSysTxs m' \<and>
       m_pendingTxs m = txs @ m_pendingTxs m' \<and> (c \<longleftrightarrow> sys \<noteq> []) \<and>
       (txs \<noteq> [] \<longrightarrow> m_pendingSysTxs m' = [])) \<and>
    m_sealingNumber m' = b_number blk + 1"
proof -
  note g = generate_cases [OF assms]
  define n where "n = min (m_maxTxsPerBlock m) (length (m_pendingTxs m) + length (m_pendingSysTxs m))"
  define k where "k = min n (length (m_pendingSysTxs m))"
  have range: "m_startSealingNumber m \<le> m_sealingNumber m" "m_sealingNumber m \<le> m_endSealingNumber m"
    using g(1) by (auto simp: shouldGenerateProposal_def split: if_splits)
  have b: "b_number blk = max (m_sealingNumber m) (m_currentNumber m + 1)"
    "b_metas blk = take k (m_pendingSysTxs m) @ take (n - k) (m_pendingTxs m)"
    "m_pendingSysTxs m' = drop k (m_pendingSysTxs m)" "m_pendingTxs m' = drop (n - k) (m_pendingTxs m)"
    "m_sealingNumber m' = b_number blk + 1" "c = (k > 0)"
    using g(3) by (auto simp: seal_block_def Let_def n_def k_def)
  have k: "k \<le> n" "k \<le> length (m_pendingSysTxs m)" "n \<le> m_maxTxsPerBlock m"
    unfolding k_def n_def by linarith+
  let ?sys = "take k (m_pendingSysTxs m)" and ?txs = "take (n - k) (m_pendingTxs m)"
  have "?txs \<noteq> [] \<longrightarrow> m_pendingSysTxs m' = []" using b(3) by (auto simp: k_def)
  moreover have "c \<longleftrightarrow> ?sys \<noteq> []" using b(6) k(2) by auto
  ultimately have "\<exists>sys txs. b_metas blk = sys @ txs \<and> m_pendingSysTxs m = sys @ m_pendingSysTxs m' \<and>
       m_pendingTxs m = txs @ m_pendingTxs m' \<and> (c \<longleftrightarrow> sys \<noteq> []) \<and> (txs \<noteq> [] \<longrightarrow> m_pendingSysTxs m' = [])"
    using b(2-4) by (intro exI [of _ ?sys] exI [of _ ?txs]) simp
  moreover have "length (b_metas blk) \<le> m_maxTxsPerBlock m" using b(2) k by simp
  ultimately show ?thesis using range b(1,5) by auto
qed

definition sample_mgr :: sealing_manager where
  "sample_mgr =
     new_sealing_manager\<lparr>m_pendingTxs := [\<lparr>md_hash = [2], md_to = []\<rparr>],
       m_pendingSysTxs := [\<lparr>md_hash = [1], md_to = []\<rparr>], m_sealingNumber := 5,
       m_startSealingNumber := 5, m_endSealingNumber := 6, m_maxTxsPerBlock := 2\<rparr>"

theorem proposal_well_formed_witness:
  "\<exists>c blk m' calls. generateProposal 7 9 sample_mgr = (c, Some blk, m', calls) \<and>
     m_currentNumber sample_mgr < b_number blk \<and> length (b_metas blk) \<le> 2"
proof -
  obtain c blk m' calls where g: "generateProposal 7 9 sample_mgr = (c, Some blk, m', calls)"
    by (simp add: generateProposal_def shouldGenerateProposal_def sample_mgr_def new_sealing_manager_def
        pendingTxsSize_def seal_block_def)
  then show ?thesis using proposal_well_formed [OF g] by (auto simp: sample_mgr_def)
qed

text \<open>
  C39: after a proposal is generated while system transactions are pending, nothing more is
  submitted to consensus until the pool of events contains a committed block number that
  reaches the number of that proposal.
\<close>

theorem system_block_waited_for:
  assumes "generateProposal utc now m = (c, Some blk, m', calls)" "m_pendingSysTxs m \<noteq> []"
    and "w_mgr w = m'" "run (sealer_step ci) w ls w'"
    and "\<forall>l \<in> set ls. \<not> label_commits (b_number blk) l"
  shows "w_submitted w' = w_submitted w"
proof -
  have "m_waitUntil m' = b_number blk" "m_currentNumber m' < b_number blk"
    using generate_cases(3) [OF assms(1)] assms(2) by (auto simp: seal_block_def Let_def)
  then show ?thesis using waiting_run [OF assms(4) _ assms(5)] assms(3) by (simp add: waiting_def)
qed

theorem system_block_waited_for_witness:
  "\<exists>c blk m' calls w w'. generateProposal 7 9 sample_mgr = (c, Some blk, m', calls) \<and> w_mgr w = m' \<and>
     run (sealer_step sample_ci) w [Reset, Number 4] w' \<and> w_submitted w' = w_submitted w"
proof -
  obtain c blk m' calls where g: "generateProposal 7 9 sample_mgr = (c, Some blk, m', calls)" "b_number blk = 5"
    by (simp add: generateProposal_def shouldGenerateProposal_def sample_mgr_def new_sealing_manager_def
        pendingTxsSize_def seal_block_def)
  let ?w = "sample_world\<lparr>w_mgr := m'\<rparr>"
  obtain w' where r: "run (sealer_step sample_ci) ?w [Reset, Number 4] w'"
    by (blast intro: run.intros sealer_step.intros)
  have "w_submitted w' = w_submitted ?w"
    by (rule system_block_waited_for [OF g(1) _ _ r]) (simp_all add: sample_mgr_def g(2))
  moreover have "w_mgr ?w = m'" by simp
  ultimately show ?thesis using g(1) r by blast
qed

text \<open>
  A pass of the worker with no other thread in between and a clock that does not run
  backwards never submits a null block: the proposal that was decided on is generated.
\<close>

theorem execute_worker_never_null:
  assumes "m_lastSealTime m \<le> t2" "t2 \<le> t3"
  shows "executeWorker ci fails utc t1 t2 t3 m \<noteq> None"
proof -
  obtain m1 c1 where s1: "snd (shouldGenerateProposal t1 m) = (m1, c1)" by fastforce
  have l1: "m_lastSealTime m1 = m_lastSealTime m"
    using s1 by (auto simp: shouldGenerateProposal_def clearPendingTxs_def split: if_splits)
  obtain go m2 c2 where s2: "shouldGenerateProposal t2 m1 = (go, m2, c2)" by (metis prod_cases3)
  have "fst (snd (generateProposal utc t3 m2)) \<noteq> None" if go
  proof -
    have m2: "m2 = m1" "fst (shouldGenerateProposal t2 m1)"
      using s2 that by (auto simp: shouldGenerateProposal_def split: if_splits)
    have "unat (t2 - m_lastSealTime m1) \<le> unat (t3 - m_lastSealTime m1)"
      using assms l1 by (simp add: word_le_nat_alt unat_sub)
    then have "shouldGenerateProposal t3 m1 = (True, m1, [])"
      using m2(2) by (auto simp: shouldGenerateProposal_def reachMinSealTimeCondition_def split: if_splits)
    then show ?thesis using m2(1) by (simp add: generateProposal_def case_prod_beta)
  qed
  then show ?thesis using s1 s2
    by (auto simp: executeWorker_def submitProposal_def case_prod_beta Let_def split: option.splits)
qed

theorem execute_worker_never_null_witness:
  "executeWorker sample_ci (\<lambda>_. False) 7 8 9 9 sample_mgr \<noteq> None"
  by (rule execute_worker_never_null) (simp_all add: sample_mgr_def new_sealing_manager_def)

text \<open>
  With another thread in between this fails.  There is a state in which the worker
  decides to generate a proposal, a reset of the sealing by the consensus module follows,
  and the generation then yields a null block that the submission dereferences.
\<close>

theorem reset_between_check_and_generate_null:
  "fst (shouldGenerateProposal 9 sample_mgr) \<and>
   (let m = fst (asyncResetSealing sample_mgr); (c, blk, m', calls) = generateProposal 7 9 m in
    blk = None \<and> submitProposal sample_ci (\<lambda>_. False) m' c blk = None)"
  by (simp add: shouldGenerateProposal_def sample_mgr_def new_sealing_manager_def pendingTxsSize_def
      asyncResetSealing_def resetSealing_def clearPendingTxs_def generateProposal_def submitProposal_def)

text \<open>
  The number of transactions asked from the pool is what is missing to fill the
  remaining blocks of the interval, never negative, provided the total stays below the
  signed 64-bit limit.
\<close>

theorem expected_fetch_fills_interval:
  assumes "m_sealingNumber m \<le> m_endSealingNumber m"
    and "(m_endSealingNumber m - m_sealingNumber m + 1) * int (m_maxTxsPerBlock m) < 2 ^ 63"
    and "pendingTxsSize m < 2 ^ 63"
  shows "txsSizeExpectedToFetch m =
    max 0 ((m_endSealingNumber m - m_sealingNumber m + 1) * int (m_maxTxsPerBlock m) - int (pendingTxsSize m))"
proof -
  define a where "a = (m_endSealingNumber m - m_sealingNumber m + 1) * int (m_maxTxsPerBlock m)"
  define p where "p = int (pendingTxsSize m)"
  have b: "0 \<le> a" "a < 2 ^ 63" "0 \<le> p" "p < 2 ^ 63" using assms by (simp_all add: a_def p_def)
  have w: "word_of_int (m_endSealingNumber m - m_sealingNumber m + 1) * (of_nat (m_maxTxsPerBlock m) :: 64 word) =
    word_of_int a" "(of_nat (pendingTxsSize m) :: 64 word) = word_of_int p"
    by (simp_all add: a_def p_def)
  have "uint (word_of_int a :: 64 word) = a" "uint (word_of_int p :: 64 word) = p"
    using b by (simp_all add: uint_word_of_int)
  then have "(word_of_int a :: 64 word) \<le> word_of_int p \<longleftrightarrow> a \<le> p" by (simp add: word_le_def)
  moreover have "sint (word_of_int a - word_of_int p :: 64 word) = a - p" if "p < a"
  proof -
    have "sint (word_of_int (a - p) :: 64 word) = a - p"
      using b that by (simp del: of_int_diff add: signed_of_int signed_take_bit_int_eq_self)
    then show ?thesis by simp
  qed
  ultimately show ?thesis
    unfolding txsSizeExpectedToFetch_def Let_def w a_def [symmetric] p_def [symmetric] by auto
qed

theorem expected_fetch_fills_interval_witness:
  "txsSizeExpectedToFetch sample_mgr = 2"
  using expected_fetch_fills_interval [of sample_mgr]
  by (simp add: sample_mgr_def new_sealing_manager_def pendingTxsSize_def)

end
