(* ===== verification/Scale_Codec.thy ===== *)
theory Scale_Codec
  imports Fixed_Bytes
begin

text \<open>
  The SCALE codec \<^verbatim>\<open>libcodec/scale\<close>.  An encoder returns the bytes it appends to the
  stream; a decoder takes the unread bytes and returns a value and the rest.  Exceptions
  are values of \<^verbatim>\<open>scale_error\<close>; moving the checked span iterator past the end, which
  ends the program, is the value \<^verbatim>\<open>SpanOutOfRange\<close>.  What depends on the platform
  or on boost is a parameter: the conversion of a big integer to a size, the largest size a
  vector accepts and the number of items memory suffices for.
\<close>

unbundle bit_operations_syntax

datatype scale_error =
  ScaleEncodeException string
| ScaleDecodeException string
| StdLengthError
| SpanOutOfRange

type_synonym 'a encoder = "'a \<Rightarrow> scale_error + bytes"
type_synonym 'a decoder = "bytes \<Rightarrow> scale_error + 'a \<times> bytes"

record scale_env =
  env_to_size :: "nat \<Rightarrow> nat"
  env_max_size :: nat
  env_memory :: nat

section \<open>Encoding\<close>

definition kMinUint16 :: nat where "kMinUint16 = 2 ^ 6"
definition kMinUint32 :: nat where "kMinUint32 = 2 ^ 14"
definition kMinBigInteger :: nat where "kMinBigInteger = 2 ^ 30"

function countBytes_loop :: "nat \<Rightarrow> nat \<Rightarrow> nat" where
  "countBytes_loop counter v =
     (if v div 256 \<noteq> 0 then countBytes_loop (Suc counter) (v div 256) else Suc counter)"
  by auto
termination
  by (relation "measure snd") auto

declare countBytes_loop.simps [simp del]

definition countBytes :: "nat \<Rightarrow> nat" where
  "countBytes v = countBytes_loop 0 v"

definition compactLen :: "nat \<Rightarrow> nat" where
  "compactLen val =
     (if val < kMinUint16 then 1
      else if val < kMinUint32 then 2
      else if val < kMinBigInteger then 4
      else countBytes val)"

definition putByte :: "byte encoder" where
  "putByte v = Inr [v]"

definition encodeBool :: "bool encoder" where
  "encodeBool v = putByte (if v then 1 else 0)"

text \<open>An integer type of \<^term>\<open>sz\<close> bytes, signed or not, in little-endian order.\<close>

definition encodeInteger :: "nat \<Rightarrow> int encoder" where
  "encodeInteger sz v = Inr (le_bytes sz (nat (v mod 256 ^ sz)))"

definition encodeFirstCategory :: "nat \<Rightarrow> bytes" where
  "encodeFirstCategory v = [of_nat (v * 4)]"

definition encodeSecondCategory :: "nat \<Rightarrow> bytes" where
  "encodeSecondCategory val =
     (let v = take_bit 16 (take_bit 16 (push_bit 2 val) + 1) in
      [of_nat (v AND 0xff), of_nat (drop_bit 8 v AND 0xff)])"

definition encodeThirdCategory :: "nat \<Rightarrow> bytes" where
  "encodeThirdCategory val = le_bytes 4 (take_bit 32 (push_bit 2 val + 2))"

fun push_le_bytes :: "nat \<Rightarrow> nat \<Rightarrow> bytes" where
  "push_le_bytes 0 v = []"
| "push_le_bytes (Suc n) v = of_nat (v AND 0xff) # push_le_bytes n (drop_bit 8 v)"

definition encodeCompactInteger :: "int encoder" where
  "encodeCompactInteger value =
     (if value < 0 then
        Inl (ScaleEncodeException ''encodeCompactInteger exception for NEGATIVE_COMPACT_INTEGER'')
      else
        (let v = nat value in
         if v < kMinUint16 then Inr (encodeFirstCategory v)
         else if v < kMinUint32 then Inr (encodeSecondCategory v)
         else if v < kMinBigInteger then Inr (encodeThirdCategory v)
         else
           (let bigIntLength = countBytes v in
            if bigIntLength > 67 then
              Inl (ScaleEncodeException ''encodeCompactInteger exception for COMPACT_INTEGER_TOO_BIG'')
            else
              (let header = (of_nat ((bigIntLength - 4) * 4 + 3) :: byte) in
               Inr (header # push_le_bytes bigIntLength v)))))"

definition encode_u256 :: "nat encoder" where
  "encode_u256 v = Inr (toBigEndian_u256 v)"

definition encode_s256 :: "int encoder" where
  "encode_s256 v = encode_u256 (nat (s2u v))"

definition encodeOptionalBool :: "bool option encoder" where
  "encodeOptionalBool v =
     putByte (case v of None \<Rightarrow> 0 | Some True \<Rightarrow> 1 | Some False \<Rightarrow> 2)"

fun encode_items :: "'a encoder \<Rightarrow> 'a list encoder" where
  "encode_items enc [] = Inr []"
| "encode_items enc (x # xs) =
     bind_res (enc x) (\<lambda>b. bind_res (encode_items enc xs) (\<lambda>bs. Inr (b @ bs)))"

definition encodeCollection :: "'a encoder \<Rightarrow> 'a list encoder" where
  "encodeCollection enc c =
     bind_res (encodeCompactInteger (int (length c)))
       (\<lambda>h. bind_res (encode_items enc c) (\<lambda>bs. Inr (h @ bs)))"

definition encode_vector :: "'a encoder \<Rightarrow> 'a list encoder" where
  "encode_vector enc c = encodeCollection enc c"

definition encode_bytes :: "bytes encoder" where
  "encode_bytes c = encodeCollection putByte c"

definition encode_string :: "string encoder" where
  "encode_string sv = encodeCollection putByte (bytes_of_string sv)"

definition encode_fixed_bytes :: "bytes encoder" where
  "encode_fixed_bytes fixedData = encodeCollection putByte fixedData"

definition encode_pair :: "'a encoder \<Rightarrow> 'b encoder \<Rightarrow> ('a \<times> 'b) encoder" where
  "encode_pair ea eb p = bind_res (ea (fst p)) (\<lambda>a. bind_res (eb (snd p)) (\<lambda>b. Inr (a @ b)))"

definition encode_optional :: "'a encoder \<Rightarrow> 'a option encoder" where
  "encode_optional enc v =
     (case v of None \<Rightarrow> putByte 0
      | Some x \<Rightarrow> bind_res (putByte 1) (\<lambda>a. bind_res (enc x) (\<lambda>b. Inr (a @ b))))"

definition encode_pointer :: "'a encoder \<Rightarrow> 'a option encoder" where
  "encode_pointer enc v =
     (case v of
        None \<Rightarrow> Inl (ScaleEncodeException ''encode exception for DEREF_NULLPOINTER'')
      | Some x \<Rightarrow> enc x)"

definition encode_array :: "'a encoder \<Rightarrow> 'a list encoder" where
  "encode_array enc a = encode_items enc a"

text \<open>A map is its list of bindings in increasing order of the keys.\<close>

definition encode_map :: "'k encoder \<Rightarrow> 'v encoder \<Rightarrow> ('k \<times> 'v) list encoder" where
  "encode_map ek ev m = encodeCollection (encode_pair ek ev) m"

text \<open>A variant of two alternatives.\<close>

definition encode_variant :: "'a encoder \<Rightarrow> 'b encoder \<Rightarrow> ('a + 'b) encoder" where
  "encode_variant ea eb v =
     (case v of
        Inl x \<Rightarrow> bind_res (putByte 0) (\<lambda>i. bind_res (ea x) (\<lambda>b. Inr (i @ b)))
      | Inr y \<Rightarrow> bind_res (putByte 1) (\<lambda>i. bind_res (eb y) (\<lambda>b. Inr (i @ b))))"

section \<open>Decoding\<close>

definition hasMore :: "nat \<Rightarrow> bytes \<Rightarrow> bool" where
  "hasMore n s = (n \<le> length s)"

fun nextByte :: "byte decoder" where
  "nextByte [] = Inl (ScaleDecodeException ''nextByte exception for NOT_ENOUGH_DATA'')"
| "nextByte (b # s) = Inr (b, s)"

definition decodeBool :: "bool decoder" where
  "decodeBool s =
     bind_res (nextByte s) (\<lambda>(b, s').
       if b = 0 then Inr (False, s')
       else if b = 1 then Inr (True, s')
       else Inl (ScaleDecodeException ''decodeBool exception for UNEXPECTED_VALUE''))"

definition decodeOptionalBool :: "bool option decoder" where
  "decodeOptionalBool s =
     bind_res (nextByte s) (\<lambda>(b, s').
       if b = 0 then Inr (None, s')
       else if b = 2 then Inr (Some False, s')
       else if b = 1 then Inr (Some True, s')
       else Inl (ScaleDecodeException ''decodeOptionalBool exception for unexpected value''))"

text \<open>The loop adds the bytes times powers of 256 in 64-bit arithmetic.\<close>

fun decodeInteger_loop :: "nat \<Rightarrow> nat \<Rightarrow> 64 word \<Rightarrow> (64 word) decoder" where
  "decodeInteger_loop i 0 v s = Inr (v, s)"
| "decodeInteger_loop i (Suc n) v s =
     bind_res (nextByte s) (\<lambda>(b, s').
       decodeInteger_loop (Suc i) n (v + 256 ^ i * of_nat (unat b)) s')"

text \<open>
  The result is converted to the integer type: a value below the sign bit is itself; above
  it, the negation of the two's complement cut to the width.
\<close>

definition decodeInteger :: "bool \<Rightarrow> nat \<Rightarrow> int decoder" where
  "decodeInteger sgnd sz s =
     (if \<not> hasMore sz s then
        Inl (ScaleDecodeException ''decodeInteger exception for NOT_ENOUGH_DATA'')
      else
        bind_res (decodeInteger_loop 0 sz 0 s) (\<lambda>(v, s').
          if \<not> sgnd \<or> uint v < 2 ^ (8 * sz - 1) then Inr (uint v, s')
          else Inr (signed_take_bit (8 * sz - 1)
                 (- signed_take_bit (8 * sz - 1) (uint (NOT v + 1))), s')))"

fun compact_third_loop :: "nat \<Rightarrow> nat \<Rightarrow> nat \<Rightarrow> nat decoder" where
  "compact_third_loop 0 multiplier number s = Inr (number, s)"
| "compact_third_loop (Suc i) multiplier number s =
     bind_res (nextByte s) (\<lambda>(b, s').
       compact_third_loop i (push_bit 8 multiplier) (number + unat b * multiplier) s')"

fun compact_big_loop :: "nat \<Rightarrow> nat \<Rightarrow> nat \<Rightarrow> nat decoder" where
  "compact_big_loop 0 multiplier value s = Inr (value, s)"
| "compact_big_loop (Suc i) multiplier value s =
     bind_res (nextByte s) (\<lambda>(b, s').
       compact_big_loop i (multiplier * 256) (value + unat b * multiplier) s')"

definition decodeCompactInteger :: "nat decoder" where
  "decodeCompactInteger s =
     bind_res (nextByte s) (\<lambda>(first_byte, s1).
       (let flag = first_byte AND 3 in
        if flag = 0 then Inr (unat (drop_bit 2 first_byte), s1)
        else if flag = 1 then
          bind_res (nextByte s1) (\<lambda>(second_byte, s2).
            Inr (drop_bit 2 (unat (first_byte AND 0xfc) + unat second_byte * 256), s2))
        else if flag = 2 then
          (if \<not> hasMore 3 s1 then
             Inl (ScaleDecodeException ''decodeOptionalBool exception for not enough data'')
           else
             bind_res (compact_third_loop 3 256 (unat first_byte) s1) (\<lambda>(number, s2).
               Inr (drop_bit 2 number, s2)))
        else
          (let bytes_count = unat (drop_bit 2 first_byte) + 4 in
           if \<not> hasMore bytes_count s1 then
             Inl (ScaleDecodeException ''decodeCompactInteger exception for not enough data'')
           else compact_big_loop bytes_count 1 0 s1)))"

definition decode_u256 :: "nat decoder" where
  "decode_u256 s =
     (if 32 \<le> length s then Inr (fromBigEndian 256 (take 32 s), drop 32 s) else Inl SpanOutOfRange)"

definition decode_s256 :: "int decoder" where
  "decode_s256 s = bind_res (decode_u256 s) (\<lambda>(u, s'). Inr (u2s (int u), s'))"

text \<open>
  \<^verbatim>\<open>vector::resize\<close>: above the maximal size the library throws a length error, which
  the decoder does not catch; failure to allocate becomes a decoding exception.
\<close>

definition alloc_items :: "scale_env \<Rightarrow> nat \<Rightarrow> scale_error + unit" where
  "alloc_items env n =
     (if n > env_max_size env then Inl StdLengthError
      else if n > env_memory env then
        Inl (ScaleDecodeException (''exception for TOO_MANY_ITEMS: '' @ to_string n))
      else Inr ())"

fun decode_items :: "nat \<Rightarrow> 'a decoder \<Rightarrow> 'a list decoder" where
  "decode_items 0 dec s = Inr ([], s)"
| "decode_items (Suc n) dec s =
     bind_res (dec s) (\<lambda>(x, s1). bind_res (decode_items n dec s1) (\<lambda>(xs, s2). Inr (x # xs, s2)))"

text \<open>The vector of items larger than a byte, and the byte vector copied in one piece.\<close>

definition decode_vector :: "scale_env \<Rightarrow> 'a decoder \<Rightarrow> 'a list decoder" where
  "decode_vector env dec s =
     bind_res (decodeCompactInteger s) (\<lambda>(cnt, s1).
       (let item_count = env_to_size env cnt in
        bind_res (alloc_items env item_count) (\<lambda>_. decode_items item_count dec s1)))"

definition decode_bytes :: "scale_env \<Rightarrow> bytes decoder" where
  "decode_bytes env s =
     bind_res (decodeCompactInteger s) (\<lambda>(cnt, s1).
       (let item_count = env_to_size env cnt in
        bind_res (alloc_items env item_count) (\<lambda>_.
          if item_count \<le> length s1 then Inr (take item_count s1, drop item_count s1)
          else Inl SpanOutOfRange)))"

definition decode_string :: "scale_env \<Rightarrow> string decoder" where
  "decode_string env s = bind_res (decode_bytes env s) (\<lambda>(bs, s'). Inr (string_of_bytes bs, s'))"

definition decode_fixed_bytes :: "scale_env \<Rightarrow> nat \<Rightarrow> bytes decoder" where
  "decode_fixed_bytes env n s =
     bind_res (decode_bytes env s) (\<lambda>(bs, s').
       if length bs < n then
         Inl (ScaleDecodeException (''exception for invalid FixedBytes, expected size:'' @ to_string n @
           '', decoded data size:'' @ to_string (length bs)))
       else Inr (take n bs, s'))"

definition decode_pair :: "'a decoder \<Rightarrow> 'b decoder \<Rightarrow> ('a \<times> 'b) decoder" where
  "decode_pair da db s =
     bind_res (da s) (\<lambda>(a, s1). bind_res (db s1) (\<lambda>(b, s2). Inr ((a, b), s2)))"

definition decode_optional :: "'a decoder \<Rightarrow> 'a option decoder" where
  "decode_optional dec s =
     bind_res (decodeBool s) (\<lambda>(has_value, s1).
       if \<not> has_value then Inr (None, s1)
       else bind_res (dec s1) (\<lambda>(x, s2). Inr (Some x, s2)))"

definition decode_pointer :: "'a decoder \<Rightarrow> 'a option decoder" where
  "decode_pointer dec s = bind_res (dec s) (\<lambda>(x, s'). Inr (Some x, s'))"

definition decode_array :: "nat \<Rightarrow> 'a decoder \<Rightarrow> 'a list decoder" where
  "decode_array n dec s = decode_items n dec s"

text \<open>\<^verbatim>\<open>std::map::emplace\<close> keeps the first binding of a key.\<close>

definition map_emplace :: "('k :: linorder) \<times> 'v \<Rightarrow> ('k \<times> 'v) list \<Rightarrow> ('k \<times> 'v) list" where
  "map_emplace p m = (if map_of m (fst p) = None then insort_key fst p m else m)"

fun decode_map_loop ::
    "nat \<Rightarrow> (('k :: linorder) \<times> 'v) decoder \<Rightarrow> ('k \<times> 'v) list \<Rightarrow> ('k \<times> 'v) list decoder" where
  "decode_map_loop 0 dec m s = Inr (m, s)"
| "decode_map_loop (Suc n) dec m s =
     bind_res (dec s) (\<lambda>(p, s1). decode_map_loop n dec (map_emplace p m) s1)"

definition decode_map ::
    "scale_env \<Rightarrow> ('k :: linorder) decoder \<Rightarrow> 'v decoder \<Rightarrow> ('k \<times> 'v) list decoder" where
  "decode_map env dk dv s =
     bind_res (decodeCompactInteger s) (\<lambda>(cnt, s1).
       decode_map_loop (env_to_size env cnt) (decode_pair dk dv) [] s1)"

definition decode_variant :: "'a decoder \<Rightarrow> 'b decoder \<Rightarrow> ('a + 'b) decoder" where
  "decode_variant da db s =
     bind_res (nextByte s) (\<lambda>(type_index, s1).
       if unat type_index \<ge> 2 then Inl (ScaleDecodeException ''exception for WRONG_TYPE_INDEX'')
       else if type_index = 0 then bind_res (da s1) (\<lambda>(x, s2). Inr (Inl x, s2))
       else bind_res (db s1) (\<lambda>(y, s2). Inr (Inr y, s2)))"

end
