(* ===== verification/Scale_Props.thy ===== *)
theory Scale_Props
  imports Scale_Codec
begin

text \<open>
  Round trips of the SCALE codec.  Each primitive is shown to be a stream codec; the
  combinators for pairs, optionals, arrays, vectors and maps turn stream codecs into stream
  codecs, so that every composite type of the protocol objects inherits the law.
\<close>

unbundle bit_operations_syntax

section \<open>Bytes and bits\<close>

lemma unat_and_3: "unat ((b :: byte) AND 3) = unat b mod 4"
proof -
  have "b AND 3 = take_bit 2 b" using take_bit_eq_mask [of 2 b] by (simp add: mask_eq_exp_minus_1)
  then show ?thesis by (simp only: unsigned_take_bit_eq) (simp add: take_bit_eq_mod)
qed

lemma unat_drop_2: "unat (drop_bit 2 (b :: byte)) = unat b div 4"
  by (simp only: unsigned_drop_bit_eq) (simp add: drop_bit_eq_div take_bit_eq_mod)

lemma unat_and_fc: "unat ((b :: byte) AND 0xfc) = 4 * (unat b div 4)"
proof -
  have m: "(0xfc :: byte) = push_bit 2 (mask 6)" by (simp add: mask_eq_exp_minus_1 push_bit_eq_mult)
  have "b AND 0xfc = push_bit 2 (drop_bit 2 b)"
  proof (rule bit_eqI)
    fix n
    assume "possible_bit TYPE(byte) n"
    then have "n < 8" by simp
    then show "bit (b AND 0xfc) n \<longleftrightarrow> bit (push_bit 2 (drop_bit 2 b)) n"
      unfolding m by (cases "2 \<le> n")
        (auto simp: bit_and_iff bit_push_bit_iff bit_drop_bit_eq bit_mask_iff le_iff_add)
  qed
  then have "unat (b AND 0xfc) = take_bit 8 (push_bit 2 (take_bit 8 (unat b) div 4))"
    by (simp only: unsigned_push_bit_eq unsigned_drop_bit_eq) (simp add: drop_bit_eq_div)
  also have "\<dots> = 4 * (unat b div 4)"
  proof -
    have "unat b div 4 * 4 < 256" using unat_byte_less [of b] by linarith
    then show ?thesis by (simp add: push_bit_eq_mult take_bit_eq_mod)
  qed
  finally show ?thesis .
qed

lemma byte_eq_iff: "(x :: byte) = y \<longleftrightarrow> unat x = unat y"
  by (rule word_unat_eq_iff)

lemma and_ff: "of_nat ((v :: nat) AND 0xff) = (of_nat (v mod 256) :: byte)"
  using take_bit_eq_mask [of 8 v] by (simp add: mask_eq_exp_minus_1 take_bit_eq_mod)

lemma push_le_bytes_eq: "push_le_bytes n v = le_bytes n v"
  by (induction n arbitrary: v) (simp_all add: and_ff drop_bit_eq_div)

section \<open>Compact integers\<close>

lemma countBytes_loop_bounds:
  "\<exists>n. countBytes_loop c v = c + n \<and> 1 \<le> n \<and> v < 256 ^ n \<and> (n = 1 \<or> 256 ^ (n - 1) \<le> v)"
proof (induction c v rule: countBytes_loop.induct)
  case (1 c v)
  show ?case
  proof (cases "v div 256 = 0")
    case True
    then have "v < 256" by (simp add: div_eq_0_iff)
    with True show ?thesis by (intro exI [of _ 1]) (simp add: countBytes_loop.simps)
  next
    case False
    with 1 obtain n where n: "countBytes_loop (Suc c) (v div 256) = Suc c + n" "1 \<le> n"
      "v div 256 < 256 ^ n" "n = 1 \<or> 256 ^ (n - 1) \<le> v div 256" by auto
    have "256 ^ n \<le> v"
    proof (cases "n = 1")
      case True
      then show ?thesis using False by (simp add: div_eq_0_iff)
    next
      case False
      then have "256 ^ (n - 1) * 256 \<le> v" using n(4) by (simp add: less_eq_div_iff_mult_less_eq)
      then show ?thesis using n(2) by (simp add: power_eq_if mult.commute)
    qed
    moreover have "v < 256 ^ Suc n" using n(3) by (simp add: div_less_iff_less_mult)
    ultimately show ?thesis using n(1) False
      by (intro exI [of _ "Suc n"]) (simp add: countBytes_loop.simps [of c v])
  qed
qed

lemma countBytes_bounds: "1 \<le> countBytes v" "v < 256 ^ countBytes v"
  "countBytes v = 1 \<or> 256 ^ (countBytes v - 1) \<le> v"
  using countBytes_loop_bounds [of 0 v] by (auto simp: countBytes_def)

lemma countBytes_le: "v < 256 ^ n \<Longrightarrow> 1 \<le> n \<Longrightarrow> countBytes v \<le> n"
proof (rule ccontr)
  assume a: "v < 256 ^ n" "1 \<le> n" "\<not> countBytes v \<le> n"
  then have "(256 :: nat) ^ n \<le> 256 ^ (countBytes v - 1)" by (intro power_increasing) simp_all
  moreover have "256 ^ (countBytes v - 1) \<le> v" using a countBytes_bounds(3) [of v] by auto
  ultimately show False using a(1) order_trans not_le by blast
qed

lemma countBytes_ge_4: "kMinBigInteger \<le> v \<Longrightarrow> 4 \<le> countBytes v"
proof (rule ccontr)
  assume a: "kMinBigInteger \<le> v" "\<not> 4 \<le> countBytes v"
  then have "(256 :: nat) ^ countBytes v \<le> 256 ^ 3" by (intro power_increasing) simp_all
  then have "v < 256 ^ 3" using countBytes_bounds(2) [of v] by (rule order_less_le_trans [rotated])
  with a show False by (simp add: kMinBigInteger_def)
qed

lemma compact_big_loop_eq:
  "n \<le> length s \<Longrightarrow>
   compact_big_loop n mul val s = Inr (val + mul * le_val (take n s), drop n s)"
proof (induction n arbitrary: mul val s)
  case (Suc n)
  then obtain b s' where "s = b # s'" by (cases s) auto
  with Suc show ?case by (simp add: algebra_simps)
qed simp

lemma compact_third_loop_eq: "compact_third_loop n mul val s = compact_big_loop n mul val s"
proof (induction n arbitrary: mul val s)
  case (Suc n)
  then show ?case by (cases s) (simp_all add: push_bit_eq_mult)
qed simp

lemma decodeCompact_Cons:
  "decodeCompactInteger (b # s) =
     (let n = unat b in
      if n mod 4 = 0 then Inr (n div 4, s)
      else if n mod 4 = 1 then
        bind_res (nextByte s) (\<lambda>(c, s'). Inr (n div 4 + unat c * 64, s'))
      else if n mod 4 = 2 then
        (if 3 \<le> length s then Inr ((n + 256 * le_val (take 3 s)) div 4, drop 3 s)
         else Inl (ScaleDecodeException ''decodeOptionalBool exception for not enough data''))
      else
        (if n div 4 + 4 \<le> length s then Inr (le_val (take (n div 4 + 4) s), drop (n div 4 + 4) s)
         else Inl (ScaleDecodeException ''decodeCompactInteger exception for not enough data'')))"
proof -
  have "drop_bit 2 (unat (b AND 0xfc) + unat c * 256) = unat b div 4 + unat c * 64" for c :: byte
    by (simp add: unat_and_fc drop_bit_eq_div)
  then show ?thesis
    unfolding decodeCompactInteger_def nextByte.simps bind_res_simps prod.case Let_def byte_eq_iff
      unat_and_3 unat_drop_2 hasMore_def compact_third_loop_eq
    by (simp add: compact_big_loop_eq drop_bit_eq_div)
qed

lemma unat_of_nat_byte: "n < 256 \<Longrightarrow> unat (of_nat n :: byte) = n"
  by (simp add: unat_of_nat take_bit_eq_mod)

lemma compact_first: "v < kMinUint16 \<Longrightarrow> decodeCompactInteger (encodeFirstCategory v @ s) = Inr (v, s)"
  using unat_of_nat_byte [of "v * 4"]
  by (simp add: encodeFirstCategory_def decodeCompact_Cons kMinUint16_def del: of_nat_mult)

lemma div_4_split: "x mod 256 div 4 + x div 256 * 64 = x div (4 :: nat)"
proof -
  have "x mod 256 div 4 + x div 256 * 64 = (x mod 256 + 4 * (x div 256 * 64)) div 4"
    by (subst div_mult_self2) simp_all
  also have "x mod 256 + 4 * (x div 256 * 64) = x" by (simp add: mult.commute)
  finally show ?thesis .
qed

lemma compact_second: "v < kMinUint32 \<Longrightarrow> decodeCompactInteger (encodeSecondCategory v @ s) = Inr (v, s)"
proof -
  assume v: "v < kMinUint32"
  define x where "x = 4 * v + 1"
  have x: "x < 65536" "x mod 4 = 1" "x div 4 = v" using v by (simp_all add: x_def kMinUint32_def)
  have e: "encodeSecondCategory v = [of_nat (x mod 256), of_nat (x div 256)]"
    using x(1) by (simp add: encodeSecondCategory_def and_ff drop_bit_eq_div push_bit_eq_mult
        take_bit_eq_mod x_def mult.commute)
  have u: "unat (of_nat (x div 256) :: byte) = x div 256"
    using x(1) by (intro unat_of_nat_byte) simp
  have "x mod 256 mod 4 = 1" using x(2) by (simp add: mod_mod_cancel)
  then show ?thesis using div_4_split [of x] x(3) by (simp add: e decodeCompact_Cons u Let_def)
qed

lemma compact_third: "v < kMinBigInteger \<Longrightarrow> decodeCompactInteger (encodeThirdCategory v @ s) = Inr (v, s)"
proof -
  assume v: "v < kMinBigInteger"
  define x where "x = 4 * v + 2"
  have x: "x < 256 ^ 4" using v by (simp add: x_def kMinBigInteger_def)
  have x4: "x mod 4 = 2" "x div 4 = v" unfolding x_def by presburger+
  have e: "encodeThirdCategory v = of_nat (x mod 256) # le_bytes 3 (x div 256)"
  proof -
    have "encodeThirdCategory v = le_bytes (Suc 3) x"
      using x by (simp add: encodeThirdCategory_def push_bit_eq_mult take_bit_eq_mod x_def mult.commute
          del: le_bytes.simps)
    then show ?thesis by (simp only: le_bytes.simps)
  qed
  have "x div 256 < 256 ^ 3" using x by (simp add: div_less_iff_less_mult)
  then have "le_val (le_bytes 3 (x div 256)) = x div 256" by simp
  moreover have "x mod 256 mod 4 = 2" using x4(1) by (simp add: mod_mod_cancel)
  moreover have "(x mod 256 + 256 * (x div 256)) div 4 = v" using x4(2) by simp
  ultimately show ?thesis by (simp add: e decodeCompact_Cons Let_def)
qed

lemma compact_fourth:
  assumes "kMinBigInteger \<le> v" "countBytes v \<le> 67"
  shows "decodeCompactInteger (of_nat ((countBytes v - 4) * 4 + 3) # push_le_bytes (countBytes v) v @ s) = Inr (v, s)"
proof -
  let ?n = "countBytes v"
  have n: "4 \<le> ?n" by (rule countBytes_ge_4 [OF assms(1)])
  have "(?n - 4) * 4 + 3 < 256" using assms(2) by simp
  then have u: "unat (of_nat ((?n - 4) * 4 + 3) :: byte) = (?n - 4) * 4 + 3" by (rule unat_of_nat_byte)
  have m: "((?n - 4) * 4 + 3) mod 4 = 3" "((?n - 4) * 4 + 3) div 4 + 4 = ?n" using n by simp_all
  have "le_val (le_bytes ?n v) = v" using countBytes_bounds(2) [of v] by simp
  then show ?thesis
    unfolding decodeCompact_Cons Let_def u m push_le_bytes_eq by simp
qed

definition compact_dom :: "nat \<Rightarrow> bool" where
  "compact_dom v = (v < 256 ^ 67)"

lemma compact_round_trip:
  assumes "compact_dom v"
  shows "\<exists>bs. encodeCompactInteger (int v) = Inr bs \<and> (\<forall>s. decodeCompactInteger (bs @ s) = Inr (v, s))"
proof -
  have "countBytes v \<le> 67" using assms by (intro countBytes_le) (simp_all add: compact_dom_def)
  then show ?thesis
    using compact_first [of v] compact_second [of v] compact_third [of v] compact_fourth [of v]
    by (auto simp: encodeCompactInteger_def Let_def not_less)
qed

lemma compact_too_big: "256 ^ 67 \<le> v \<Longrightarrow> 67 < countBytes v"
proof (rule ccontr)
  assume a: "256 ^ 67 \<le> v" "\<not> 67 < countBytes v"
  then have "(256 :: nat) ^ countBytes v \<le> 256 ^ 67" by (intro power_increasing) simp_all
  with a(1) countBytes_bounds(2) [of v] show False by (meson leD order_less_le_trans)
qed

section \<open>Integers of fixed width\<close>

lemma decodeInteger_loop_eq:
  "n \<le> length s \<Longrightarrow>
   decodeInteger_loop i n v s = Inr (v + 256 ^ i * of_nat (le_val (take n s)), drop n s)"
proof (induction n arbitrary: i v s)
  case (Suc n)
  then obtain b s' where "s = b # s'" by (cases s) auto
  with Suc show ?case by (simp add: algebra_simps)
qed simp

definition int_dom :: "bool \<Rightarrow> nat \<Rightarrow> int \<Rightarrow> bool" where
  "int_dom sgnd sz v =
     (1 \<le> sz \<and> sz \<le> 8 \<and>
      (if sgnd then - (2 ^ (8 * sz - 1)) \<le> v \<and> v < 2 ^ (8 * sz - 1) else 0 \<le> v \<and> v < 2 ^ (8 * sz)))"

lemma signed_take_bit_neg_neg:
  assumes "k < 64"
  shows "signed_take_bit k (- signed_take_bit k (uint (NOT w + 1 :: 64 word))) = signed_take_bit k (uint w)"
proof -
  have "NOT w + 1 = (word_of_int (- uint w) :: 64 word)" by (simp add: minus_eq_not_plus_1 [symmetric])
  then have "uint (NOT w + 1) = take_bit 64 (- uint w)" by (simp only: unsigned_of_int) simp
  then have "signed_take_bit k (uint (NOT w + 1)) = signed_take_bit k (- uint w)"
    using assms by (simp only: signed_take_bit_take_bit) simp
  then show ?thesis by (simp only: signed_take_bit_minus) simp
qed

lemma decodeInteger_encode:
  assumes "int_dom sgnd sz v"
  shows "decodeInteger sgnd sz (le_bytes sz (nat (v mod 256 ^ sz)) @ s) = Inr (v, s)"
proof -
  let ?u = "v mod 256 ^ sz" and ?w = "word_of_int (v mod 256 ^ sz) :: 64 word"
  have sz: "1 \<le> sz" "sz \<le> 8" using assms by (simp_all add: int_dom_def)
  have p: "(256 :: int) ^ sz = 2 ^ (8 * sz)" by (simp add: power_mult)
  have "(2 :: int) ^ (8 * sz) \<le> 2 ^ 64" using sz by (intro power_increasing) simp_all
  moreover have u: "0 \<le> ?u" "?u < 2 ^ (8 * sz)" unfolding p by simp_all
  ultimately have u64: "?u < 2 ^ 64" by linarith
  have w: "uint ?w = ?u"
    using u(1) u64 by (simp add: unsigned_of_int take_bit_int_eq_self)
  have "nat ?u < 256 ^ sz" using u by (simp add: nat_less_iff p)
  then have "nat ?u mod 256 ^ sz = nat ?u" by simp
  then have dec: "decodeInteger sgnd sz (le_bytes sz (nat ?u) @ s) =
    (if \<not> sgnd \<or> ?u < 2 ^ (8 * sz - 1) then Inr (?u, s)
     else Inr (signed_take_bit (8 * sz - 1) (- signed_take_bit (8 * sz - 1) (uint (NOT ?w + 1))), s))"
    by (simp add: decodeInteger_def hasMore_def decodeInteger_loop_eq w)
  have "\<not> 8 * sz \<le> 8 * sz - 1" using sz by linarith
  then have "signed_take_bit (8 * sz - 1) ?u = signed_take_bit (8 * sz - 1) v"
    unfolding p take_bit_eq_mod [symmetric] by (simp only: signed_take_bit_take_bit if_False)
  then have neg: "signed_take_bit (8 * sz - 1) (- signed_take_bit (8 * sz - 1) (uint (NOT ?w + 1))) =
    signed_take_bit (8 * sz - 1) v"
    using signed_take_bit_neg_neg [of "8 * sz - 1" ?w] sz w by simp
  show ?thesis
  proof (cases sgnd)
    case False
    then have "?u = v" using assms unfolding p by (simp add: int_dom_def)
    then show ?thesis using dec False by simp
  next
    case True
    have range: "- (2 ^ (8 * sz - 1)) \<le> v" "v < 2 ^ (8 * sz - 1)" using assms True by (simp_all add: int_dom_def)
    have h: "(2 :: int) ^ (8 * sz) = 2 * 2 ^ (8 * sz - 1)"
      using sz by (simp add: power_Suc [symmetric] del: power_Suc)
    have sv: "signed_take_bit (8 * sz - 1) v = v" using range by (rule signed_take_bit_int_eq_self)
    show ?thesis
    proof (cases "0 \<le> v")
      case True
      then have "?u = v" using range(2) h unfolding p by simp
      then show ?thesis using dec range(2) by simp
    next
      case False
      have "?u = (v + 2 ^ (8 * sz)) mod 2 ^ (8 * sz)" unfolding p by simp
      also have "\<dots> = v + 2 ^ (8 * sz)" using False range(1) h by (intro mod_pos_pos_trivial) auto
      finally have "?u = v + 2 ^ (8 * sz)" .
      then show ?thesis using dec neg sv range(1) h \<open>sgnd\<close> by simp
    qed
  qed
qed

section \<open>Codecs and combinators\<close>

locale scale_codec = stream_codec enc dec dom
  for enc :: "'a encoder" and dec :: "'a decoder" and dom :: "'a \<Rightarrow> bool"
begin

lemma items:
  "\<forall>x \<in> set xs. dom x \<Longrightarrow>
   \<exists>bs. encode_items enc xs = Inr bs \<and> (\<forall>s. decode_items (length xs) dec (bs @ s) = Inr (xs, s))"
proof (induction xs)
  case (Cons x xs)
  then obtain bs where bs: "encode_items enc xs = Inr bs"
    "\<forall>s. decode_items (length xs) dec (bs @ s) = Inr (xs, s)" by auto
  obtain b where b: "enc x = Inr b" using Cons.prems enc_ok by auto
  have "dec (b @ s) = Inr (x, s)" for s using Cons.prems b dec_enc by auto
  then show ?case using b bs by (intro exI [of _ "b @ bs"]) simp
qed simp

lemma array_codec:
  "scale_codec (encode_array enc) (decode_array n dec) (\<lambda>xs. length xs = n \<and> (\<forall>x \<in> set xs. dom x))"
proof
  fix xs :: "'a list"
  assume d: "length xs = n \<and> (\<forall>x \<in> set xs. dom x)"
  then show "\<exists>bs. encode_array enc xs = Inr bs" using items [of xs] by (auto simp: encode_array_def)
  fix bs rest
  assume "encode_array enc xs = Inr bs"
  then show "decode_array n dec (bs @ rest) = Inr (xs, rest)"
    using d items [of xs] by (auto simp: encode_array_def decode_array_def)
qed

lemma optional_codec:
  "scale_codec (encode_optional enc) (decode_optional dec) (\<lambda>v. \<forall>x. v = Some x \<longrightarrow> dom x)"
proof
  fix v :: "'a option"
  assume d: "\<forall>x. v = Some x \<longrightarrow> dom x"
  then show "\<exists>bs. encode_optional enc v = Inr bs"
    using enc_ok by (cases v) (fastforce simp: encode_optional_def putByte_def)+
  fix bs rest
  assume e: "encode_optional enc v = Inr bs"
  show "decode_optional dec (bs @ rest) = Inr (v, rest)"
  proof (cases v)
    case None
    then show ?thesis using e by (auto simp: encode_optional_def putByte_def decode_optional_def decodeBool_def)
  next
    case (Some x)
    then obtain b where b: "enc x = Inr b" using d enc_ok by auto
    then have "dec (b @ rest) = Inr (x, rest)" using Some d dec_enc by auto
    then show ?thesis using e b Some
      by (auto simp: encode_optional_def putByte_def decode_optional_def decodeBool_def)
  qed
qed

lemma pointer_codec:
  "scale_codec (encode_pointer enc) (decode_pointer dec) (\<lambda>v. \<exists>x. v = Some x \<and> dom x)"
proof
  fix v :: "'a option"
  assume "\<exists>x. v = Some x \<and> dom x"
  then obtain x where x: "v = Some x" "dom x" by blast
  then show "\<exists>bs. encode_pointer enc v = Inr bs" using enc_ok by (simp add: encode_pointer_def)
  fix bs rest
  assume "encode_pointer enc v = Inr bs"
  then show "decode_pointer dec (bs @ rest) = Inr (v, rest)"
    using x dec_enc by (auto simp: encode_pointer_def decode_pointer_def)
qed

end

lemma pair_codec:
  assumes "scale_codec ea da A" "scale_codec eb db B"
  shows "scale_codec (encode_pair ea eb) (decode_pair da db) (\<lambda>p. A (fst p) \<and> B (snd p))"
proof
  fix p :: "'a \<times> 'b"
  assume d: "A (fst p) \<and> B (snd p)"
  obtain x y where xy: "ea (fst p) = Inr x" "eb (snd p) = Inr y"
    using d assms [THEN scale_codec.axioms, THEN stream_codec.enc_ok] by blast
  then show "\<exists>bs. encode_pair ea eb p = Inr bs" by (simp add: encode_pair_def)
  fix bs rest
  assume e: "encode_pair ea eb p = Inr bs"
  have "da (x @ r) = Inr (fst p, r)" "db (y @ r) = Inr (snd p, r)" for r
    using d xy stream_codec.dec_enc [OF scale_codec.axioms [OF assms(1)]]
      stream_codec.dec_enc [OF scale_codec.axioms [OF assms(2)]] by auto
  then show "decode_pair da db (bs @ rest) = Inr (p, rest)"
    using e xy by (auto simp: encode_pair_def decode_pair_def)
qed

text \<open>
  A collection of n items can be decoded in an environment that converts n to itself and
  has room for n items.
\<close>

definition env_fits :: "scale_env \<Rightarrow> nat \<Rightarrow> bool" where
  "env_fits env n = (n < 2 ^ 64 \<and> env_to_size env n = n \<and> n \<le> env_max_size env \<and> n \<le> env_memory env)"

lemma size_prefix:
  assumes "env_fits env n"
  shows "\<exists>h. encodeCompactInteger (int n) = Inr h \<and> (\<forall>s. decodeCompactInteger (h @ s) = Inr (n, s))"
proof (rule compact_round_trip)
  have "(2 :: nat) ^ 64 \<le> 256 ^ 67" by simp
  then show "compact_dom n" using assms unfolding env_fits_def compact_dom_def by linarith
qed

lemma alloc_fits: "env_fits env n \<Longrightarrow> alloc_items env n = Inr ()"
  by (simp add: env_fits_def alloc_items_def)

lemma encode_items_putByte: "encode_items putByte xs = Inr xs"
  by (induction xs) (simp_all add: putByte_def)

lemma bytes_round_trip:
  assumes "env_fits env (length bs)"
  shows "\<exists>out. encodeCollection putByte bs = Inr out \<and> (\<forall>s. decode_bytes env (out @ s) = Inr (bs, s))"
proof -
  obtain h where h: "encodeCompactInteger (int (length bs)) = Inr h"
    "\<forall>s. decodeCompactInteger (h @ s) = Inr (length bs, s)" using size_prefix [OF assms] by blast
  have "env_to_size env (length bs) = length bs" using assms by (simp add: env_fits_def)
  then show ?thesis using h alloc_fits [OF assms]
    by (intro exI [of _ "h @ bs"]) (simp add: encodeCollection_def encode_items_putByte decode_bytes_def Let_def)
qed

context scale_codec
begin

lemma vector_codec:
  "scale_codec (encode_vector enc) (decode_vector env dec) (\<lambda>xs. env_fits env (length xs) \<and> (\<forall>x \<in> set xs. dom x))"
proof -
  have rt: "\<exists>bs. encode_vector enc xs = Inr bs \<and> (\<forall>s. decode_vector env dec (bs @ s) = Inr (xs, s))"
    if fits: "env_fits env (length xs)" and doms: "\<forall>x \<in> set xs. dom x" for xs
  proof -
    obtain h where h: "encodeCompactInteger (int (length xs)) = Inr h"
      "\<forall>s. decodeCompactInteger (h @ s) = Inr (length xs, s)" using size_prefix [OF fits] by blast
    obtain b where b: "encode_items enc xs = Inr b" "\<forall>s. decode_items (length xs) dec (b @ s) = Inr (xs, s)"
      using items [OF doms] by blast
    have "env_to_size env (length xs) = length xs" using fits by (simp add: env_fits_def)
    then show ?thesis using h b alloc_fits [OF fits]
      by (intro exI [of _ "h @ b"]) (simp add: encode_vector_def encodeCollection_def decode_vector_def Let_def)
  qed
  show ?thesis
  proof
    fix xs :: "'a list"
    assume d: "env_fits env (length xs) \<and> (\<forall>x \<in> set xs. dom x)"
    then show "\<exists>bs. encode_vector enc xs = Inr bs" using rt by blast
    fix bs rest
    assume "encode_vector enc xs = Inr bs"
    then show "decode_vector env dec (bs @ rest) = Inr (xs, rest)" using d rt [of xs] by auto
  qed
qed

end

section \<open>The primitive codecs\<close>

interpretation byte_codec: scale_codec putByte nextByte "\<lambda>_. True"
  by unfold_locales (auto simp: putByte_def)

interpretation bool_codec: scale_codec encodeBool decodeBool "\<lambda>_. True"
  by unfold_locales (auto simp: encodeBool_def putByte_def decodeBool_def split: if_splits)

interpretation optional_bool_codec: scale_codec encodeOptionalBool decodeOptionalBool "\<lambda>_. True"
proof
  show "\<exists>bs. encodeOptionalBool v = Inr bs" for v by (simp add: encodeOptionalBool_def putByte_def)
  show "decodeOptionalBool (bs @ rest) = Inr (v, rest)" if "encodeOptionalBool v = Inr bs" for v bs rest
    using that by (auto simp: encodeOptionalBool_def putByte_def decodeOptionalBool_def split: option.splits bool.splits)
qed

interpretation compact_codec: scale_codec "\<lambda>v. encodeCompactInteger (int v)" decodeCompactInteger compact_dom
proof
  show "\<exists>bs. encodeCompactInteger (int v) = Inr bs" if "compact_dom v" for v
    using compact_round_trip [OF that] by blast
  show "decodeCompactInteger (bs @ rest) = Inr (v, rest)"
    if "compact_dom v" "encodeCompactInteger (int v) = Inr bs" for v bs rest
    using compact_round_trip [OF that(1)] that(2) by auto
qed

interpretation integer_codec: scale_codec "encodeInteger sz" "decodeInteger sgnd sz" "int_dom sgnd sz"
  by unfold_locales (auto simp: encodeInteger_def decodeInteger_encode)

interpretation u256_codec: scale_codec encode_u256 decode_u256 "\<lambda>v. v < 2 ^ 256"
  by unfold_locales
    (auto simp: encode_u256_def decode_u256_def toBigEndian_u256_def fromBigEndian_eq take_bit_nat_eq_self)

lemma s2u_range: "- (2 ^ 255) \<le> v \<Longrightarrow> v < 2 ^ 255 \<Longrightarrow> 0 \<le> s2u v \<and> s2u v < 2 ^ 256"
  by (simp add: s2u_def)

lemma u2s_s2u: "- (2 ^ 255) \<le> v \<Longrightarrow> v < 2 ^ 255 \<Longrightarrow> u2s (s2u v) = v"
proof -
  assume v: "- (2 ^ 255) \<le> v" "v < 2 ^ 255"
  have "bit (s2u v) 255 \<longleftrightarrow> v < 0"
  proof (cases "v < 0")
    case True
    then have "(2 ^ 256 + v) div 2 ^ 255 = 1" using v by (intro int_div_pos_eq [of _ _ _ "2 ^ 255 + v"]) simp_all
    then show ?thesis using True by (simp add: bit_iff_odd s2u_def)
  qed (use v in \<open>simp add: bit_iff_odd s2u_def\<close>)
  then show ?thesis by (simp add: u2s_def s2u_def)
qed

interpretation s256_codec: scale_codec encode_s256 decode_s256 "\<lambda>v. - (2 ^ 255) \<le> v \<and> v < 2 ^ 255"
proof
  fix v :: int
  assume v: "- (2 ^ 255) \<le> v \<and> v < 2 ^ 255"
  show "\<exists>bs. encode_s256 v = Inr bs" by (simp add: encode_s256_def encode_u256_def)
  fix bs rest
  assume "encode_s256 v = Inr bs"
  moreover have "nat (s2u v) < 2 ^ 256" using s2u_range [of v] v by (simp add: nat_less_iff)
  ultimately have "decode_u256 (bs @ rest) = Inr (nat (s2u v), rest)"
    using u256_codec.dec_enc by (simp add: encode_s256_def)
  then show "decode_s256 (bs @ rest) = Inr (v, rest)"
    using v u2s_s2u [of v] s2u_range [of v] by (simp add: decode_s256_def)
qed

interpretation bytes_codec: scale_codec encode_bytes "decode_bytes env" "\<lambda>bs. env_fits env (length bs)"
proof
  show "\<exists>out. encode_bytes bs = Inr out" if "env_fits env (length bs)" for bs
    using bytes_round_trip [OF that] by (auto simp: encode_bytes_def)
  show "decode_bytes env (out @ rest) = Inr (bs, rest)"
    if "env_fits env (length bs)" "encode_bytes bs = Inr out" for bs out rest
    using bytes_round_trip [OF that(1)] that(2) by (auto simp: encode_bytes_def)
qed

interpretation string_codec: scale_codec encode_string "decode_string env" "\<lambda>s. env_fits env (length s)"
proof
  show "\<exists>out. encode_string sv = Inr out" if "env_fits env (length sv)" for sv
    using bytes_round_trip [of env "bytes_of_string sv"] that by (auto simp: encode_string_def)
  show "decode_string env (out @ rest) = Inr (sv, rest)"
    if "env_fits env (length sv)" "encode_string sv = Inr out" for sv out rest
    using bytes_round_trip [of env "bytes_of_string sv"] that
    by (auto simp: encode_string_def decode_string_def)
qed

interpretation fixed_codec: scale_codec encode_fixed_bytes "decode_fixed_bytes env n"
    "\<lambda>bs. length bs = n \<and> env_fits env n"
proof
  show "\<exists>out. encode_fixed_bytes bs = Inr out" if "length bs = n \<and> env_fits env n" for bs
    using bytes_round_trip [of env bs] that by (auto simp: encode_fixed_bytes_def)
  show "decode_fixed_bytes env n (out @ rest) = Inr (bs, rest)"
    if "length bs = n \<and> env_fits env n" "encode_fixed_bytes bs = Inr out" for bs out rest
    using bytes_round_trip [of env bs] that by (auto simp: encode_fixed_bytes_def decode_fixed_bytes_def)
qed

section \<open>Maps\<close>

lemma insort_key_last: "\<forall>q \<in> set m. f q < f p \<Longrightarrow> insort_key f p m = m @ [p]"
  by (induction m) (auto simp: not_le)

lemma map_emplace_last: "\<forall>q \<in> set m. fst q < fst p \<Longrightarrow> map_emplace p m = m @ [p]"
proof -
  assume a: "\<forall>q \<in> set m. fst q < fst p"
  then have "fst p \<notin> fst ` set m" by force
  then show ?thesis using insort_key_last [OF a] by (simp add: map_emplace_def map_of_eq_None_iff)
qed

lemma decode_map_loop_items:
  "decode_items n dec s = Inr (xs, r) \<Longrightarrow> sorted_wrt (<) (map fst (m @ xs)) \<Longrightarrow>
   decode_map_loop n dec m s = Inr (m @ xs, r)"
proof (induction n arbitrary: s xs m)
  case (Suc n)
  then obtain x s1 ys where d: "dec s = Inr (x, s1)" "decode_items n dec s1 = Inr (ys, r)" "xs = x # ys"
    by (auto simp: bind_res_eq_Inr)
  have "\<forall>q \<in> set m. fst q < fst x" using Suc.prems(2) d(3) by (auto simp: sorted_wrt_append)
  then have "map_emplace x m = m @ [x]" by (rule map_emplace_last)
  moreover have "sorted_wrt (<) (map fst ((m @ [x]) @ ys))" using Suc.prems(2) d(3) by simp
  ultimately show ?case using Suc.IH [OF d(2), of "m @ [x]"] d by simp
qed simp

lemma map_codec:
  assumes "scale_codec ek dk K" "scale_codec ev dv V"
  shows "scale_codec (encode_map ek ev) (decode_map env dk dv)
    (\<lambda>m. env_fits env (length m) \<and> sorted_wrt (<) (map fst m) \<and> (\<forall>p \<in> set m. K (fst p) \<and> V (snd p)))"
proof -
  note pc = pair_codec [OF assms]
  have rt: "\<exists>bs. encode_map ek ev m = Inr bs \<and> (\<forall>s. decode_map env dk dv (bs @ s) = Inr (m, s))"
    if fits: "env_fits env (length m)" and sorted: "sorted_wrt (<) (map fst m)"
      and doms: "\<forall>p \<in> set m. K (fst p) \<and> V (snd p)" for m
  proof -
    obtain h where h: "encodeCompactInteger (int (length m)) = Inr h"
      "\<forall>s. decodeCompactInteger (h @ s) = Inr (length m, s)" using size_prefix [OF fits] by blast
    obtain b where b: "encode_items (encode_pair ek ev) m = Inr b"
      "\<forall>s. decode_items (length m) (decode_pair dk dv) (b @ s) = Inr (m, s)"
      using scale_codec.items [OF pc doms] by blast
    have "decode_map_loop (length m) (decode_pair dk dv) [] (b @ s) = Inr (m, s)" for s
      using decode_map_loop_items [of "length m" "decode_pair dk dv" "b @ s" m s "[]"] b(2) sorted by simp
    moreover have "env_to_size env (length m) = length m" using fits by (simp add: env_fits_def)
    ultimately show ?thesis using h b(1)
      by (intro exI [of _ "h @ b"]) (simp add: encode_map_def encodeCollection_def decode_map_def)
  qed
  show ?thesis
  proof
    fix m
    assume d: "env_fits env (length m) \<and> sorted_wrt (<) (map fst m) \<and> (\<forall>p \<in> set m. K (fst p) \<and> V (snd p))"
    then show "\<exists>bs. encode_map ek ev m = Inr bs" using rt by blast
    fix bs rest
    assume "encode_map ek ev m = Inr bs"
    then show "decode_map env dk dv (bs @ rest) = Inr (m, rest)" using d rt [of m] by auto
  qed
qed

section \<open>Properties\<close>

text \<open>
  Compact integers.  Every number below 256 to the 67 is encoded, in one, two, four
  or more bytes by its size, and decodes to itself whatever follows; negative and larger
  numbers are rejected by the encoder.
\<close>

theorem scale_compact_round_trip:
  "if 0 \<le> v \<and> v < 256 ^ 67
   then \<exists>bs. encodeCompactInteger v = Inr bs \<and> (\<forall>s. decodeCompactInteger (bs @ s) = Inr (nat v, s))
   else \<exists>msg. encodeCompactInteger v = Inl (ScaleEncodeException msg)"
proof -
  have "(256 :: nat) ^ 67 \<le> nat v" if "\<not> v < 256 ^ 67" using that by simp
  moreover have "(2 :: nat) ^ 30 < 256 ^ 67" by simp
  ultimately show ?thesis
    using compact_round_trip [of "nat v"] compact_too_big [of "nat v"]
    by (auto simp: compact_dom_def nat_less_iff encodeCompactInteger_def kMinUint16_def kMinUint32_def
        kMinBigInteger_def Let_def)
qed

text \<open>
  Integers of one to eight bytes, signed or unsigned, decode to themselves whatever
  follows, including the negative ones that pass through unsigned arithmetic.
\<close>

theorem scale_integer_round_trip:
  assumes "int_dom sgnd sz v"
  shows "\<exists>bs. encodeInteger sz v = Inr bs \<and> length bs = sz \<and>
    (\<forall>s. decodeInteger sgnd sz (bs @ s) = Inr (v, s))"
  using decodeInteger_encode [OF assms] by (simp add: encodeInteger_def)

theorem scale_integer_round_trip_witness:
  "\<exists>bs. encodeInteger 4 (- 5) = Inr bs \<and> (\<forall>s. decodeInteger True 4 (bs @ s) = Inr (- 5, s))"
  using scale_integer_round_trip [of True 4 "- 5"] by (auto simp: int_dom_def)

definition string_u256s_dom :: "scale_env \<Rightarrow> (string \<times> nat list) list \<Rightarrow> bool" where
  "string_u256s_dom env m =
     (env_fits env (length m) \<and> sorted_wrt (<) (map fst m) \<and>
      (\<forall>p \<in> set m. env_fits env (length (fst p)) \<and> env_fits env (length (snd p)) \<and>
         (\<forall>v \<in> set (snd p). v < 2 ^ 256)))"

text \<open>
  C17: composite values.  A map from strings to vectors of 256-bit numbers, built from the
  map, string, vector and number codecs, decodes to itself whatever follows.
\<close>

theorem scale_map_round_trip:
  assumes "string_u256s_dom env m"
  shows "\<exists>bs. encode_map encode_string (encode_vector encode_u256) m = Inr bs \<and>
    (\<forall>s. decode_map env (decode_string env) (decode_vector env decode_u256) (bs @ s) = Inr (m, s))"
proof -
  note c = scale_codec.axioms [OF map_codec [OF string_codec.scale_codec_axioms [of env]
      u256_codec.vector_codec [of env], of env]]
  have d: "env_fits env (length m) \<and> sorted_wrt (<) (map fst m) \<and>
    (\<forall>p \<in> set m. env_fits env (length (fst p)) \<and>
      (env_fits env (length (snd p)) \<and> (\<forall>x \<in> set (snd p). x < 2 ^ 256)))"
    using assms by (simp add: string_u256s_dom_def)
  obtain bs where bs: "encode_map encode_string (encode_vector encode_u256) m = Inr bs"
    using stream_codec.enc_ok [OF c d] by blast
  show ?thesis using bs stream_codec.dec_enc [OF c d bs] by blast
qed

definition sample_env :: scale_env where
  "sample_env = \<lparr>env_to_size = (\<lambda>n. n mod 2 ^ 64), env_max_size = 2 ^ 60, env_memory = 2 ^ 30\<rparr>"

theorem scale_map_round_trip_witness:
  "\<exists>bs. encode_map encode_string (encode_vector encode_u256) [(''a'', [1, 2]), (''b'', [])] = Inr bs"
proof -
  have "string_u256s_dom sample_env [(''a'', [1, 2]), (''b'', [])]"
    by (simp add: string_u256s_dom_def env_fits_def sample_env_def)
  then show ?thesis using scale_map_round_trip by blast
qed

text \<open>
  A byte string whose announced length exceeds the rest of the stream is not rejected
  by an exception: the decoder moves the span iterator out of range.
\<close>

theorem scale_truncated_bytes_out_of_range:
  assumes "decodeCompactInteger s = Inr (n, r)" "env_fits env n" "length r < n"
  shows "decode_bytes env s = Inl SpanOutOfRange"
  using assms alloc_fits [OF assms(2)] by (simp add: decode_bytes_def env_fits_def)

theorem scale_truncated_bytes_out_of_range_witness:
  "decode_bytes sample_env [4] = Inl SpanOutOfRange"
  by (rule scale_truncated_bytes_out_of_range [of _ 1 "[]"])
    (simp_all add: decodeCompact_Cons env_fits_def sample_env_def)

text \<open>
  The length predicted by compactLen is the length of the encoding below 2 to the 30;
  above it the prediction is one byte short, the header byte is not counted.
\<close>

theorem compact_len_prediction:
  assumes "v < 256 ^ 67" "encodeCompactInteger (int v) = Inr bs"
  shows "length bs = (if v < kMinBigInteger then compactLen v else compactLen v + 1)"
  using assms
  by (auto simp: encodeCompactInteger_def compactLen_def Let_def encodeFirstCategory_def push_le_bytes_eq
      encodeSecondCategory_def encodeThirdCategory_def kMinUint16_def kMinUint32_def kMinBigInteger_def
      split: if_splits)

theorem compact_len_prediction_witness:
  "\<exists>bs. encodeCompactInteger (int (2 ^ 30)) = Inr bs \<and> length bs = compactLen (2 ^ 30) + 1"
proof -
  have "(2 :: nat) ^ 30 < 256 ^ 67" by simp
  then obtain bs where "encodeCompactInteger (int (2 ^ 30)) = Inr bs"
    using compact_round_trip [of "2 ^ 30"] unfolding compact_dom_def by blast
  with compact_len_prediction [of "2 ^ 30" bs] \<open>(2 :: nat) ^ 30 < 256 ^ 67\<close> show ?thesis
    by (simp add: kMinBigInteger_def)
qed

end
