(* ===== verification/Abi_Codec.thy ===== *)
theory Abi_Codec
  imports Fixed_Bytes
begin

text \<open>
  The contract ABI codec \<^verbatim>\<open>libcodec/abi/ContractABICodec.{h,cpp}\<close>.  The C++ types
  the templates are instantiated with are the datatype \<^verbatim>\<open>abi_type\<close>, their values the
  datatype \<^verbatim>\<open>abi_value\<close>; the type traits are functions on types and the overloads of
  \<^verbatim>\<open>serialise\<close> and \<^verbatim>\<open>deserialize\<close> are the equations of one function each.
  Offsets are 64-bit and wrap around.  The conversions between the big-number types and
  \<^verbatim>\<open>size_t\<close>, their decimal output, memory allocation and the hash function are
  parameters.
\<close>

datatype abi_type =
  TU256 | TS256 | TBool | TAddress | TString32 | TBytes | TString
| TArray nat abi_type | TVector abi_type | TTuple "abi_type list"

datatype abi_value =
  VU256 nat | VS256 int | VBool bool | VAddress bytes | VString32 bytes | VBytes bytes | VString string
| VArray "abi_value list" | VVector "abi_value list" | VTuple "abi_value list"

record abi_env =
  ae_to_u256 :: "int \<Rightarrow> nat"
  ae_to_size :: "nat \<Rightarrow> nat"
  ae_alloc :: "abi_type \<Rightarrow> nat \<Rightarrow> bool"
  ae_str :: "int \<Rightarrow> string"
  ae_hash :: "string \<Rightarrow> bytes"

datatype abi_error = LengthError | AllocError

section \<open>Type traits\<close>

fun remove_dimension :: "abi_type \<Rightarrow> abi_type" where
  "remove_dimension (TArray n t) = remove_dimension t"
| "remove_dimension t = t"

definition ABIDynamicType :: "abi_type \<Rightarrow> bool" where
  "ABIDynamicType t =
     (case remove_dimension t of
        TString \<Rightarrow> True | TBytes \<Rightarrow> True | TVector _ \<Rightarrow> True | TTuple _ \<Rightarrow> True | _ \<Rightarrow> False)"

fun Length :: "abi_type \<Rightarrow> nat" where
  "Length (TArray n t) = (if ABIDynamicType (TArray n t) then 1 else n * Length t)"
| "Length t = 1"

definition Offset :: "abi_type list \<Rightarrow> nat" where
  "Offset ts = sum_list (map Length ts)"

definition MAX_BYTE_LENGTH :: nat where "MAX_BYTE_LENGTH = 32"

section \<open>Serialisation\<close>

definition serialise_u256 :: "nat \<Rightarrow> bytes" where
  "serialise_u256 v = fb_of_arith 32 v"

definition serialise_s256 :: "abi_env \<Rightarrow> int \<Rightarrow> bytes" where
  "serialise_s256 env v = fb_of_arith 32 (ae_to_u256 env v)"

definition serialise_int :: "abi_env \<Rightarrow> int \<Rightarrow> bytes" where
  "serialise_int env v = serialise_s256 env v"

definition serialise_bool :: "bool \<Rightarrow> bytes" where
  "serialise_bool b = fb_of_arith 32 (if b then 1 else 0)"

definition serialise_address :: "bytes \<Rightarrow> bytes" where
  "serialise_address a = replicate 12 0 @ a"

text \<open>\<^verbatim>\<open>populate\<close> of a byte range into a fresh range of \<^term>\<open>n\<close> bytes.\<close>

definition populate_to :: "nat \<Rightarrow> bytes \<Rightarrow> bytes" where
  "populate_to n src = take n src @ replicate (n - length src) 0"

definition serialise_string32 :: "bytes \<Rightarrow> bytes" where
  "serialise_string32 v = populate_to 32 v"

definition serialise_bytes :: "bytes \<Rightarrow> bytes" where
  "serialise_bytes v =
     fb_of_arith 32 (length v) @ populate_to ((length v + 31) div MAX_BYTE_LENGTH * MAX_BYTE_LENGTH) v"

definition serialise_string :: "string \<Rightarrow> bytes" where
  "serialise_string v = serialise_bytes (bytes_of_string v)"

text \<open>
  The loop over the serialised elements of an array or vector: the offset words, present
  only for dynamic element types, and the contents.
\<close>

fun array_loop :: "bool \<Rightarrow> nat \<Rightarrow> bytes list \<Rightarrow> bytes \<times> bytes" where
  "array_loop dyn len [] = ([], [])"
| "array_loop dyn len (out # outs) =
     (let (offset_bytes, content) = array_loop dyn (if dyn then len + length out else len) outs in
      ((if dyn then serialise_u256 len else []) @ offset_bytes, out @ content))"

text \<open>The loop of a tuple or an argument list: dynamic items leave an offset word.\<close>

fun head_tail :: "nat \<Rightarrow> (bool \<times> bytes) list \<Rightarrow> bytes \<times> bytes" where
  "head_tail len [] = ([], [])"
| "head_tail len ((dyn, out) # items) =
     (if dyn then
        (let (fixed, dynamic) = head_tail (len + length out) items in
         (serialise_u256 len @ fixed, out @ dynamic))
      else
        (let (fixed, dynamic) = head_tail len items in (out @ fixed, dynamic)))"

definition joined :: "bytes \<times> bytes \<Rightarrow> bytes" where
  "joined p = fst p @ snd p"

text \<open>A value that is not of the given type does not occur; it gives the empty string.\<close>

fun serialise :: "abi_env \<Rightarrow> abi_type \<Rightarrow> abi_value \<Rightarrow> bytes"
  and serialise_items :: "abi_env \<Rightarrow> abi_type list \<Rightarrow> abi_value list \<Rightarrow> (bool \<times> bytes) list" where
  "serialise env TU256 x = (case x of VU256 v \<Rightarrow> serialise_u256 v | _ \<Rightarrow> [])"
| "serialise env TS256 x = (case x of VS256 v \<Rightarrow> serialise_s256 env v | _ \<Rightarrow> [])"
| "serialise env TBool x = (case x of VBool v \<Rightarrow> serialise_bool v | _ \<Rightarrow> [])"
| "serialise env TAddress x = (case x of VAddress v \<Rightarrow> serialise_address v | _ \<Rightarrow> [])"
| "serialise env TString32 x = (case x of VString32 v \<Rightarrow> serialise_string32 v | _ \<Rightarrow> [])"
| "serialise env TBytes x = (case x of VBytes v \<Rightarrow> serialise_bytes v | _ \<Rightarrow> [])"
| "serialise env TString x = (case x of VString v \<Rightarrow> serialise_string v | _ \<Rightarrow> [])"
| "serialise env (TArray n t) x =
     (case x of
        VArray vs \<Rightarrow>
          joined (array_loop (ABIDynamicType t) (n * MAX_BYTE_LENGTH) (map (serialise env t) vs))
      | _ \<Rightarrow> [])"
| "serialise env (TVector t) x =
     (case x of
        VVector vs \<Rightarrow>
          serialise_u256 (length vs) @
          joined (array_loop (ABIDynamicType t) (length vs * MAX_BYTE_LENGTH) (map (serialise env t) vs))
      | _ \<Rightarrow> [])"
| "serialise env (TTuple ts) x =
     (case x of
        VTuple vs \<Rightarrow> joined (head_tail (length ts * MAX_BYTE_LENGTH) (serialise_items env ts vs))
      | _ \<Rightarrow> [])"
| "serialise_items env [] vs = []"
| "serialise_items env (t # ts) vs =
     (case vs of
        [] \<Rightarrow> []
      | v # vs' \<Rightarrow> (ABIDynamicType t, serialise env t v) # serialise_items env ts vs')"

section \<open>Deserialisation\<close>

text \<open>A \<^verbatim>\<open>size_t\<close> result.\<close>

abbreviation size_t :: "nat \<Rightarrow> nat" where
  "size_t n \<equiv> n mod 2 ^ 64"

definition validOffset :: "bytes \<Rightarrow> nat \<Rightarrow> abi_error + unit" where
  "validOffset data off = (if off \<ge> length data then Inl LengthError else Inr ())"

text \<open>The bytes of a cropped reference to the data.\<close>

definition crop :: "bytes \<Rightarrow> nat \<Rightarrow> nat \<Rightarrow> bytes" where
  "crop data start cnt =
     (let r = getCroppedData \<lparr>m_dataPointer = Some 0, m_dataCount = of_nat (length data)\<rparr>
                (of_nat start) (of_nat cnt) in
      case m_dataPointer r of None \<Rightarrow> [] | Some p \<Rightarrow> take (unat (m_dataCount r)) (drop p data))"

definition deserialize_u256 :: "bytes \<Rightarrow> nat \<Rightarrow> abi_error + nat" where
  "deserialize_u256 data off =
     bind_res (validOffset data (size_t (off + MAX_BYTE_LENGTH - 1)))
       (\<lambda>_. Inr (fromBigEndian 256 (crop data off MAX_BYTE_LENGTH)))"

definition deserialize_s256 :: "bytes \<Rightarrow> nat \<Rightarrow> abi_error + int" where
  "deserialize_s256 data off =
     bind_res (deserialize_u256 data off)
       (\<lambda>u. if u > 0x8fffffffffffffffffffffffffffffffffffffffffffffffffffffffffffffff
            then Inr (- int ((0xffffffffffffffffffffffffffffffffffffffffffffffffffffffffffffffff - u) + 1))
            else Inr (int u))"

definition deserialize_bool :: "bytes \<Rightarrow> nat \<Rightarrow> abi_error + bool" where
  "deserialize_bool data off = bind_res (deserialize_u256 data off) (\<lambda>ret. Inr (ret > 0))"

definition deserialize_address :: "bytes \<Rightarrow> nat \<Rightarrow> abi_error + bytes" where
  "deserialize_address data off =
     bind_res (validOffset data (size_t (off + MAX_BYTE_LENGTH - 1)))
       (\<lambda>_. Inr (populate_to 20 (crop data (size_t (off + MAX_BYTE_LENGTH - 20)) 20)))"

definition deserialize_string32 :: "bytes \<Rightarrow> nat \<Rightarrow> abi_error + bytes" where
  "deserialize_string32 data off =
     bind_res (validOffset data (size_t (off + MAX_BYTE_LENGTH - 1)))
       (\<lambda>_. Inr (populate_to 32 (crop data off MAX_BYTE_LENGTH)))"

definition deserialize_bytes :: "abi_env \<Rightarrow> bytes \<Rightarrow> nat \<Rightarrow> abi_error + bytes" where
  "deserialize_bytes env data off =
     bind_res (deserialize_u256 data off)
       (\<lambda>len. bind_res (validOffset data (size_t (off + MAX_BYTE_LENGTH + ae_to_size env len - 1)))
          (\<lambda>_. Inr (crop data (size_t (off + MAX_BYTE_LENGTH)) (ae_to_size env len))))"

definition deserialize_string :: "abi_env \<Rightarrow> bytes \<Rightarrow> nat \<Rightarrow> abi_error + string" where
  "deserialize_string env data off =
     bind_res (deserialize_bytes env data off) (\<lambda>bs. Inr (string_of_bytes bs))"

text \<open>Where element \<^term>\<open>u\<close> of an array with its elements at \<^term>\<open>base\<close> starts.\<close>

definition element_offset :: "abi_env \<Rightarrow> bytes \<Rightarrow> abi_type \<Rightarrow> nat \<Rightarrow> nat \<Rightarrow> abi_error + nat" where
  "element_offset env data t base u =
     (let slot = size_t (base + u * Length t * MAX_BYTE_LENGTH) in
      if ABIDynamicType t
      then bind_res (deserialize_u256 data slot) (\<lambda>len. Inr (size_t (base + ae_to_size env len)))
      else Inr slot)"

fun deserialize :: "abi_env \<Rightarrow> bytes \<Rightarrow> abi_type \<Rightarrow> nat \<Rightarrow> abi_error + abi_value"
  and deserialize_elements :: "abi_env \<Rightarrow> bytes \<Rightarrow> abi_type \<Rightarrow> nat \<Rightarrow> nat \<Rightarrow> nat \<Rightarrow> abi_error + abi_value list"
  and deserialize_tuple :: "abi_env \<Rightarrow> bytes \<Rightarrow> abi_type list \<Rightarrow> nat \<Rightarrow> nat \<Rightarrow> abi_error + abi_value list" where
  "deserialize env data TU256 off = bind_res (deserialize_u256 data off) (\<lambda>v. Inr (VU256 v))"
| "deserialize env data TS256 off = bind_res (deserialize_s256 data off) (\<lambda>v. Inr (VS256 v))"
| "deserialize env data TBool off = bind_res (deserialize_bool data off) (\<lambda>v. Inr (VBool v))"
| "deserialize env data TAddress off = bind_res (deserialize_address data off) (\<lambda>v. Inr (VAddress v))"
| "deserialize env data TString32 off = bind_res (deserialize_string32 data off) (\<lambda>v. Inr (VString32 v))"
| "deserialize env data TBytes off = bind_res (deserialize_bytes env data off) (\<lambda>v. Inr (VBytes v))"
| "deserialize env data TString off = bind_res (deserialize_string env data off) (\<lambda>v. Inr (VString v))"
| "deserialize env data (TArray n t) off =
     bind_res (deserialize_elements env data t off 0 n) (\<lambda>vs. Inr (VArray vs))"
| "deserialize env data (TVector t) off =
     bind_res (deserialize_u256 data off)
       (\<lambda>len. if ae_alloc env t (ae_to_size env len)
              then bind_res
                     (deserialize_elements env data t (size_t (off + MAX_BYTE_LENGTH)) 0 (ae_to_size env len))
                     (\<lambda>vs. Inr (VVector vs))
              else Inl AllocError)"
| "deserialize env data (TTuple ts) off =
     bind_res (deserialize_tuple env data ts off 0) (\<lambda>vs. Inr (VTuple vs))"
| "deserialize_elements env data t base u 0 = Inr []"
| "deserialize_elements env data t base u (Suc k) =
     bind_res (element_offset env data t base u)
       (\<lambda>thisOffset. bind_res (deserialize env data t thisOffset)
          (\<lambda>v. bind_res (deserialize_elements env data t base (u + 1) k) (\<lambda>vs. Inr (v # vs))))"
| "deserialize_tuple env data [] base tupleOffset = Inr []"
| "deserialize_tuple env data (t # ts) base tupleOffset =
     bind_res
       (if ABIDynamicType t
        then bind_res (deserialize_u256 data (size_t (base + tupleOffset)))
               (\<lambda>dynamicOffset. Inr (size_t (base + ae_to_size env dynamicOffset)))
        else Inr (size_t (base + tupleOffset)))
       (\<lambda>localOffset. bind_res (deserialize env data t localOffset)
          (\<lambda>v. bind_res (deserialize_tuple env data ts base (size_t (tupleOffset + Length t * MAX_BYTE_LENGTH)))
             (\<lambda>vs. Inr (v # vs))))"

section \<open>Calls\<close>

definition abiIn :: "abi_env \<Rightarrow> string \<Rightarrow> abi_type list \<Rightarrow> abi_value list \<Rightarrow> bytes" where
  "abiIn env sig ts vs =
     (let body = joined (head_tail (Offset ts * MAX_BYTE_LENGTH) (serialise_items env ts vs)) in
      if sig = [] then body else crop (ae_hash env sig) 0 4 @ body)"

fun abiOutAux :: "abi_env \<Rightarrow> bytes \<Rightarrow> abi_type list \<Rightarrow> nat \<Rightarrow> abi_error + abi_value list" where
  "abiOutAux env data [] offset = Inr []"
| "abiOutAux env data (t # ts) offset =
     bind_res
       (if ABIDynamicType t
        then bind_res (deserialize_u256 data offset) (\<lambda>dynamicOffset. Inr (ae_to_size env dynamicOffset))
        else Inr offset)
       (\<lambda>off. bind_res (deserialize env data t off)
          (\<lambda>v. bind_res (abiOutAux env data ts (size_t (offset + Offset [t] * MAX_BYTE_LENGTH)))
             (\<lambda>vs. Inr (v # vs))))"

text \<open>\<^verbatim>\<open>abiOut\<close> turns every exception into the result false, here \<^term>\<open>None\<close>.\<close>

definition abiOut :: "abi_env \<Rightarrow> bytes \<Rightarrow> abi_type list \<Rightarrow> abi_value list option" where
  "abiOut env data ts = (case abiOutAux env data ts 0 of Inl _ \<Rightarrow> None | Inr vs \<Rightarrow> Some vs)"

definition abiInHex :: "abi_env \<Rightarrow> string \<Rightarrow> abi_type list \<Rightarrow> abi_value list \<Rightarrow> string" where
  "abiInHex env sig ts vs = toHexString (abiIn env sig ts vs) []"

definition abiOutHex :: "abi_env \<Rightarrow> string \<Rightarrow> abi_type list \<Rightarrow> hex_error + abi_value list option" where
  "abiOutHex env hex ts = bind_res (fromHexString hex) (\<lambda>data. Inr (abiOut env data ts))"

text \<open>
  The decoder by type names prints each value; an exception of a decoder is not caught here.
\<close>

fun abiOutByFuncSelector :: "abi_env \<Rightarrow> bytes \<Rightarrow> string list \<Rightarrow> nat \<Rightarrow> abi_error + string list option" where
  "abiOutByFuncSelector env data [] offset = Inr (Some [])"
| "abiOutByFuncSelector env data (ty # tys) offset =
     bind_res
       (if ty = ''int'' \<or> ty = ''int256'' then
          bind_res (deserialize_s256 data offset) (\<lambda>s. Inr (Some (ae_str env s)))
        else if ty = ''uint'' \<or> ty = ''uint256'' then
          bind_res (deserialize_u256 data offset) (\<lambda>u. Inr (Some (ae_str env (int u))))
        else if ty = ''address'' then
          bind_res (deserialize_address data offset) (\<lambda>a. Inr (Some (toHexString a [])))
        else if ty = ''string'' then
          bind_res (deserialize_u256 data offset)
            (\<lambda>stringOffset. bind_res (deserialize_string env data (ae_to_size env stringOffset))
               (\<lambda>s. Inr (Some s)))
        else Inr None)
       (\<lambda>out. case out of
          None \<Rightarrow> Inr None
        | Some s \<Rightarrow>
            bind_res (abiOutByFuncSelector env data tys (size_t (offset + MAX_BYTE_LENGTH)))
              (\<lambda>rest. Inr (map_option (Cons s) rest)))"

section \<open>32-character strings\<close>

definition toString32 :: "string \<Rightarrow> string" where
  "toString32 s = map (\<lambda>i. if i < length s then s ! i else CHR 0x00) [0..<32]"

definition toString32_h256 :: "bytes \<Rightarrow> string" where
  "toString32_h256 h = map (\<lambda>i. char_of (unat (h ! i))) [0..<32]"

definition fromString32 :: "string \<Rightarrow> bytes" where
  "fromString32 s = map (\<lambda>i. of_nat (of_char (s ! i))) [0..<32]"

end
