(* ===== verification/Abi_Props.thy ===== *)
theory Abi_Props
  imports Abi_Codec
begin

text \<open>
  Correctness of the contract ABI codec: what \<^verbatim>\<open>abiIn\<close> writes, \<^verbatim>\<open>abiOut\<close>
  reads back, for every nesting of the supported types; and the inputs for which it does
  not.
\<close>

section \<open>The values that survive\<close>

text \<open>
  What the codec relies on of the number library: conversion to 256 bits is modulo 2 to
  the 256, conversion to a size keeps numbers that fit and gives a size.
\<close>

definition abi_env_ok :: "abi_env \<Rightarrow> bool" where
  "abi_env_ok env =
     ((\<forall>v. ae_to_u256 env v = nat (v mod 2 ^ 256)) \<and> (\<forall>n. ae_to_size env n < 2 ^ 64) \<and>
      (\<forall>n < 2 ^ 64. ae_to_size env n = n))"

fun abi_ok :: "abi_env \<Rightarrow> abi_type \<Rightarrow> abi_value \<Rightarrow> bool"
  and items_ok :: "abi_env \<Rightarrow> abi_type list \<Rightarrow> abi_value list \<Rightarrow> bool" where
  "abi_ok env TU256 x = (case x of VU256 v \<Rightarrow> v < 2 ^ 256 | _ \<Rightarrow> False)"
| "abi_ok env TS256 x = (case x of VS256 v \<Rightarrow> - 7 * 2 ^ 252 \<le> v \<and> v < 9 * 2 ^ 252 | _ \<Rightarrow> False)"
| "abi_ok env TBool x = (case x of VBool v \<Rightarrow> True | _ \<Rightarrow> False)"
| "abi_ok env TAddress x = (case x of VAddress v \<Rightarrow> length v = 20 | _ \<Rightarrow> False)"
| "abi_ok env TString32 x = (case x of VString32 v \<Rightarrow> length v = 32 | _ \<Rightarrow> False)"
| "abi_ok env TBytes x = (case x of VBytes v \<Rightarrow> True | _ \<Rightarrow> False)"
| "abi_ok env TString x = (case x of VString v \<Rightarrow> True | _ \<Rightarrow> False)"
| "abi_ok env (TArray n t) x =
     (case x of VArray vs \<Rightarrow> length vs = n \<and> list_all (abi_ok env t) vs | _ \<Rightarrow> False)"
| "abi_ok env (TVector t) x =
     (case x of VVector vs \<Rightarrow> length vs < 2 ^ 64 \<and> ae_alloc env t (length vs) \<and> list_all (abi_ok env t) vs | _ \<Rightarrow> False)"
| "abi_ok env (TTuple ts) x =
     (case x of VTuple vs \<Rightarrow> list_all (\<lambda>t. Length t = 1) ts \<and> items_ok env ts vs | _ \<Rightarrow> False)"
| "items_ok env [] vs = (vs = [])"
| "items_ok env (t # ts) vs = (case vs of [] \<Rightarrow> False | v # vs' \<Rightarrow> abi_ok env t v \<and> items_ok env ts vs')"

section \<open>Bytes at an offset\<close>

definition holds_at :: "bytes \<Rightarrow> nat \<Rightarrow> bytes \<Rightarrow> bool" where
  "holds_at data off bs = (\<exists>pre post. data = pre @ bs @ post \<and> length pre = off)"

lemma holds_at_bound: "holds_at data off bs \<Longrightarrow> off + length bs \<le> length data"
  by (auto simp: holds_at_def)

lemma holds_at_append:
  assumes "holds_at data off (xs @ ys)"
  shows "holds_at data off xs" "holds_at data (off + length xs) ys"
proof -
  obtain pre post where d: "data = pre @ (xs @ ys) @ post" "length pre = off"
    using assms by (auto simp: holds_at_def)
  then have "data = pre @ xs @ (ys @ post)" "data = (pre @ xs) @ ys @ post" by simp_all
  with d(2) show "holds_at data off xs" "holds_at data (off + length xs) ys"
    unfolding holds_at_def by (metis, metis length_append)
qed

lemma holds_at_self: "holds_at bs 0 bs"
  by (auto simp: holds_at_def)

lemma holds_at_concat:
  "holds_at data off (concat outs) \<Longrightarrow> u < length outs \<Longrightarrow>
   holds_at data (off + sum_list (map length (take u outs))) (outs ! u)"
proof (induction outs arbitrary: off u)
  case (Cons out outs)
  have a: "holds_at data off (out @ concat outs)" using Cons.prems(1) by simp
  show ?case
  proof (cases u)
    case 0
    then show ?thesis using holds_at_append(1) [OF a] by simp
  next
    case (Suc w)
    then show ?thesis using Cons.IH [OF holds_at_append(2) [OF a], of w] Cons.prems(2)
      by (simp add: add.assoc)
  qed
qed simp

lemma crop_holds:
  assumes "holds_at data off bs" "length data < 2 ^ 64"
  shows "crop data off (length bs) = bs"
proof -
  obtain pre post where d: "data = pre @ bs @ post" "length pre = off"
    using assms(1) by (auto simp: holds_at_def)
  have m: "n mod 18446744073709551616 = n" if "n \<le> length data" for n using assms(2) that by simp
  have u: "unat (of_nat n :: 64 word) = n" if "n \<le> length data" for n
    using m [OF that] by (simp add: unat_of_nat)
  have le: "off \<le> length data" "length bs \<le> length data" "off + length bs \<le> length data" using d by auto
  have "(of_nat off + of_nat (length bs) :: 64 word) = of_nat (off + length bs)" by simp
  then have "(of_nat off :: 64 word) \<le> of_nat (length data) \<and> (of_nat (length bs) :: 64 word) \<le> of_nat (length data) \<and>
      (of_nat off + of_nat (length bs) :: 64 word) \<le> of_nat (length data)"
    using le by (simp only: word_le_nat_alt u [OF le(1)] u [OF le(2)] u [OF le(3)] u [OF order_refl] simp_thms)
  then show ?thesis using d u [OF le(1)] u [OF le(2)]
    by (simp add: crop_def getCroppedData_def)
qed

section \<open>Elementary types\<close>

lemma length_serialise_u256 [simp]: "length (serialise_u256 v) = 32"
  by (simp add: serialise_u256_def fb_of_arith_def)

lemma word_at:
  assumes "holds_at data off (fb_of_arith 32 v)" "v < 2 ^ 256" "length data < 2 ^ 64"
  shows "deserialize_u256 data off = Inr v"
proof -
  have b: "off + 32 \<le> length data" using holds_at_bound [OF assms(1)] by (simp add: fb_of_arith_def)
  have "crop data off 32 = be_bytes 32 v"
    using crop_holds [OF assms(1,3)] by (simp add: fb_of_arith_def)
  then have "fromBigEndian 256 (crop data off 32) = v"
    using assms(2) by (simp add: fromBigEndian_eq take_bit_eq_mod)
  then show ?thesis using b assms(3)
    by (simp add: deserialize_u256_def MAX_BYTE_LENGTH_def validOffset_def)
qed

lemma valid_at:
  assumes "holds_at data off bs" "length bs = 32" "length data < 2 ^ 64"
  shows "validOffset data (size_t (off + 31)) = Inr ()"
  using holds_at_bound [OF assms(1)] assms(2,3) by (simp add: validOffset_def)

lemma s256_at:
  assumes "abi_env_ok env" "holds_at data off (serialise_s256 env v)" "length data < 2 ^ 64"
    and "- 7 * 2 ^ 252 \<le> v" "v < 9 * 2 ^ 252"
  shows "deserialize_s256 data off = Inr v"
proof -
  have m: "0 \<le> v mod 2 ^ 256" "v mod 2 ^ 256 < 2 ^ 256" by simp_all
  have u: "ae_to_u256 env v = nat (v mod 2 ^ 256)" using assms(1) by (simp add: abi_env_ok_def)
  have d: "deserialize_u256 data off = Inr (nat (v mod 2 ^ 256))"
    using word_at [of data off "nat (v mod 2 ^ 256)"] assms(2,3) m u by (simp add: serialise_s256_def nat_less_iff)
  show ?thesis
  proof (cases "0 \<le> v")
    case True
    then have "v mod 2 ^ 256 = v" using assms(5) by simp
    then show ?thesis using d True assms(5) by (simp add: deserialize_s256_def nat_less_iff)
  next
    case False
    have "v mod 2 ^ 256 = (v + 2 ^ 256) mod 2 ^ 256" by simp
    also have "\<dots> = v + 2 ^ 256" using False assms(4) by (intro mod_pos_pos_trivial) simp_all
    finally have "v mod 2 ^ 256 = v + 2 ^ 256" .
    then show ?thesis using d False assms(4) by (simp add: deserialize_s256_def zless_nat_eq_int_zless)
  qed
qed

lemma bytes_at:
  assumes "abi_env_ok env" "holds_at data off (serialise_bytes v)" "length data < 2 ^ 64"
  shows "deserialize_bytes env data off = Inr v"
proof -
  let ?n = "(length v + 31) div 32 * 32"
  have n: "length v \<le> ?n" by presburger
  have s: "serialise_bytes v = fb_of_arith 32 (length v) @ v @ replicate (?n - length v) 0"
    using n by (simp add: serialise_bytes_def populate_to_def MAX_BYTE_LENGTH_def)
  have l: "length (fb_of_arith 32 (length v)) = 32" by (simp add: fb_of_arith_def)
  note h = holds_at_append [OF assms(2) [unfolded s], unfolded l]
  have v: "holds_at data (off + 32) v" using holds_at_append(1) [OF h(2)] .
  have b: "off + 32 + length v \<le> length data" using holds_at_bound [OF v] .
  then have len: "length v < 2 ^ 64" using assms(3) by simp
  then have "deserialize_u256 data off = Inr (length v)" using word_at [OF h(1) _ assms(3)] by simp
  moreover have "ae_to_size env (length v) = length v" using assms(1) len by (simp add: abi_env_ok_def)
  moreover have "crop data (off + 32) (length v) = v" by (rule crop_holds [OF v assms(3)])
  ultimately show ?thesis using b assms(3)
    by (simp add: deserialize_bytes_def MAX_BYTE_LENGTH_def validOffset_def)
qed

lemma address_at:
  assumes "holds_at data off (serialise_address v)" "length v = 20" "length data < 2 ^ 64"
  shows "deserialize_address data off = Inr v"
proof -
  have v: "holds_at data (off + 12) v"
    using holds_at_append(2) [OF assms(1) [unfolded serialise_address_def]] by simp
  have "crop data (12 + off) 20 = v" using crop_holds [OF v assms(3)] assms(2) by (simp add: add.commute)
  moreover have "off + 32 \<le> length data" using holds_at_bound [OF v] assms(2) by simp
  ultimately show ?thesis using assms(2,3)
    by (simp add: deserialize_address_def MAX_BYTE_LENGTH_def validOffset_def populate_to_def)
qed

lemma string32_at:
  assumes "holds_at data off (serialise_string32 v)" "length v = 32" "length data < 2 ^ 64"
  shows "deserialize_string32 data off = Inr v"
proof -
  have v: "holds_at data off v" using assms(1,2) by (simp add: serialise_string32_def populate_to_def)
  have "crop data off 32 = v" using crop_holds [OF v assms(3)] assms(2) by simp
  then show ?thesis using holds_at_bound [OF v] assms(2,3)
    by (simp add: deserialize_string32_def MAX_BYTE_LENGTH_def validOffset_def populate_to_def)
qed

section \<open>Arrays\<close>

lemma ABIDynamicType_array [simp]: "ABIDynamicType (TArray n t) = ABIDynamicType t"
  by (simp add: ABIDynamicType_def)

lemma Length_dynamic: "ABIDynamicType t \<Longrightarrow> Length t = 1"
  by (cases t) simp_all

lemma array_loop_static: "array_loop False len outs = ([], concat outs)"
  by (induction outs) simp_all

fun starts :: "nat \<Rightarrow> bytes list \<Rightarrow> nat list" where
  "starts len [] = []"
| "starts len (out # outs) = len # starts (len + length out) outs"

lemma array_loop_dynamic: "array_loop True len outs = (concat (map serialise_u256 (starts len outs)), concat outs)"
  by (induction outs arbitrary: len) simp_all

lemma length_starts [simp]: "length (starts len outs) = length outs"
  by (induction outs arbitrary: len) simp_all

lemma nth_starts: "u < length outs \<Longrightarrow> starts len outs ! u = len + sum_list (map length (take u outs))"
  by (induction outs arbitrary: len u) (auto simp: nth_Cons split: nat.split)

lemma sum_list_const: "\<forall>x \<in> set xs. f x = (c :: nat) \<Longrightarrow> sum_list (map f xs) = length xs * c"
  by (induction xs) simp_all

lemma static_length:
  "\<not> ABIDynamicType t \<Longrightarrow> abi_ok env t v \<Longrightarrow> length (serialise env t v) = 32 * Length t"
proof (induction t arbitrary: v)
  case (TArray n t)
  then obtain vs where vs: "v = VArray vs" "length vs = n" "list_all (abi_ok env t) vs"
    by (auto split: abi_value.splits)
  have "\<forall>x \<in> set vs. length (serialise env t x) = 32 * Length t"
    using TArray vs(3) by (auto simp: list_all_iff)
  then have "sum_list (map (\<lambda>x. length (serialise env t x)) vs) = n * (32 * Length t)"
    using sum_list_const [of vs "\<lambda>x. length (serialise env t x)"] vs(2) by blast
  then show ?case using TArray.prems(1) vs(1)
    by (simp add: array_loop_static joined_def length_concat comp_def)
qed (auto simp: ABIDynamicType_def serialise_u256_def serialise_s256_def serialise_bool_def fb_of_arith_def
    serialise_address_def serialise_string32_def populate_to_def split: abi_value.splits)

text \<open>Decoding is right at a type if it reads back what was written anywhere in the data.\<close>

definition reads_back :: "abi_env \<Rightarrow> bytes \<Rightarrow> abi_type \<Rightarrow> bool" where
  "reads_back env data t =
     (\<forall>v off. abi_ok env t v \<longrightarrow> holds_at data off (serialise env t v) \<longrightarrow> deserialize env data t off = Inr v)"

lemma elements_loop:
  assumes "\<And>i. i < length vs \<Longrightarrow>
    \<exists>off. element_offset env data t base (u + i) = Inr off \<and> deserialize env data t off = Inr (vs ! i)"
  shows "deserialize_elements env data t base u (length vs) = Inr vs"
  using assms
proof (induction vs arbitrary: u)
  case (Cons v vs)
  obtain off where "element_offset env data t base u = Inr off" "deserialize env data t off = Inr v"
    using Cons.prems [of 0] by auto
  moreover have "deserialize_elements env data t base (u + 1) (length vs) = Inr vs"
    using Cons.prems [of "Suc i" for i] by (intro Cons.IH) simp
  ultimately show ?case by simp
qed simp

lemma elements_at:
  assumes env: "abi_env_ok env" and dat: "length data < 2 ^ 64" and rb: "reads_back env data t"
    and ok: "list_all (abi_ok env t) vs"
    and at: "holds_at data base (joined (array_loop (ABIDynamicType t) (length vs * 32) (map (serialise env t) vs)))"
  shows "deserialize_elements env data t base 0 (length vs) = Inr vs"
proof (rule elements_loop)
  fix i
  assume i: "i < length vs"
  let ?outs = "map (serialise env t) vs"
  have vi: "abi_ok env t (vs ! i)" using ok i by (simp add: list_all_length)
  have nth: "?outs ! i = serialise env t (vs ! i)" using i by simp
  show "\<exists>off. element_offset env data t base (0 + i) = Inr off \<and> deserialize env data t off = Inr (vs ! i)"
  proof (cases "ABIDynamicType t")
    case False
    have all: "\<forall>out \<in> set (take i ?outs). length out = 32 * Length t"
      using static_length [OF False] ok by (fastforce simp: list_all_iff dest!: in_set_takeD)
    have "holds_at data (base + sum_list (map length (take i ?outs))) (?outs ! i)"
      using at False i by (intro holds_at_concat) (simp_all add: array_loop_static joined_def)
    moreover have "sum_list (map length (take i ?outs)) = i * Length t * 32"
      using sum_list_const [OF all] i by simp
    ultimately have h: "holds_at data (base + i * Length t * 32) (serialise env t (vs ! i))" using nth by simp
    then have "base + i * Length t * 32 < 2 ^ 64" using holds_at_bound [OF h] dat by simp
    then show ?thesis using False h rb vi
      by (simp add: element_offset_def reads_back_def MAX_BYTE_LENGTH_def)
  next
    case True
    let ?s = "length vs * 32 + sum_list (map length (take i ?outs))"
    have parts: "holds_at data base (concat (map serialise_u256 (starts (length vs * 32) ?outs)))"
      "holds_at data (base + length vs * 32) (concat ?outs)"
      using holds_at_append [OF at [unfolded joined_def]] True
      by (simp_all add: array_loop_dynamic length_concat comp_def sum_list_triv)
    have "holds_at data (base + length vs * 32 + sum_list (map length (take i ?outs))) (?outs ! i)"
      using parts(2) i by (intro holds_at_concat) simp_all
    then have h: "holds_at data (base + ?s) (serialise env t (vs ! i))" using nth by (simp add: add.assoc)
    then have b: "base + ?s < 2 ^ 64" using holds_at_bound [OF h] dat by simp
    have "map serialise_u256 (starts (length vs * 32) ?outs) ! i = serialise_u256 ?s"
      using i by (simp add: nth_starts)
    moreover have "sum_list (map length (take i (map serialise_u256 (starts (length vs * 32) ?outs)))) = i * 32"
      using i by (simp add: take_map comp_def sum_list_triv)
    ultimately have w: "holds_at data (base + i * 32) (fb_of_arith 32 ?s)"
      using holds_at_concat [OF parts(1), of i] i by (simp add: serialise_u256_def)
    have "deserialize_u256 data (base + i * 32) = Inr ?s"
      using word_at [OF w _ dat] b by simp
    moreover have "base + i * 32 < 2 ^ 64" using holds_at_bound [OF w] dat by simp
    moreover have "ae_to_size env ?s = ?s" using env b by (simp add: abi_env_ok_def)
    ultimately show ?thesis using True h rb vi b
      by (simp add: element_offset_def reads_back_def MAX_BYTE_LENGTH_def Length_dynamic)
  qed
qed

section \<open>Tuples and argument lists\<close>

lemma items_at:
  assumes env: "abi_env_ok env" and dat: "length data < 2 ^ 64"
    and rb: "\<forall>t \<in> set ts. reads_back env data t" and ok: "items_ok env ts vs"
    and at: "holds_at data (base + toff) (fst (head_tail len (serialise_items env ts vs)))"
      "holds_at data (base + len) (snd (head_tail len (serialise_items env ts vs)))"
  shows "deserialize_tuple env data ts base toff = Inr vs"
  using rb ok at
proof (induction ts arbitrary: vs toff len)
  case (Cons t ts)
  from Cons.prems(2) obtain v ws where vs: "vs = v # ws" "abi_ok env t v" "items_ok env ts ws"
    by (auto split: list.splits)
  let ?out = "serialise env t v" and ?rest = "serialise_items env ts ws"
  have rbt: "reads_back env data t" and rbs: "\<forall>t \<in> set ts. reads_back env data t" using Cons.prems(1) by simp_all
  have lt: "base + toff < 2 ^ 64" "base + len < 2 ^ 64"
    using holds_at_bound [OF Cons.prems(3)] holds_at_bound [OF Cons.prems(4)] dat by simp_all
  show ?case
  proof (cases "ABIDynamicType t")
    case True
    obtain fx dy where ht: "head_tail (len + length ?out) ?rest = (fx, dy)" by fastforce
    have h: "holds_at data (base + toff) (serialise_u256 len @ fx)" "holds_at data (base + len) (?out @ dy)"
      using Cons.prems(3,4) vs True ht by simp_all
    note h1 = holds_at_append [OF h(1), simplified] and h2 = holds_at_append [OF h(2)]
    have "deserialize_u256 data (base + toff) = Inr len"
      using word_at [OF h1(1) [unfolded serialise_u256_def] _ dat] lt(2) by simp
    moreover have "ae_to_size env len = len" using env lt(2) by (simp add: abi_env_ok_def)
    moreover have "deserialize env data t (base + len) = Inr v" using rbt vs(2) h2(1) by (simp add: reads_back_def)
    moreover have "toff + 32 < 2 ^ 64" using holds_at_bound [OF h1(2)] dat by simp
    moreover have "deserialize_tuple env data ts base (toff + 32) = Inr ws"
    proof (rule Cons.IH [OF rbs vs(3)])
      show "holds_at data (base + (toff + 32)) (fst (head_tail (len + length ?out) ?rest))"
        using h1(2) ht by (simp add: add.assoc)
      show "holds_at data (base + (len + length ?out)) (snd (head_tail (len + length ?out) ?rest))"
        using h2(2) ht by (simp add: add.assoc)
    qed
    ultimately show ?thesis using True vs(1) lt by (simp add: MAX_BYTE_LENGTH_def Length_dynamic)
  next
    case False
    obtain fx dy where ht: "head_tail len ?rest = (fx, dy)" by fastforce
    have h: "holds_at data (base + toff) (?out @ fx)" "holds_at data (base + len) dy"
      using Cons.prems(3,4) vs False ht by simp_all
    have l: "length ?out = Length t * 32" using static_length [OF False vs(2)] by simp
    note h1 = holds_at_append [OF h(1), unfolded l]
    have "deserialize env data t (base + toff) = Inr v" using rbt vs(2) h1(1) by (simp add: reads_back_def)
    moreover have "toff + Length t * 32 < 2 ^ 64" using holds_at_bound [OF h1(2)] dat by simp
    moreover have "deserialize_tuple env data ts base (toff + Length t * 32) = Inr ws"
      by (rule Cons.IH [OF rbs vs(3), of _ len]) (use h1(2) h(2) ht in \<open>simp_all add: add.assoc\<close>)
    ultimately show ?thesis using False vs(1) lt by (simp add: MAX_BYTE_LENGTH_def)
  qed
qed simp

lemma length_heads:
  "items_ok env ts vs \<Longrightarrow> length (fst (head_tail len (serialise_items env ts vs))) = Offset ts * 32"
proof (induction ts arbitrary: vs len)
  case (Cons t ts)
  then obtain v ws where vs: "vs = v # ws" "abi_ok env t v" "items_ok env ts ws"
    by (auto split: list.splits)
  show ?case
    using Cons.IH [OF vs(3)] static_length [OF _ vs(2)] vs(1)
    by (cases "ABIDynamicType t") (simp_all add: Offset_def Length_dynamic case_prod_beta Let_def)
qed (simp add: Offset_def)

lemma joined_at:
  assumes "holds_at data off (joined (head_tail len (serialise_items env ts vs)))" "items_ok env ts vs"
  shows "holds_at data off (fst (head_tail len (serialise_items env ts vs)))"
    "holds_at data (off + Offset ts * 32) (snd (head_tail len (serialise_items env ts vs)))"
  using holds_at_append [OF assms(1) [unfolded joined_def]] length_heads [OF assms(2)] by simp_all

lemma Offset_ones: "list_all (\<lambda>t. Length t = 1) ts \<Longrightarrow> Offset ts = length ts"
  by (induction ts) (simp_all add: Offset_def)

lemma deserialize_reads_back:
  assumes env: "abi_env_ok env" and dat: "length data < 2 ^ 64"
  shows "reads_back env data t"
proof (induction t)
  case TU256
  then show ?case using word_at dat by (auto simp: reads_back_def serialise_u256_def split: abi_value.splits)
next
  case TS256
  then show ?case using s256_at [OF env _ dat] by (auto simp: reads_back_def split: abi_value.splits)
next
  case TBool
  have "deserialize_bool data off = Inr b" if "holds_at data off (serialise_bool b)" for off b
    using word_at [OF that [unfolded serialise_bool_def] _ dat] by (simp add: deserialize_bool_def split: if_splits)
  then show ?case by (auto simp: reads_back_def split: abi_value.splits)
next
  case TAddress
  then show ?case using address_at dat by (auto simp: reads_back_def split: abi_value.splits)
next
  case TString32
  then show ?case using string32_at dat by (auto simp: reads_back_def split: abi_value.splits)
next
  case TBytes
  then show ?case using bytes_at [OF env _ dat] by (auto simp: reads_back_def split: abi_value.splits)
next
  case TString
  then show ?case using bytes_at [OF env _ dat]
    by (auto simp: reads_back_def serialise_string_def deserialize_string_def split: abi_value.splits)
next
  case (TArray n t)
  then show ?case using elements_at [OF env dat TArray]
    by (auto simp: reads_back_def MAX_BYTE_LENGTH_def split: abi_value.splits)
next
  case (TVector t)
  have "deserialize env data (TVector t) off = Inr (VVector vs)"
    if ok: "length vs < 2 ^ 64" "ae_alloc env t (length vs)" "list_all (abi_ok env t) vs"
      and at: "holds_at data off (serialise env (TVector t) (VVector vs))" for vs off
  proof -
    note h = holds_at_append [OF at [unfolded serialise.simps abi_value.case]]
    have b: "off + 32 < 2 ^ 64" using holds_at_bound [OF h(2)] dat by simp
    have "deserialize_u256 data off = Inr (length vs)" "ae_to_size env (length vs) = length vs"
      using word_at [OF h(1) [unfolded serialise_u256_def] _ dat] env ok(1) by (simp_all add: abi_env_ok_def)
    moreover have "deserialize_elements env data t (off + 32) 0 (length vs) = Inr vs"
      using elements_at [OF env dat TVector ok(3)] h(2) by (simp add: MAX_BYTE_LENGTH_def)
    ultimately show ?thesis using ok(2) b by (simp add: MAX_BYTE_LENGTH_def)
  qed
  then show ?case by (auto simp: reads_back_def split: abi_value.splits)
next
  case (TTuple ts)
  have "deserialize env data (TTuple ts) off = Inr (VTuple vs)"
    if ok: "list_all (\<lambda>t. Length t = 1) ts" "items_ok env ts vs"
      and at: "holds_at data off (serialise env (TTuple ts) (VTuple vs))" for vs off
  proof -
    have "holds_at data off (joined (head_tail (length ts * 32) (serialise_items env ts vs)))"
      using at by (simp add: MAX_BYTE_LENGTH_def)
    note h = joined_at [OF this ok(2)]
    have "deserialize_tuple env data ts off 0 = Inr vs"
      by (rule items_at [OF env dat _ ok(2), of _ _ "length ts * 32"])
        (use TTuple h Offset_ones [OF ok(1)] in simp_all)
    then show ?thesis by simp
  qed
  then show ?case by (auto simp: reads_back_def split: abi_value.splits)
qed

section \<open>Properties\<close>

lemma abiOutAux_eq:
  "abi_env_ok env \<Longrightarrow> off < 2 ^ 64 \<Longrightarrow> abiOutAux env data ts off = deserialize_tuple env data ts 0 off"
  by (induction ts arbitrary: off) (auto simp: abi_env_ok_def Offset_def bind_res_def split: sum.splits)

lemma abiOut_body:
  assumes "abi_env_ok env" "items_ok env ts vs"
    and "length (joined (head_tail (Offset ts * 32) (serialise_items env ts vs))) < 2 ^ 64"
  shows "abiOut env (joined (head_tail (Offset ts * 32) (serialise_items env ts vs))) ts = Some vs"
proof -
  let ?data = "joined (head_tail (Offset ts * 32) (serialise_items env ts vs))"
  note h = joined_at [OF holds_at_self assms(2)]
  have "deserialize_tuple env ?data ts 0 0 = Inr vs"
    by (rule items_at [OF assms(1,3) _ assms(2), of _ _ "Offset ts * 32"])
      (use h deserialize_reads_back [OF assms(1,3)] in simp_all)
  then show ?thesis using abiOutAux_eq [OF assms(1), of 0 ?data ts] by (simp add: abiOut_def)
qed

text \<open>
  C5: what abiIn writes abiOut reads back, for arguments of the basic types and nestings of
  arrays, vectors and tuples in which every member of a tuple takes one word in the head (no
  static array of several words inside a tuple) and every signed number is at least minus 7
  times 2 to the 252 (the decoder misreads the smaller ones), as long as the encoding is
  shorter than 2 to the 64.  With a signature the encoding starts with the first four bytes
  of its hash.
\<close>

theorem abi_round_trip:
  assumes "abi_env_ok env" "items_ok env ts vs" "length (abiIn env [] ts vs) < 2 ^ 64"
    and "length (ae_hash env sig) = 32"
  shows "abiOut env (abiIn env [] ts vs) ts = Some vs \<and>
    (sig \<noteq> [] \<longrightarrow> abiIn env sig ts vs = take 4 (ae_hash env sig) @ abiIn env [] ts vs)"
proof -
  have "holds_at (ae_hash env sig) 0 (take 4 (ae_hash env sig))"
    unfolding holds_at_def by (metis append_Nil append_take_drop_id list.size(3))
  then have "crop (ae_hash env sig) 0 4 = take 4 (ae_hash env sig)"
    using crop_holds [of "ae_hash env sig" 0 "take 4 (ae_hash env sig)"] assms(4) by simp
  then show ?thesis using abiOut_body [OF assms(1,2)] assms(3) by (simp add: abiIn_def MAX_BYTE_LENGTH_def)
qed

definition sample_abi_env :: abi_env where
  "sample_abi_env =
     \<lparr>ae_to_u256 = (\<lambda>v. nat (v mod 2 ^ 256)), ae_to_size = (\<lambda>n. n mod 2 ^ 64), ae_alloc = (\<lambda>t n. n \<le> 1000),
      ae_str = (\<lambda>v. to_string (nat v)), ae_hash = (\<lambda>s. replicate 32 7)\<rparr>"

lemma sample_abi_env_ok: "abi_env_ok sample_abi_env"
  by (simp add: abi_env_ok_def sample_abi_env_def)

theorem abi_round_trip_witness:
  "abiOut sample_abi_env (abiIn sample_abi_env [] [TVector TString, TTuple [TS256, TBool]]
       [VVector [VString ''a'', VString ''b''], VTuple [VS256 (- 1), VBool True]]) [TVector TString, TTuple [TS256, TBool]] =
     Some [VVector [VString ''a'', VString ''b''], VTuple [VS256 (- 1), VBool True]]"
proof -
  let ?ts = "[TVector TString, TTuple [TS256, TBool]]"
    and ?vs = "[VVector [VString ''a'', VString ''b''], VTuple [VS256 (- 1), VBool True]]"
  have "items_ok sample_abi_env ?ts ?vs" by (simp add: sample_abi_env_def)
  moreover have "length (abiIn sample_abi_env [] ?ts ?vs) < 2 ^ 64"
    by (simp add: abiIn_def joined_def MAX_BYTE_LENGTH_def ABIDynamicType_def Let_def serialise_string_def
        serialise_bytes_def populate_to_def fb_of_arith_def serialise_s256_def serialise_bool_def)
  ultimately show ?thesis
    using abi_round_trip [OF sample_abi_env_ok, of ?ts ?vs "''f()''"] by (simp add: sample_abi_env_def)
qed

text \<open>
  Signed numbers at the lower end of the range are not read back.  Every number from
  minus 2 to the 255 up to minus 7 times 2 to the 252 is decoded as itself plus 2 to the
  256, a positive number.
\<close>

theorem abi_s256_low_range:
  assumes "abi_env_ok env" "- (2 ^ 255) \<le> v" "v < - 7 * 2 ^ 252"
  shows "deserialize_s256 (serialise_s256 env v) 0 = Inr (v + 2 ^ 256)"
proof -
  have "v mod 2 ^ 256 = (v + 2 ^ 256) mod 2 ^ 256" by simp
  also have "\<dots> = v + 2 ^ 256" using assms(2,3) by (intro mod_pos_pos_trivial) simp_all
  finally have u: "ae_to_u256 env v = nat (v + 2 ^ 256)" using assms(1) by (simp add: abi_env_ok_def)
  have "deserialize_u256 (fb_of_arith 32 (nat (v + 2 ^ 256))) 0 = Inr (nat (v + 2 ^ 256))"
    using assms(3) by (intro word_at holds_at_self) (simp_all add: fb_of_arith_def nat_less_iff)
  then show ?thesis using assms(2,3) u
    by (simp add: deserialize_s256_def serialise_s256_def nat_less_iff zless_nat_eq_int_zless)
qed

theorem abi_s256_low_range_witness:
  "deserialize_s256 (serialise_s256 sample_abi_env (- (2 ^ 255))) 0 = Inr (2 ^ 255)"
  using abi_s256_low_range [OF sample_abi_env_ok, of "- (2 ^ 255)"] by simp

text \<open>
  Offsets wrap around.  An offset word of 2 to the 64 minus one passes the range check
  of the string decoder, and a call whose only argument is such an offset decodes
  successfully to the empty string.
\<close>

theorem abi_wrapped_offset_accepted:
  "abiOut sample_abi_env (serialise_u256 (2 ^ 64 - 1)) [TString] = Some [VString []]"
proof -
  let ?data = "serialise_u256 (2 ^ 64 - 1)"
  have "deserialize_u256 ?data 0 = Inr (2 ^ 64 - 1)"
    unfolding serialise_u256_def by (intro word_at holds_at_self) (simp_all add: fb_of_arith_def)
  moreover have "crop ?data 18446744073709551615 32 = []" "crop ?data 31 0 = []"
    by (simp_all add: crop_def getCroppedData_def null_ref_def word_le_nat_alt)
  ultimately show ?thesis
    by (simp add: abiOut_def ABIDynamicType_def sample_abi_env_def deserialize_string_def deserialize_bytes_def
        deserialize_u256_def [of _ 18446744073709551615] MAX_BYTE_LENGTH_def validOffset_def fromBigEndian_def
        Offset_def string_of_bytes_def)
qed

text \<open>
  Tuples with a static array are not read back.  The offsets written for the dynamic
  items of a tuple count one word per item; after an array of two words the offset of a
  string points at the offset word itself, and decoding succeeds with the 64 bytes of the
  string's encoding in place of the string.
\<close>

theorem abi_tuple_static_array_offset:
  assumes "abi_env_ok env" "a < 2 ^ 256" "b < 2 ^ 256" "0 < length s" "length s \<le> 32"
  shows "abiOut env
      (abiIn env [] [TTuple [TArray 2 TU256, TString]] [VTuple [VArray [VU256 a, VU256 b], VString s]])
      [TTuple [TArray 2 TU256, TString]] =
    Some [VTuple [VArray [VU256 a, VU256 b], VString (string_of_bytes (serialise_string s))]]"
proof -
  let ?t = "TTuple [TArray 2 TU256, TString]" and ?arr = "VArray [VU256 a, VU256 b]"
  let ?ab = "serialise env (TArray 2 TU256) ?arr"
  define data where "data = serialise_u256 32 @ ?ab @ serialise_u256 64 @ serialise_string s"
  have "(length s + 31) div 32 = 1" using assms(4,5) by (intro div_nat_eqI) (linarith, simp)
  then have str: "length (serialise_string s) = 64"
    using assms(5) by (simp add: serialise_string_def serialise_bytes_def populate_to_def MAX_BYTE_LENGTH_def fb_of_arith_def)
  have ab: "length ?ab = 64" using static_length [of "TArray 2 TU256" env ?arr] assms(2,3)
    by (simp add: ABIDynamicType_def)
  have dat: "length data = 192" by (simp add: data_def str ab del: serialise.simps)
  have body: "abiIn env [] [?t] [VTuple [?arr, VString s]] = data"
    by (simp add: data_def abiIn_def joined_def MAX_BYTE_LENGTH_def Offset_def ABIDynamicType_def)
  have lt: "length data < 2 ^ 64" using dat by simp
  note h1 = holds_at_append [OF holds_at_self [of data, unfolded data_def], folded data_def, simplified length_serialise_u256 add_0]
  note h2 = holds_at_append [OF h1(2), unfolded ab]
  note h3 = holds_at_append [OF h2(2), unfolded length_serialise_u256]
  have arr: "deserialize env data (TArray 2 TU256) 32 = Inr ?arr"
    using deserialize_reads_back [OF assms(1) lt, of "TArray 2 TU256"] h2(1) assms(2,3)
    unfolding reads_back_def by (simp del: deserialize.simps serialise.simps)
  have w: "deserialize_u256 data 0 = Inr 32" "deserialize_u256 data 96 = Inr 64"
    using word_at [OF h1(1) [unfolded serialise_u256_def] _ lt] word_at [OF h3(1) [unfolded serialise_u256_def] _ lt]
    by simp_all
  have "crop data 128 64 = serialise_string s" using crop_holds [OF h3(2) lt] str by simp
  moreover have sz: "ae_to_size env 32 = 32" "ae_to_size env 64 = 64" using assms(1) by (simp_all add: abi_env_ok_def)
  ultimately have string: "deserialize env data TString 96 = Inr (VString (string_of_bytes (serialise_string s)))"
    using w(2) dat by (simp add: deserialize_string_def deserialize_bytes_def MAX_BYTE_LENGTH_def validOffset_def)
  have dyn: "ABIDynamicType ?t" "\<not> ABIDynamicType (TArray 2 TU256)" "ABIDynamicType TString"
    by (simp_all add: ABIDynamicType_def)
  show ?thesis unfolding body abiOut_def
    using w sz arr string dyn
    by (simp add: MAX_BYTE_LENGTH_def Offset_def del: deserialize.simps(7,8))
qed

theorem abi_tuple_static_array_offset_witness:
  "abiOut sample_abi_env
      (abiIn sample_abi_env [] [TTuple [TArray 2 TU256, TString]] [VTuple [VArray [VU256 1, VU256 2], VString ''x'']])
      [TTuple [TArray 2 TU256, TString]] =
    Some [VTuple [VArray [VU256 1, VU256 2], VString (string_of_bytes (serialise_string ''x''))]]"
  using abi_tuple_static_array_offset [OF sample_abi_env_ok, of 1 2 "''x''"] by simp

end
