(* ===== verification/Abi_Type.thy ===== *)
theory Abi_Type
  imports Bcos_Prelude
begin

text \<open>
  The parser of Solidity type names and function signatures,
  \<^verbatim>\<open>libcodec/abi/ContractABIType.{h,cpp}\<close>.  Positions in a string are numbers,
  \<^verbatim>\<open>npos\<close> is \<^term>\<open>None\<close>.  Splitting at commas is a library call and a parameter.
\<close>

datatype ABI_ELEMENTARY_TYPE = INVALID | BOOL | INT_T | UINT | BYTESN | ADDR | BYTES | STRING | FIXED | UNFIXED

section \<open>String functions\<close>

fun find_at :: "char \<Rightarrow> nat \<Rightarrow> string \<Rightarrow> nat option" where
  "find_at c i [] = None"
| "find_at c i (x # xs) = (if x = c then Some i else find_at c (Suc i) xs)"

definition find_from :: "char \<Rightarrow> string \<Rightarrow> nat \<Rightarrow> nat option" where
  "find_from c s pos = find_at c pos (drop pos s)"

definition substr :: "string \<Rightarrow> nat \<Rightarrow> nat \<Rightarrow> string" where
  "substr s pos n = take n (drop pos s)"

definition trim :: "string \<Rightarrow> string" where
  "trim s = rev (dropWhile (\<lambda>c. c = CHR '' '') (rev (dropWhile (\<lambda>c. c = CHR '' '') s)))"

text \<open>\<^verbatim>\<open>strtoul\<close> of a string of digits: the largest number on overflow.\<close>

definition strtoul :: "string \<Rightarrow> nat" where
  "strtoul s = min (digits_value s) (2 ^ 64 - 1)"

section \<open>Elementary types\<close>

definition setUint :: "string list" where
  "setUint = ''uint'' # map (\<lambda>i. ''uint'' @ to_string (8 * i)) [1..<33]"

definition setInt :: "string list" where
  "setInt = ''int'' # map (\<lambda>i. ''int'' @ to_string (8 * i)) [1..<33]"

definition setByteN :: "string list" where
  "setByteN = map (\<lambda>i. ''bytes'' @ to_string i) [1..<33]"

definition getEnumType :: "string \<Rightarrow> ABI_ELEMENTARY_TYPE" where
  "getEnumType s =
     (if s = ''bool'' then BOOL
      else if s = ''address'' then ADDR
      else if s = ''string'' then STRING
      else if s = ''bytes'' then BYTES
      else if s \<in> set setUint then UINT
      else if s \<in> set setInt then INT_T
      else if s \<in> set setByteN then BYTESN
      else INVALID)"

record abi_in_type =
  aet :: ABI_ELEMENTARY_TYPE
  strEleType :: string
  strType :: string
  extents :: "nat list"

definition clear_type :: abi_in_type where
  "clear_type = \<lparr>aet = INVALID, strEleType = [], strType = [], extents = []\<rparr>"

lemma find_at_bounds: "find_at c i s = Some j \<Longrightarrow> i \<le> j \<and> j < i + length s"
  by (induction c i s rule: find_at.induct) (auto split: if_splits)

lemma find_from_bounds: "find_from c s pos = Some j \<Longrightarrow> pos \<le> j \<and> j < length s"
  using find_at_bounds [of c pos "drop pos s" j] by (cases "pos \<le> length s") (auto simp: find_from_def)

text \<open>The loop over the dimensions; \<^term>\<open>None\<close> is an invalid format.\<close>

function bracket_loop :: "string \<Rightarrow> nat \<Rightarrow> nat list option" where
  "bracket_loop s leftBracketBak =
     (if leftBracketBak < length s then
        (case (find_from (CHR ''['') s leftBracketBak, find_from (CHR '']'') s leftBracketBak) of
           (Some leftBracket, Some rightBracket) \<Rightarrow>
             if leftBracket \<ge> rightBracket then None
             else
               (let digit = trim (substr s (leftBracket + 1) (rightBracket - leftBracket - 1)) in
                if \<not> list_all is_digit digit then None
                else map_option (Cons (if digit = [] then 0 else strtoul digit))
                       (bracket_loop s (rightBracket + 1)))
         | _ \<Rightarrow> None)
      else Some [])"
  by auto
termination
  by (relation "measure (\<lambda>(s, l). length s - l)") (auto dest!: find_from_bounds [OF sym])

declare bracket_loop.simps [simp del]

text \<open>\<^verbatim>\<open>reset\<close> clears the object first, so a failure leaves it cleared.\<close>

definition reset :: "string \<Rightarrow> bool \<times> abi_in_type" where
  "reset str =
     (let s = trim str;
          firstLeftBracket = find_from (CHR ''['') s 0;
          ele = trim (case firstLeftBracket of None \<Rightarrow> s | Some i \<Rightarrow> substr s 0 i);
          t = getEnumType ele in
      if t = INVALID then (False, clear_type)
      else
        (case (case firstLeftBracket of None \<Rightarrow> Some [] | Some i \<Rightarrow> bracket_loop s i) of
           None \<Rightarrow> (False, clear_type)
         | Some r \<Rightarrow> (True, \<lparr>aet = t, strEleType = ele, strType = s, extents = r\<rparr>)))"

definition rank :: "abi_in_type \<Rightarrow> nat" where
  "rank t = length (extents t)"

text \<open>Index 0 reads before the first element.\<close>

definition extent :: "abi_in_type \<Rightarrow> nat \<Rightarrow> nat option" where
  "extent t index =
     (if index > rank t then Some 0 else if index = 0 then None else Some (extents t ! (index - 1)))"

definition removeExtent :: "abi_in_type \<Rightarrow> bool \<times> abi_in_type" where
  "removeExtent t =
     (if rank t > 0 then (True, t\<lparr>extents := take (rank t - 1) (extents t)\<rparr>) else (False, t))"

definition dynamic :: "abi_in_type \<Rightarrow> bool" where
  "dynamic t =
     (aet t = STRING \<or> aet t = BYTES \<or> list_ex (\<lambda>i. extent t (i + 1) = Some 0) [0..<rank t])"

definition valid_type :: "abi_in_type \<Rightarrow> bool" where
  "valid_type t = (aet t \<noteq> INVALID)"

section \<open>Function signatures\<close>

record abi_func =
  strFuncName :: string
  strFuncSignature :: string
  allParamsType :: "abi_in_type list"

definition new_abi_func :: abi_func where
  "new_abi_func = \<lparr>strFuncName = [], strFuncSignature = [], allParamsType = []\<rparr>"

text \<open>
  The loop over the parameter types: success, the signature so far and the parsed types.
\<close>

fun param_loop :: "string list \<Rightarrow> string \<Rightarrow> abi_in_type list \<Rightarrow> bool \<times> string \<times> abi_in_type list" where
  "param_loop [] sig params = (True, sig, params)"
| "param_loop (ty # tys) sig params =
     (let type = trim ty in
      if type = [] then param_loop tys sig params
      else
        (case reset type of
           (False, _) \<Rightarrow> (False, sig @ type @ '','', params)
         | (True, at) \<Rightarrow> param_loop tys (sig @ type @ '','') (params @ [at])))"

definition parser :: "(string \<Rightarrow> string list) \<Rightarrow> abi_func \<Rightarrow> string \<Rightarrow> bool \<times> abi_func" where
  "parser split f sig =
     (case (find_from (CHR ''('') sig 0, find_from (CHR '')'') sig 0) of
        (Some i0, Some i1) \<Rightarrow>
          if i1 \<le> i0 then (False, f)
          else
            (let name = trim (substr sig 0 i0);
                 strTypes = substr sig (i0 + 1) (i1 - i0 - 1) in
             (case param_loop (split strTypes) (name @ ''('') (allParamsType f) of
                (False, _, params) \<Rightarrow> (False, f\<lparr>allParamsType := params\<rparr>)
              | (True, s, params) \<Rightarrow>
                  (True, \<lparr>strFuncName = name,
                          strFuncSignature = (if last s = CHR '','' then butlast s @ '')'' else s @ '')''),
                          allParamsType = params\<rparr>)))
      | _ \<Rightarrow> (False, f))"

definition getParamsType :: "abi_func \<Rightarrow> string list" where
  "getParamsType f = map strType (allParamsType f)"

section \<open>Parsing what was printed\<close>

definition print_dim :: "nat \<Rightarrow> string" where
  "print_dim d = ''['' @ (if d = 0 then [] else to_string d) @ '']''"

definition print_type :: "string \<Rightarrow> nat list \<Rightarrow> string" where
  "print_type ele dims = ele @ concat (map print_dim dims)"

lemma digit_not: "is_digit c \<Longrightarrow> c \<notin> {CHR '' '', CHR ''['', CHR '']'', CHR ''('', CHR '')'', CHR '',''}"
  by (auto simp: is_digit_def less_eq_char_def)

lemma strtoul_to_string: "d < 2 ^ 64 \<Longrightarrow> strtoul (to_string d) = d"
  by (simp add: strtoul_def digits_value_to_string)

lemma trim_id: "s = [] \<or> hd s \<noteq> CHR '' '' \<and> last s \<noteq> CHR '' '' \<Longrightarrow> trim s = s"
proof (cases "s = []")
  case False
  assume "s = [] \<or> hd s \<noteq> CHR '' '' \<and> last s \<noteq> CHR '' ''"
  with False have h: "hd s \<noteq> CHR '' ''" "hd (rev s) \<noteq> CHR '' ''" by (simp_all add: hd_rev)
  have id: "dropWhile (\<lambda>c. c = CHR '' '') t = t" if "t = [] \<or> hd t \<noteq> CHR '' ''" for t
    using that by (cases t) simp_all
  show ?thesis using id [of s] id [of "rev s"] h by (simp add: trim_def)
qed (simp add: trim_def)

lemma trim_no_space: "CHR '' '' \<notin> set s \<Longrightarrow> trim s = s"
  by (rule trim_id) (metis hd_in_set last_in_set)

lemma find_at_append: "c \<notin> set xs \<Longrightarrow> find_at c i (xs @ c # ys) = Some (i + length xs)"
  by (induction xs arbitrary: i) auto

lemma find_at_none: "c \<notin> set xs \<Longrightarrow> find_at c i xs = None"
  by (induction xs arbitrary: i) auto

lemma find_from_append:
  "c \<notin> set xs \<Longrightarrow> find_from c (pre @ xs @ c # ys) (length pre) = Some (length pre + length xs)"
  by (simp add: find_from_def find_at_append)

definition dim_digits :: "nat \<Rightarrow> string" where
  "dim_digits d = (if d = 0 then [] else to_string d)"

lemma dim_digits_all: "list_all is_digit (dim_digits d)"
  by (simp add: dim_digits_def to_string_digits)

lemma dim_digits_chars:
  assumes "c \<in> {CHR '' '', CHR ''['', CHR '']'', CHR ''('', CHR '')'', CHR '',''}"
  shows "c \<notin> set (dim_digits d)"
  using dim_digits_all [of d] digit_not [of c] assms by (auto simp: list_all_iff)

lemma print_dim_eq: "print_dim d = CHR ''['' # dim_digits d @ [CHR '']'']"
  by (simp add: print_dim_def dim_digits_def)

lemma bracket_loop_dims:
  "\<forall>d \<in> set dims. d < 2 ^ 64 \<Longrightarrow> bracket_loop (pre @ concat (map print_dim dims)) (length pre) = Some dims"
proof (induction dims arbitrary: pre)
  case Nil
  then show ?case by (subst bracket_loop.simps) simp
next
  case (Cons d dims)
  let ?dg = "dim_digits d" and ?rest = "concat (map print_dim dims)"
  define s where "s = pre @ concat (map print_dim (d # dims))"
  have s: "s = pre @ [] @ CHR ''['' # ?dg @ CHR '']'' # ?rest"
    "s = pre @ (CHR ''['' # ?dg) @ CHR '']'' # ?rest"
    "s = (pre @ print_dim d) @ ?rest"
    by (simp_all add: s_def print_dim_eq)
  have l: "find_from (CHR ''['') s (length pre) = Some (length pre)"
    unfolding s(1) by (subst find_from_append) simp_all
  have r: "find_from (CHR '']'') s (length pre) = Some (length pre + Suc (length ?dg))"
    unfolding s(2) by (subst find_from_append) (simp_all add: dim_digits_chars)
  have dg: "substr s (length pre + 1) (length pre + Suc (length ?dg) - length pre - 1) = ?dg"
    by (simp add: s(1) substr_def)
  have v: "(if ?dg = [] then 0 else strtoul ?dg) = d"
    using Cons.prems strtoul_to_string [of d] by (simp add: dim_digits_def)
  have ih: "bracket_loop s (length pre + Suc (length ?dg) + 1) = Some dims"
  proof -
    have "length (pre @ print_dim d) = length pre + Suc (length ?dg) + 1" by (simp add: print_dim_eq)
    then show ?thesis using Cons.IH [of "pre @ print_dim d", folded s(3)] Cons.prems by simp
  qed
  have "bracket_loop s (length pre) = Some (d # dims)"
    by (subst bracket_loop.simps)
      (simp add: l r dg [simplified] v ih [simplified] trim_no_space dim_digits_chars dim_digits_all,
        simp add: s(1))
  then show ?case by (simp add: s_def)
qed

definition elementary_names :: "string list" where
  "elementary_names = [''bool'', ''address'', ''string'', ''bytes''] @ setUint @ setInt @ setByteN"

lemma elementary_iff: "getEnumType e \<noteq> INVALID \<longleftrightarrow> e \<in> set elementary_names"
  by (auto simp: getEnumType_def elementary_names_def)

lemma to_string_chars:
  assumes "c \<in> {CHR '' '', CHR ''['', CHR '']'', CHR ''('', CHR '')'', CHR '',''}"
  shows "c \<notin> set (to_string n)"
  using to_string_digits [of n] digit_not [of c] assms by (auto simp: list_all_iff)

lemma sized_names:
  "e \<in> set setUint \<Longrightarrow> e = ''uint'' \<or> (\<exists>n. e = ''uint'' @ to_string n)"
  "e \<in> set setInt \<Longrightarrow> e = ''int'' \<or> (\<exists>n. e = ''int'' @ to_string n)"
  "e \<in> set setByteN \<Longrightarrow> \<exists>n. e = ''bytes'' @ to_string n"
  unfolding setUint_def setInt_def setByteN_def by auto

lemma elementary_chars:
  assumes "e \<in> set elementary_names" "c \<in> {CHR '' '', CHR ''['', CHR '']'', CHR ''('', CHR '')'', CHR '',''}"
  shows "c \<notin> set e"
proof -
  have p: "c \<notin> set ''bool''" "c \<notin> set ''address''" "c \<notin> set ''string''" "c \<notin> set ''bytes''" "c \<notin> set ''uint''"
    "c \<notin> set ''int''" using assms(2) by auto
  consider "e \<in> set [''bool'', ''address'', ''string'', ''bytes'']" | "e \<in> set setUint" | "e \<in> set setInt" | "e \<in> set setByteN"
    using assms(1) unfolding elementary_names_def by fastforce
  then show ?thesis
  proof cases
    case 1
    then show ?thesis using p by fastforce
  qed (use p to_string_chars [OF assms(2)] sized_names [of e] in \<open>metis Un_iff set_append\<close>)+
qed

lemma elementary_nonempty: "e \<in> set elementary_names \<Longrightarrow> e \<noteq> []"
  using sized_names [of "[]"] by (auto simp: elementary_names_def)

lemma print_type_chars:
  assumes "e \<in> set elementary_names" "c \<in> {CHR '' '', CHR ''('', CHR '')'', CHR '',''}"
  shows "c \<notin> set (print_type e dims)"
proof -
  have "c \<notin> set (print_dim d)" for d using assms(2) dim_digits_chars [of c d] by (auto simp: print_dim_eq)
  moreover have "c \<notin> set e" using elementary_chars [OF assms(1), of c] assms(2) by blast
  ultimately show ?thesis by (simp add: print_type_def)
qed

lemma reset_print_type:
  assumes "e \<in> set elementary_names" "\<forall>d \<in> set dims. d < 2 ^ 64"
  shows "reset (print_type e dims) =
    (True, \<lparr>aet = getEnumType e, strEleType = e, strType = print_type e dims, extents = dims\<rparr>)"
proof -
  let ?s = "print_type e dims"
  have nb: "CHR ''['' \<notin> set e" and te: "trim e = e"
    using elementary_chars [OF assms(1)] trim_no_space by auto
  have ts: "trim ?s = ?s" using print_type_chars [OF assms(1)] trim_no_space by blast
  have inv: "getEnumType e \<noteq> INVALID" using assms(1) elementary_iff by blast
  show ?thesis
  proof (cases dims)
    case Nil
    then have "find_from (CHR ''['') ?s 0 = None" using nb by (simp add: find_from_def print_type_def find_at_none)
    then show ?thesis using Nil ts te inv by (simp add: reset_def Let_def print_type_def)
  next
    case (Cons d ds)
    have "find_from (CHR ''['') ([] @ e @ CHR ''['' # (dim_digits d @ CHR '']'' # concat (map print_dim ds))) (length ([] :: string)) =
      Some (length ([] :: string) + length e)" by (rule find_from_append [OF nb])
    then have f: "find_from (CHR ''['') ?s 0 = Some (length e)" using Cons by (simp add: print_type_def print_dim_eq)
    have "bracket_loop ?s (length e) = Some dims"
      using bracket_loop_dims [OF assms(2), of e] by (simp add: print_type_def)
    moreover have "substr ?s 0 (length e) = e" by (simp add: substr_def print_type_def)
    ultimately show ?thesis using f ts te inv by (simp add: reset_def Let_def)
  qed
qed

text \<open>A signature printed from a name and a list of types.\<close>

fun join :: "string list \<Rightarrow> string" where
  "join [] = []"
| "join [x] = x"
| "join (x # xs) = x @ '','' @ join xs"

text \<open>What the parser relies on of the split at commas: it undoes joining.\<close>

definition splits_commas :: "(string \<Rightarrow> string list) \<Rightarrow> bool" where
  "splits_commas split =
     (\<forall>xs. xs \<noteq> [] \<longrightarrow> (\<forall>x \<in> set xs. CHR '','' \<notin> set x) \<longrightarrow> split (join xs) = xs)"

lemma param_loop_printed:
  "\<forall>(e, dims) \<in> set ps. e \<in> set elementary_names \<and> (\<forall>d \<in> set dims. d < 2 ^ 64) \<Longrightarrow>
   param_loop (map (\<lambda>(e, dims). print_type e dims) ps) sig params =
     (True, sig @ concat (map (\<lambda>(e, dims). print_type e dims @ '','') ps),
      params @ map (\<lambda>(e, dims). \<lparr>aet = getEnumType e, strEleType = e, strType = print_type e dims, extents = dims\<rparr>) ps)"
proof (induction ps arbitrary: sig params)
  case (Cons p ps)
  obtain e dims where p: "p = (e, dims)" by fastforce
  have e: "e \<in> set elementary_names" "\<forall>d \<in> set dims. d < 2 ^ 64" using Cons.prems p by auto
  have "trim (print_type e dims) = print_type e dims" using print_type_chars [OF e(1)] trim_no_space by blast
  moreover have "e \<noteq> []" using e(1) elementary_nonempty by blast
  then have "print_type e dims \<noteq> []" by (simp add: print_type_def)
  ultimately show ?case using Cons reset_print_type [OF e] p by (simp add: Let_def)
qed simp

lemma join_concat: "xs \<noteq> [] \<Longrightarrow> concat (map (\<lambda>x. x @ '','') xs) = join xs @ '',''"
  by (induction xs rule: join.induct) simp_all

lemma join_chars: "c \<noteq> CHR '','' \<Longrightarrow> \<forall>x \<in> set xs. c \<notin> set x \<Longrightarrow> c \<notin> set (join xs)"
  by (induction xs rule: join.induct) simp_all

section \<open>Properties\<close>

text \<open>
  A type name followed by array dimensions parses to that type and those dimensions,
  an empty pair of brackets standing for dimension 0, and the parsed type is dynamic
  exactly for string, bytes and a dimension 0.
\<close>

theorem type_parse_print:
  assumes "getEnumType e \<noteq> INVALID" "\<forall>d \<in> set dims. d < 2 ^ 64"
  shows "\<exists>t. reset (print_type e dims) = (True, t) \<and> aet t = getEnumType e \<and> strEleType t = e \<and>
    extents t = dims \<and> dynamic t = (getEnumType e \<in> {STRING, BYTES} \<or> 0 \<in> set dims)"
proof -
  have "list_ex (\<lambda>i. \<not> length dims < Suc i \<longrightarrow> dims ! i = 0) [0..<length dims] = (0 \<in> set dims)"
    by (auto simp: list_ex_iff in_set_conv_nth)
  then show ?thesis using reset_print_type [OF assms(1) [unfolded elementary_iff] assms(2)]
    by (simp add: dynamic_def extent_def rank_def)
qed

theorem type_parse_print_witness:
  "\<exists>t. reset (print_type ''uint'' [3, 0]) = (True, t) \<and> extents t = [3, 0] \<and> dynamic t"
proof -
  have "getEnumType ''uint'' \<noteq> INVALID" unfolding getEnumType_def setUint_def by simp
  from type_parse_print [OF this, of "[3, 0]"] show ?thesis by auto
qed

text \<open>
  C38: a function signature printed from a name and parameter types parses to that name and
  those types, and the stored signature is the canonical text; the types are added to
  those of an earlier call.
\<close>

theorem signature_parse:
  assumes "splits_commas split" "ps \<noteq> []"
    and "\<forall>(e, dims) \<in> set ps. getEnumType e \<noteq> INVALID \<and> (\<forall>d \<in> set dims. d < 2 ^ 64)"
    and "\<forall>c \<in> set name. c \<notin> {CHR '' '', CHR ''('', CHR '')''}"
    and "sig = name @ ''('' @ join (map (\<lambda>(e, dims). print_type e dims) ps) @ '')''"
  shows "\<exists>f'. parser split f sig = (True, f') \<and> strFuncName f' = name \<and> strFuncSignature f' = sig \<and>
    getParamsType f' = getParamsType f @ map (\<lambda>(e, dims). print_type e dims) ps"
proof -
  let ?ts = "map (\<lambda>(e, dims). print_type e dims) ps"
  have ps: "\<forall>(e, dims) \<in> set ps. e \<in> set elementary_names \<and> (\<forall>d \<in> set dims. d < 2 ^ 64)"
    using assms(3) by (auto simp: elementary_iff)
  have chars: "\<forall>x \<in> set ?ts. c \<notin> set x" if "c \<in> {CHR '' '', CHR ''('', CHR '')'', CHR '',''}" for c
    using ps print_type_chars [OF _ that] by fastforce
  have split: "split (join ?ts) = ?ts"
    using assms(1,2) chars [of "CHR '',''"] by (simp add: splits_commas_def)
  have n: "CHR ''('' \<notin> set name" "CHR '')'' \<notin> set name" "CHR '' '' \<notin> set name" using assms(4) by auto
  have j: "CHR '')'' \<notin> set (join ?ts)" using join_chars chars by auto
  have s: "sig = [] @ name @ CHR ''('' # (join ?ts @ '')'')" "sig = [] @ (name @ ''('' @ join ?ts) @ CHR '')'' # []"
    using assms(5) by simp_all
  have "find_from (CHR ''('') sig (length ([] :: string)) = Some (length ([] :: string) + length name)"
    unfolding s(1) by (rule find_from_append [OF n(1)])
  moreover have "find_from (CHR '')'') sig (length ([] :: string)) = Some (length ([] :: string) + length (name @ ''('' @ join ?ts))"
    unfolding s(2) by (rule find_from_append) (use n(2) j in simp)
  moreover have "substr sig 0 (length name) = name" "substr sig (length name + 1) (length (join ?ts)) = join ?ts"
    by (simp_all add: s(1) substr_def)
  moreover have "concat (map (\<lambda>(e, dims). print_type e dims @ '','') ps) = join ?ts @ '',''"
    using join_concat [of ?ts] assms(2) by (simp add: comp_def case_prod_unfold)
  ultimately show ?thesis
    using param_loop_printed [OF ps, of "name @ ''(''" "allParamsType f"] split trim_no_space [OF n(3)] assms(5)
    by (simp add: parser_def getParamsType_def comp_def case_prod_unfold butlast_append)
qed

fun split_at :: "char \<Rightarrow> string \<Rightarrow> string list" where
  "split_at c [] = [[]]"
| "split_at c (x # xs) =
     (if x = c then [] # split_at c xs
      else (case split_at c xs of [] \<Rightarrow> [[x]] | y # ys \<Rightarrow> (x # y) # ys))"

lemma split_at_append: "c \<notin> set x \<Longrightarrow> split_at c (x @ c # ys) = x # split_at c ys"
  by (induction x) auto

lemma split_at_single: "c \<notin> set x \<Longrightarrow> split_at c x = [x]"
  by (induction x) auto

lemma split_at_commas: "splits_commas (split_at (CHR '',''))"
proof -
  have "xs \<noteq> [] \<Longrightarrow> \<forall>x \<in> set xs. CHR '','' \<notin> set x \<Longrightarrow> split_at (CHR '','') (join xs) = xs" for xs
    by (induction xs rule: join.induct) (simp_all add: split_at_append split_at_single)
  then show ?thesis by (simp add: splits_commas_def)
qed

theorem signature_parse_witness:
  "\<exists>f'. parser (split_at (CHR '','')) new_abi_func ''set(string,bool[])'' = (True, f') \<and>
     strFuncSignature f' = ''set(string,bool[])'' \<and> getParamsType f' = [''string'', ''bool[]'']"
proof -
  let ?ps = "[(''string'', []), (''bool'', [0 :: nat])]"
  have sig: "''set(string,bool[])'' = ''set'' @ ''('' @ join (map (\<lambda>(e, dims). print_type e dims) ?ps) @ '')''"
    by (simp add: print_type_def print_dim_def)
  have ps: "?ps \<noteq> []" "\<forall>(e, dims) \<in> set ?ps. getEnumType e \<noteq> INVALID \<and> (\<forall>d \<in> set dims. d < 2 ^ 64)"
    by (simp_all add: getEnumType_def)
  have name: "\<forall>c \<in> set ''set''. c \<notin> {CHR '' '', CHR ''('', CHR '')''}" by simp
  have "getParamsType new_abi_func @ map (\<lambda>(e, dims). print_type e dims) ?ps = [''string'', ''bool[]'']"
    by (simp add: getParamsType_def new_abi_func_def print_type_def print_dim_def)
  with signature_parse [OF split_at_commas ps name sig, of new_abi_func] show ?thesis by metis
qed

end
