(* ===== verification/Block_Header.thy ===== *)
theory Block_Header
  imports Scale_Props
begin

text \<open>
  Block headers: the SCALE forms of \<^verbatim>\<open>ParentInfo\<close>, \<^verbatim>\<open>Signature\<close>
  (\<^verbatim>\<open>interfaces/protocol/ProtocolTypeDef.h\<close>) and \<^verbatim>\<open>LogEntry\<close>, the base class
  \<^verbatim>\<open>interfaces/protocol/BlockHeader.h\<close> and its implementation
  \<^verbatim>\<open>libprotocol/protobuf/PBBlockHeader.{h,cpp}\<close>.  The generated message class is a
  record of its fields; writing it to bytes and parsing it are parameters, as are the
  hash, the signature check and the memory of the decoder.  A stream of several values is
  the nested pair of its values.
\<close>

datatype protocol_error =
  PBObjectEncodeException | PBObjectDecodeException | ScaleError scale_error
| InvalidBlockHeader string | InvalidSignatureList string | SealerIndexOutOfRange
| HashMismatch | RecoverFailed | OutOfBounds | NullPointer

definition lift_scale :: "scale_error + 'a \<Rightarrow> protocol_error + 'a" where
  "lift_scale r = (case r of Inl e \<Rightarrow> Inl (ScaleError e) | Inr x \<Rightarrow> Inr x)"

section \<open>Parts\<close>

record parent_info =
  pi_blockNumber :: int
  pi_blockHash :: bytes

record signature =
  sig_index :: int
  sig_signature :: bytes

record log_entry =
  le_address :: bytes
  le_topics :: "bytes list"
  le_data :: bytes

text \<open>Decoding a value through a conversion.\<close>

definition decode_as :: "('a \<Rightarrow> 'b) \<Rightarrow> 'a decoder \<Rightarrow> 'b decoder" where
  "decode_as f dec s = bind_res (dec s) (\<lambda>(x, rest). Inr (f x, rest))"

definition encode_parent_info :: "parent_info encoder" where
  "encode_parent_info p = encode_pair (encodeInteger 8) encode_fixed_bytes (pi_blockNumber p, pi_blockHash p)"

definition decode_parent_info :: "scale_env \<Rightarrow> parent_info decoder" where
  "decode_parent_info env =
     decode_as (\<lambda>(n, h). \<lparr>pi_blockNumber = n, pi_blockHash = h\<rparr>)
       (decode_pair (decodeInteger True 8) (decode_fixed_bytes env 32))"

definition encode_signature :: "signature encoder" where
  "encode_signature p = encode_pair (encodeInteger 8) encode_bytes (sig_index p, sig_signature p)"

definition decode_signature :: "scale_env \<Rightarrow> signature decoder" where
  "decode_signature env =
     decode_as (\<lambda>(i, d). \<lparr>sig_index = i, sig_signature = d\<rparr>)
       (decode_pair (decodeInteger True 8) (decode_bytes env))"

definition encode_log_entry :: "log_entry encoder" where
  "encode_log_entry e =
     encode_pair encode_bytes (encode_pair (encode_vector encode_fixed_bytes) encode_bytes)
       (le_address e, le_topics e, le_data e)"

definition decode_log_entry :: "scale_env \<Rightarrow> log_entry decoder" where
  "decode_log_entry env =
     decode_as (\<lambda>(a, t, d). \<lparr>le_address = a, le_topics = t, le_data = d\<rparr>)
       (decode_pair (decode_bytes env)
         (decode_pair (decode_vector env (decode_fixed_bytes env 32)) (decode_bytes env)))"

section \<open>The header object\<close>

record hash_fields =
  m_parentInfo :: "parent_info list"
  m_txsRoot :: bytes
  m_receiptsRoot :: bytes
  m_stateRoot :: bytes
  m_number :: int
  m_gasUsed :: nat
  m_timestamp :: int
  m_sealer :: int
  m_sealerList :: "bytes list"
  m_consensusWeights :: "int list"
  m_extraData :: bytes

text \<open>The generated message \<^verbatim>\<open>PBRawBlockHeader\<close>.\<close>

record pb_header =
  pbh_version :: int
  pbh_hashfieldsdata :: bytes
  pbh_signaturelist :: "(int \<times> bytes) list"

record block_header =
  m_blockHeader :: pb_header
  m_fields :: hash_fields
  m_signatureList :: "signature list"
  m_dataCache :: bytes

definition InvalidSealerIndex :: int where "InvalidSealerIndex = 2 ^ 63 - 1"

text \<open>
  A new object.  The constructor does not initialise \<^verbatim>\<open>m_number\<close>; its value is the
  parameter.
\<close>

definition new_block_header :: "int \<Rightarrow> block_header" where
  "new_block_header uninit =
     \<lparr>m_blockHeader = \<lparr>pbh_version = 0, pbh_hashfieldsdata = [], pbh_signaturelist = []\<rparr>,
      m_fields = \<lparr>m_parentInfo = [], m_txsRoot = fb_zero 32, m_receiptsRoot = fb_zero 32,
        m_stateRoot = fb_zero 32, m_number = uninit, m_gasUsed = 0, m_timestamp = 0,
        m_sealer = InvalidSealerIndex, m_sealerList = [], m_consensusWeights = [], m_extraData = []\<rparr>,
      m_signatureList = [], m_dataCache = []\<rparr>"

definition fields_tuple ::
    "hash_fields \<Rightarrow> parent_info list \<times> bytes \<times> bytes \<times> bytes \<times> int \<times> nat \<times> int \<times> int \<times> bytes list \<times> int list \<times> bytes" where
  "fields_tuple f =
     (m_parentInfo f, m_txsRoot f, m_receiptsRoot f, m_stateRoot f, m_number f, m_gasUsed f,
      m_timestamp f, m_sealer f, m_sealerList f, m_consensusWeights f, m_extraData f)"

definition tuple_fields ::
    "parent_info list \<times> bytes \<times> bytes \<times> bytes \<times> int \<times> nat \<times> int \<times> int \<times> bytes list \<times> int list \<times> bytes \<Rightarrow> hash_fields" where
  "tuple_fields t =
     (case t of (pis, tr, rr, sr, n, g, ts, sl, sls, ws, x) \<Rightarrow>
        \<lparr>m_parentInfo = pis, m_txsRoot = tr, m_receiptsRoot = rr, m_stateRoot = sr, m_number = n,
         m_gasUsed = g, m_timestamp = ts, m_sealer = sl, m_sealerList = sls, m_consensusWeights = ws,
         m_extraData = x\<rparr>)"

definition encode_hash_fields :: "hash_fields encoder" where
  "encode_hash_fields f =
     encode_pair (encode_vector encode_parent_info) (encode_pair encode_fixed_bytes
      (encode_pair encode_fixed_bytes (encode_pair encode_fixed_bytes (encode_pair (encodeInteger 8)
      (encode_pair encode_u256 (encode_pair (encodeInteger 8) (encode_pair (encodeInteger 8)
      (encode_pair (encode_vector encode_bytes) (encode_pair (encode_vector (encodeInteger 8))
      encode_bytes))))))))) (fields_tuple f)"

definition decode_hash_fields :: "scale_env \<Rightarrow> hash_fields decoder" where
  "decode_hash_fields env =
     decode_as tuple_fields
      (decode_pair (decode_vector env (decode_parent_info env)) (decode_pair (decode_fixed_bytes env 32)
       (decode_pair (decode_fixed_bytes env 32) (decode_pair (decode_fixed_bytes env 32)
       (decode_pair (decodeInteger True 8) (decode_pair decode_u256 (decode_pair (decodeInteger True 8)
       (decode_pair (decodeInteger True 8) (decode_pair (decode_vector env (decode_bytes env))
       (decode_pair (decode_vector env (decodeInteger False 8)) (decode_bytes env)))))))))))"

text \<open>The state of an object whose decoding raised is not modelled.\<close>

definition decode :: "(bytes \<Rightarrow> pb_header option) \<Rightarrow> scale_env \<Rightarrow> block_header \<Rightarrow> bytes \<Rightarrow> protocol_error + block_header" where
  "decode parse env h data =
     (case parse data of
        None \<Rightarrow> Inl PBObjectDecodeException
      | Some pb \<Rightarrow>
          bind_res (lift_scale (decode_hash_fields env (pbh_hashfieldsdata pb)))
            (\<lambda>(f, _). Inr (h\<lparr>m_dataCache := data, m_blockHeader := pb, m_fields := f,
               m_signatureList := m_signatureList h @
                 map (\<lambda>(i, d). \<lparr>sig_index = i, sig_signature = d\<rparr>) (pbh_signaturelist pb)\<rparr>)))"

definition encodeHashFields :: "block_header \<Rightarrow> protocol_error + block_header" where
  "encodeHashFields h =
     (if pbh_hashfieldsdata (m_blockHeader h) \<noteq> [] then Inr h
      else bind_res (lift_scale (encode_hash_fields (m_fields h)))
        (\<lambda>d. Inr (h\<lparr>m_blockHeader := (m_blockHeader h)\<lparr>pbh_hashfieldsdata := d\<rparr>\<rparr>)))"

definition encodeSignatureList :: "block_header \<Rightarrow> block_header" where
  "encodeSignatureList h =
     (if pbh_signaturelist (m_blockHeader h) \<noteq> [] then h
      else h\<lparr>m_blockHeader := (m_blockHeader h)
             \<lparr>pbh_signaturelist := map (\<lambda>s. (sig_index s, sig_signature s)) (m_signatureList h)\<rparr>\<rparr>)"

definition encode :: "(pb_header \<Rightarrow> bytes option) \<Rightarrow> block_header \<Rightarrow> protocol_error + bytes \<times> block_header" where
  "encode serialize h =
     bind_res (encodeHashFields h)
       (\<lambda>h1. let h2 = encodeSignatureList h1 in
          case serialize (m_blockHeader h2) of
            None \<Rightarrow> Inl PBObjectEncodeException
          | Some data \<Rightarrow> Inr (data, h2))"

definition header_hash :: "(bytes \<Rightarrow> bytes) \<Rightarrow> block_header \<Rightarrow> protocol_error + bytes \<times> block_header" where
  "header_hash H h =
     bind_res (encodeHashFields h) (\<lambda>h1. Inr (H (pbh_hashfieldsdata (m_blockHeader h1)), h1))"

definition noteDirty :: "block_header \<Rightarrow> block_header" where
  "noteDirty h = h\<lparr>m_blockHeader := (m_blockHeader h)\<lparr>pbh_hashfieldsdata := []\<rparr>, m_dataCache := []\<rparr>"

definition noteSignatureDirty :: "block_header \<Rightarrow> block_header" where
  "noteSignatureDirty h = h\<lparr>m_blockHeader := (m_blockHeader h)\<lparr>pbh_signaturelist := []\<rparr>\<rparr>"

definition setVersion :: "int \<Rightarrow> block_header \<Rightarrow> block_header" where
  "setVersion v h = h\<lparr>m_blockHeader := (m_blockHeader h)\<lparr>pbh_version := v\<rparr>\<rparr>"

definition setParentInfo :: "parent_info list \<Rightarrow> block_header \<Rightarrow> block_header" where
  "setParentInfo v h = noteDirty (h\<lparr>m_fields := (m_fields h)\<lparr>m_parentInfo := v\<rparr>\<rparr>)"

definition setTxsRoot :: "bytes \<Rightarrow> block_header \<Rightarrow> block_header" where
  "setTxsRoot v h = noteDirty (h\<lparr>m_fields := (m_fields h)\<lparr>m_txsRoot := v\<rparr>\<rparr>)"

definition setReceiptsRoot :: "bytes \<Rightarrow> block_header \<Rightarrow> block_header" where
  "setReceiptsRoot v h = noteDirty (h\<lparr>m_fields := (m_fields h)\<lparr>m_receiptsRoot := v\<rparr>\<rparr>)"

definition setStateRoot :: "bytes \<Rightarrow> block_header \<Rightarrow> block_header" where
  "setStateRoot v h = noteDirty (h\<lparr>m_fields := (m_fields h)\<lparr>m_stateRoot := v\<rparr>\<rparr>)"

definition setNumber :: "int \<Rightarrow> block_header \<Rightarrow> block_header" where
  "setNumber v h = noteDirty (h\<lparr>m_fields := (m_fields h)\<lparr>m_number := v\<rparr>\<rparr>)"

definition setGasUsed :: "nat \<Rightarrow> block_header \<Rightarrow> block_header" where
  "setGasUsed v h = noteDirty (h\<lparr>m_fields := (m_fields h)\<lparr>m_gasUsed := v\<rparr>\<rparr>)"

definition setTimestamp :: "int \<Rightarrow> block_header \<Rightarrow> block_header" where
  "setTimestamp v h = noteDirty (h\<lparr>m_fields := (m_fields h)\<lparr>m_timestamp := v\<rparr>\<rparr>)"

definition setSealer :: "int \<Rightarrow> block_header \<Rightarrow> block_header" where
  "setSealer v h = noteDirty (h\<lparr>m_fields := (m_fields h)\<lparr>m_sealer := v\<rparr>\<rparr>)"

definition setSealerList :: "bytes list \<Rightarrow> block_header \<Rightarrow> block_header" where
  "setSealerList v h = noteDirty (h\<lparr>m_fields := (m_fields h)\<lparr>m_sealerList := v\<rparr>\<rparr>)"

definition setConsensusWeights :: "int list \<Rightarrow> block_header \<Rightarrow> block_header" where
  "setConsensusWeights v h = noteDirty (h\<lparr>m_fields := (m_fields h)\<lparr>m_consensusWeights := v\<rparr>\<rparr>)"

definition setExtraData :: "bytes \<Rightarrow> block_header \<Rightarrow> block_header" where
  "setExtraData v h = noteDirty (h\<lparr>m_fields := (m_fields h)\<lparr>m_extraData := v\<rparr>\<rparr>)"

definition setSignatureList :: "signature list \<Rightarrow> block_header \<Rightarrow> block_header" where
  "setSignatureList v h = noteSignatureDirty (h\<lparr>m_signatureList := v\<rparr>)"

definition populateEmptyBlock :: "int \<Rightarrow> int \<Rightarrow> int \<Rightarrow> block_header \<Rightarrow> block_header" where
  "populateEmptyBlock number sealerId timestamp h =
     noteDirty (setTimestamp timestamp (setSealer sealerId (setNumber number h)))"

text \<open>The parents are given by their numbers and hashes.\<close>

definition populateFromParents :: "(int \<times> bytes) list \<Rightarrow> int \<Rightarrow> block_header \<Rightarrow> block_header" where
  "populateFromParents parents number h =
     setNumber number
       (setParentInfo (map (\<lambda>(n, x). \<lparr>pi_blockNumber = n, pi_blockHash = x\<rparr>) parents) h)"

definition clear :: "block_header \<Rightarrow> block_header" where
  "clear h =
     h\<lparr>m_blockHeader := (m_blockHeader h)\<lparr>pbh_hashfieldsdata := [], pbh_signaturelist := []\<rparr>,
       m_fields := (m_fields h)\<lparr>m_parentInfo := [], m_txsRoot := fb_zero 32, m_receiptsRoot := fb_zero 32,
         m_stateRoot := fb_zero 32, m_number := 0, m_gasUsed := 0, m_sealer := InvalidSealerIndex,
         m_sealerList := [], m_extraData := []\<rparr>\<rparr>"

text \<open>\<^verbatim>\<open>BlockHeaderFactory::populateBlockHeader\<close>: a copy of a header.\<close>

definition populateBlockHeader :: "int \<Rightarrow> block_header \<Rightarrow> block_header" where
  "populateBlockHeader uninit src =
     (let f = m_fields src;
          h0 = setVersion (pbh_version (m_blockHeader src)) (new_block_header uninit);
          h1 = setStateRoot (m_stateRoot f) (setReceiptsRoot (m_receiptsRoot f) (setTxsRoot (m_txsRoot f) h0));
          h2 = setTimestamp (m_timestamp f) (setGasUsed (m_gasUsed f) (setNumber (m_number f) h1));
          h3 = setSealerList (m_sealerList f) (setSealer (m_sealer f) h2);
          h4 = setConsensusWeights (m_consensusWeights f) (setSignatureList (m_signatureList src) h3)
      in setExtraData (m_extraData f) (setParentInfo (m_parentInfo f) h4))"

section \<open>Checking the signatures\<close>

text \<open>
  \<^term>\<open>verify key hash sig\<close> is the signature check.  The index of a signature is used
  without a check; outside the sealer list the access is out of range.
\<close>

fun verify_loop ::
    "(bytes \<Rightarrow> bytes \<Rightarrow> bytes \<Rightarrow> bool) \<Rightarrow> bytes \<Rightarrow> bytes list \<Rightarrow> signature list \<Rightarrow> protocol_error + unit" where
  "verify_loop verify hash sealers [] = Inr ()"
| "verify_loop verify hash sealers (s # ss) =
     (if sig_index s < 0 \<or> nat (sig_index s) \<ge> length sealers then Inl SealerIndexOutOfRange
      else if \<not> verify (sealers ! nat (sig_index s)) hash (sig_signature s)
      then Inl (InvalidSignatureList
             (''Invalid signatureList for verify failed, signatureData:'' @ toHexString (sig_signature s) []))
      else verify_loop verify hash sealers ss)"

definition verifySignatureList ::
    "(bytes \<Rightarrow> bytes) \<Rightarrow> (bytes \<Rightarrow> bytes \<Rightarrow> bytes \<Rightarrow> bool) \<Rightarrow> block_header \<Rightarrow> protocol_error + unit" where
  "verifySignatureList H verify h =
     (if length (m_signatureList h) < length (m_sealerList (m_fields h))
      then Inl (InvalidBlockHeader
             ''Invalid blockHeader for the size of sealerList is smaller than the size of signatureList'')
      else if m_signatureList h = [] then Inr ()
      else bind_res (header_hash H h)
        (\<lambda>(hash, _). verify_loop verify hash (m_sealerList (m_fields h)) (m_signatureList h)))"

end
