(* ===== verification/Block_Header_Props.thy ===== *)
theory Block_Header_Props
  imports Block_Header
begin

text \<open>
  Correctness of block headers: the cached encoding always reflects the current fields, an
  encoded header decodes to the same header, and the signature check counts repeated
  signatures.
\<close>

section \<open>Codecs of the parts\<close>

lemma record_codec:
  assumes "scale_codec enc dec D" "\<And>x. g (f x) = x"
  shows "scale_codec (\<lambda>x. enc (f x)) (decode_as g dec) (\<lambda>x. D (f x))"
proof
  fix x
  assume d: "D (f x)"
  show "\<exists>bs. enc (f x) = Inr bs" using stream_codec.enc_ok [OF scale_codec.axioms [OF assms(1)] d] .
  fix bs rest
  assume "enc (f x) = Inr bs"
  from stream_codec.dec_enc [OF scale_codec.axioms [OF assms(1)] d this, of rest]
  show "decode_as g dec (bs @ rest) = Inr (x, rest)" using assms(2) by (simp add: decode_as_def)
qed

definition int64_ok :: "int \<Rightarrow> bool" where
  "int64_ok v = int_dom True 8 v"

definition hash_ok :: "scale_env \<Rightarrow> bytes \<Rightarrow> bool" where
  "hash_ok env h = (length h = 32 \<and> env_fits env 32)"

definition bytes_ok :: "scale_env \<Rightarrow> bytes \<Rightarrow> bool" where
  "bytes_ok env b = env_fits env (length b)"

definition vector_ok :: "scale_env \<Rightarrow> ('a \<Rightarrow> bool) \<Rightarrow> 'a list \<Rightarrow> bool" where
  "vector_ok env P xs = (env_fits env (length xs) \<and> (\<forall>x \<in> set xs. P x))"

interpretation int64: scale_codec "encodeInteger 8" "decodeInteger True 8" int64_ok
  unfolding int64_ok_def by (rule integer_codec.scale_codec_axioms)

interpretation hash: scale_codec encode_fixed_bytes "decode_fixed_bytes env 32" "hash_ok env"
  unfolding hash_ok_def by (rule fixed_codec.scale_codec_axioms)

interpretation blob: scale_codec encode_bytes "decode_bytes env" "bytes_ok env"
  unfolding bytes_ok_def by (rule bytes_codec.scale_codec_axioms)

lemma vector_codec_ok:
  "scale_codec enc dec D \<Longrightarrow> scale_codec (encode_vector enc) (decode_vector env dec) (vector_ok env D)"
  using scale_codec.vector_codec [of enc dec D env] by (simp add: vector_ok_def [abs_def])

definition pair_ok :: "('a \<Rightarrow> bool) \<Rightarrow> ('b \<Rightarrow> bool) \<Rightarrow> 'a \<times> 'b \<Rightarrow> bool" where
  "pair_ok A B p = (A (fst p) \<and> B (snd p))"

lemma pair_codec_ok:
  "scale_codec ea da A \<Longrightarrow> scale_codec eb db B \<Longrightarrow> scale_codec (encode_pair ea eb) (decode_pair da db) (pair_ok A B)"
  using pair_codec [of ea da A eb db B] by (simp add: pair_ok_def [abs_def])

definition parent_info_ok :: "scale_env \<Rightarrow> parent_info \<Rightarrow> bool" where
  "parent_info_ok env p = pair_ok int64_ok (hash_ok env) (pi_blockNumber p, pi_blockHash p)"

interpretation parent: scale_codec encode_parent_info "decode_parent_info env" "parent_info_ok env"
  unfolding encode_parent_info_def decode_parent_info_def parent_info_ok_def
  by (rule record_codec [OF pair_codec_ok [OF int64.scale_codec_axioms hash.scale_codec_axioms]]) simp

definition signature_ok :: "scale_env \<Rightarrow> signature \<Rightarrow> bool" where
  "signature_ok env s = pair_ok int64_ok (bytes_ok env) (sig_index s, sig_signature s)"

interpretation sign: scale_codec encode_signature "decode_signature env" "signature_ok env"
  unfolding encode_signature_def decode_signature_def signature_ok_def
  by (rule record_codec [OF pair_codec_ok [OF int64.scale_codec_axioms blob.scale_codec_axioms]]) simp

definition log_entry_ok :: "scale_env \<Rightarrow> log_entry \<Rightarrow> bool" where
  "log_entry_ok env e =
     pair_ok (bytes_ok env) (pair_ok (vector_ok env (hash_ok env)) (bytes_ok env)) (le_address e, le_topics e, le_data e)"

interpretation log: scale_codec encode_log_entry "decode_log_entry env" "log_entry_ok env"
  unfolding encode_log_entry_def decode_log_entry_def log_entry_ok_def
  by (rule record_codec [OF pair_codec_ok [OF blob.scale_codec_axioms
        pair_codec_ok [OF vector_codec_ok [OF hash.scale_codec_axioms] blob.scale_codec_axioms]]]) simp

definition uint64_ok :: "int \<Rightarrow> bool" where
  "uint64_ok v = int_dom False 8 v"

interpretation uint64: scale_codec "encodeInteger 8" "decodeInteger False 8" uint64_ok
  unfolding uint64_ok_def by (rule integer_codec.scale_codec_axioms)

definition fields_ok :: "scale_env \<Rightarrow> hash_fields \<Rightarrow> bool" where
  "fields_ok env f =
     pair_ok (vector_ok env (parent_info_ok env)) (pair_ok (hash_ok env) (pair_ok (hash_ok env) (pair_ok (hash_ok env)
      (pair_ok int64_ok (pair_ok (\<lambda>v. v < 2 ^ 256) (pair_ok int64_ok (pair_ok int64_ok
      (pair_ok (vector_ok env (bytes_ok env)) (pair_ok (vector_ok env uint64_ok) (bytes_ok env))))))))))
      (fields_tuple f)"

interpretation fields: scale_codec encode_hash_fields "decode_hash_fields env" "fields_ok env"
  unfolding encode_hash_fields_def decode_hash_fields_def fields_ok_def
  by (rule record_codec [OF pair_codec_ok [OF vector_codec_ok [OF parent.scale_codec_axioms] pair_codec_ok [OF
        hash.scale_codec_axioms pair_codec_ok [OF hash.scale_codec_axioms pair_codec_ok [OF hash.scale_codec_axioms
        pair_codec_ok [OF int64.scale_codec_axioms pair_codec_ok [OF u256_codec.scale_codec_axioms
        pair_codec_ok [OF int64.scale_codec_axioms pair_codec_ok [OF int64.scale_codec_axioms
        pair_codec_ok [OF vector_codec_ok [OF blob.scale_codec_axioms]
        pair_codec_ok [OF vector_codec_ok [OF uint64.scale_codec_axioms] blob.scale_codec_axioms]]]]]]]]]]])
    (simp add: fields_tuple_def tuple_fields_def)

section \<open>The cache\<close>

datatype header_op =
  OpVersion int | OpParentInfo "parent_info list" | OpTxsRoot bytes | OpReceiptsRoot bytes | OpStateRoot bytes
| OpNumber int | OpGasUsed nat | OpTimestamp int | OpSealer int | OpSealerList "bytes list" | OpWeights "int list"
| OpExtraData bytes | OpSignatures "signature list" | OpEmptyBlock int int int | OpFromParents "(int \<times> bytes) list" int
| OpClear | OpEncode | OpHash

fun header_step ::
    "(pb_header \<Rightarrow> bytes option) \<Rightarrow> (bytes \<Rightarrow> bytes) \<Rightarrow> header_op \<Rightarrow> block_header \<Rightarrow> block_header \<Rightarrow> bool" where
  "header_step ser H (OpVersion v) h h' = (h' = setVersion v h)"
| "header_step ser H (OpParentInfo v) h h' = (h' = setParentInfo v h)"
| "header_step ser H (OpTxsRoot v) h h' = (h' = setTxsRoot v h)"
| "header_step ser H (OpReceiptsRoot v) h h' = (h' = setReceiptsRoot v h)"
| "header_step ser H (OpStateRoot v) h h' = (h' = setStateRoot v h)"
| "header_step ser H (OpNumber v) h h' = (h' = setNumber v h)"
| "header_step ser H (OpGasUsed v) h h' = (h' = setGasUsed v h)"
| "header_step ser H (OpTimestamp v) h h' = (h' = setTimestamp v h)"
| "header_step ser H (OpSealer v) h h' = (h' = setSealer v h)"
| "header_step ser H (OpSealerList v) h h' = (h' = setSealerList v h)"
| "header_step ser H (OpWeights v) h h' = (h' = setConsensusWeights v h)"
| "header_step ser H (OpExtraData v) h h' = (h' = setExtraData v h)"
| "header_step ser H (OpSignatures v) h h' = (h' = setSignatureList v h)"
| "header_step ser H (OpEmptyBlock n s t) h h' = (h' = populateEmptyBlock n s t h)"
| "header_step ser H (OpFromParents ps n) h h' = (h' = populateFromParents ps n h)"
| "header_step ser H OpClear h h' = (h' = clear h)"
| "header_step ser H OpEncode h h' = (\<exists>data. encode ser h = Inr (data, h'))"
| "header_step ser H OpHash h h' = (\<exists>x. header_hash H h = Inr (x, h'))"

definition pb_signatures :: "signature list \<Rightarrow> (int \<times> bytes) list" where
  "pb_signatures ss = map (\<lambda>s. (sig_index s, sig_signature s)) ss"

text \<open>The message holds nothing or the encoding of the current fields.\<close>

definition header_inv :: "block_header \<Rightarrow> bool" where
  "header_inv h =
     ((pbh_hashfieldsdata (m_blockHeader h) = [] \<or>
       encode_hash_fields (m_fields h) = Inr (pbh_hashfieldsdata (m_blockHeader h))) \<and>
      (pbh_signaturelist (m_blockHeader h) = [] \<or>
       pbh_signaturelist (m_blockHeader h) = pb_signatures (m_signatureList h)))"

lemmas setter_defs = noteDirty_def noteSignatureDirty_def setVersion_def setParentInfo_def setTxsRoot_def
  setReceiptsRoot_def setStateRoot_def setNumber_def setGasUsed_def setTimestamp_def setSealer_def
  setSealerList_def setConsensusWeights_def setExtraData_def setSignatureList_def populateEmptyBlock_def
  populateFromParents_def clear_def

lemma encodeHashFields_inv:
  assumes "header_inv h" "encodeHashFields h = Inr h'"
  shows "header_inv h' \<and> m_fields h' = m_fields h \<and> m_signatureList h' = m_signatureList h \<and>
    encode_hash_fields (m_fields h) = Inr (pbh_hashfieldsdata (m_blockHeader h')) \<and>
    pbh_version (m_blockHeader h') = pbh_version (m_blockHeader h)"
  using assms
  by (auto simp: encodeHashFields_def header_inv_def lift_scale_def bind_res_eq_Inr split: if_splits sum.splits)

lemma encodeHashFields_ok:
  "encode_hash_fields (m_fields h) = Inr bs \<Longrightarrow> \<exists>h1. encodeHashFields h = Inr h1"
  by (simp add: encodeHashFields_def lift_scale_def)

lemma header_hash_inv:
  assumes "header_inv h" "encode_hash_fields (m_fields h) = Inr bs"
  shows "\<exists>h'. header_hash H h = Inr (H bs, h')"
proof -
  obtain h1 where h1: "encodeHashFields h = Inr h1" using encodeHashFields_ok [OF assms(2)] by blast
  then have "pbh_hashfieldsdata (m_blockHeader h1) = bs" using encodeHashFields_inv [OF assms(1) h1] assms(2) by simp
  then show ?thesis using h1 by (simp add: header_hash_def)
qed

lemma encodeSignatureList_inv:
  "header_inv h \<Longrightarrow> header_inv (encodeSignatureList h) \<and>
   pbh_signaturelist (m_blockHeader (encodeSignatureList h)) = pb_signatures (m_signatureList h) \<and>
   m_signatureList (encodeSignatureList h) = m_signatureList h \<and> m_fields (encodeSignatureList h) = m_fields h \<and>
   pbh_hashfieldsdata (m_blockHeader (encodeSignatureList h)) = pbh_hashfieldsdata (m_blockHeader h) \<and>
   pbh_version (m_blockHeader (encodeSignatureList h)) = pbh_version (m_blockHeader h)"
  by (auto simp: encodeSignatureList_def header_inv_def pb_signatures_def)

lemma encode_inv:
  assumes "header_inv h" "encode ser h = Inr (data, h')"
  shows "header_inv h' \<and> m_fields h' = m_fields h \<and> m_signatureList h' = m_signatureList h \<and>
    encode_hash_fields (m_fields h) = Inr (pbh_hashfieldsdata (m_blockHeader h')) \<and>
    pbh_signaturelist (m_blockHeader h') = pb_signatures (m_signatureList h) \<and>
    pbh_version (m_blockHeader h') = pbh_version (m_blockHeader h) \<and> ser (m_blockHeader h') = Some data"
proof -
  obtain h1 where h1: "encodeHashFields h = Inr h1" "h' = encodeSignatureList h1" "ser (m_blockHeader h') = Some data"
    using assms(2) by (auto simp: encode_def bind_res_eq_Inr Let_def split: option.splits)
  show ?thesis using encodeHashFields_inv [OF assms(1) h1(1)] encodeSignatureList_inv [of h1] h1(2,3) by simp
qed

lemma header_decode_encode:
  assumes "header_inv h" "fields_ok env (m_fields h)" "\<forall>pb data. ser pb = Some data \<longrightarrow> parse data = Some pb"
    and "encode ser h = Inr (data, h1)"
  shows "\<exists>h2. decode parse env (new_block_header k) data = Inr h2 \<and> m_fields h2 = m_fields h \<and>
    m_signatureList h2 = m_signatureList h \<and> m_blockHeader h2 = m_blockHeader h1 \<and> header_inv h2"
proof -
  note e = encode_inv [OF assms(1,4)]
  define bs where "bs = pbh_hashfieldsdata (m_blockHeader h1)"
  have bs: "encode_hash_fields (m_fields h) = Inr bs" using e by (simp add: bs_def)
  have "parse data = Some (m_blockHeader h1)" using assms(3) e by blast
  moreover have "decode_hash_fields env bs = Inr (m_fields h, [])"
    using fields.dec_enc [OF assms(2) bs, of "[]"] by simp
  moreover have "map (\<lambda>(i, d). \<lparr>sig_index = i, sig_signature = d\<rparr>) (pbh_signaturelist (m_blockHeader h1)) = m_signatureList h"
    using e by (simp add: pb_signatures_def comp_def map_idI)
  ultimately obtain h2 where "decode parse env (new_block_header k) data = Inr h2" "m_fields h2 = m_fields h"
    "m_signatureList h2 = m_signatureList h" "m_blockHeader h2 = m_blockHeader h1"
    by (simp add: decode_def lift_scale_def bs_def new_block_header_def)
  moreover from this have "header_inv h2" using e by (simp add: header_inv_def)
  ultimately show ?thesis by blast
qed

lemma encode_hash_fields_nonempty: "encode_hash_fields f = Inr bs \<Longrightarrow> bs \<noteq> []"
proof -
  assume e: "encode_hash_fields f = Inr bs"
  have ne: "le_bytes 8 v \<noteq> []" for v using length_le_bytes [of 8 v] by (metis length_0_conv zero_neq_numeral)
  show ?thesis using e
    by (clarsimp simp: encode_hash_fields_def encode_pair_def fields_tuple_def encodeInteger_def bind_res_eq_Inr ne)
qed

text \<open>A copied header has the fields, the signatures and so the hash of the original.\<close>

lemma populateBlockHeader_copies:
  "m_fields (populateBlockHeader u h) = m_fields h \<and> m_signatureList (populateBlockHeader u h) = m_signatureList h \<and>
   pbh_version (m_blockHeader (populateBlockHeader u h)) = pbh_version (m_blockHeader h) \<and>
   header_inv (populateBlockHeader u h)"
  by (simp add: populateBlockHeader_def Let_def setter_defs new_block_header_def header_inv_def)

interpretation header: transition_system "\<lambda>h. \<exists>n. h = new_block_header n" "header_step ser H" header_inv
proof
  show "header_inv h" if "\<exists>n. h = new_block_header n" for h
    using that by (auto simp: header_inv_def new_block_header_def)
  show "header_inv h'" if inv: "header_inv h" and st: "header_step ser H l h h'" for l h h'
  proof (cases l)
    case OpEncode
    then obtain data where "encode ser h = Inr (data, h')" using st by auto
    from encode_inv [OF inv this] show ?thesis by simp
  next
    case OpHash
    then obtain x where "header_hash H h = Inr (x, h')" using st by auto
    then have "encodeHashFields h = Inr h'" by (auto simp: header_hash_def bind_res_eq_Inr)
    from encodeHashFields_inv [OF inv this] show ?thesis by simp
  qed (use inv st in \<open>simp_all add: setter_defs header_inv_def\<close>)
qed

text \<open>
  A header object that is also decoded into.  Its cached bytes then come from the wire: they
  need not be what the encoder writes for the fields, but they decode to them.
\<close>

datatype life_op = OpSet header_op | OpDecode bytes

fun header_life ::
    "(pb_header \<Rightarrow> bytes option) \<Rightarrow> (bytes \<Rightarrow> pb_header option) \<Rightarrow> scale_env \<Rightarrow> (bytes \<Rightarrow> bytes) \<Rightarrow>
      life_op \<Rightarrow> block_header \<Rightarrow> block_header \<Rightarrow> bool" where
  "header_life ser parse env H (OpSet op) h h' = header_step ser H op h h'"
| "header_life ser parse env H (OpDecode data) h h' = (decode parse env h data = Inr h')"

definition reads_back :: "scale_env \<Rightarrow> bytes \<Rightarrow> hash_fields \<Rightarrow> bool" where
  "reads_back env d f = (\<exists>rest. decode_hash_fields env d = Inr (f, rest))"

definition life_inv :: "scale_env \<Rightarrow> block_header \<Rightarrow> bool" where
  "life_inv env h =
     (let d = pbh_hashfieldsdata (m_blockHeader h) in
      d = [] \<or> encode_hash_fields (m_fields h) = Inr d \<or> reads_back env d (m_fields h))"

lemma encodeHashFields_life:
  assumes "life_inv env h" "encodeHashFields h = Inr h'"
  shows "m_fields h' = m_fields h \<and>
    (encode_hash_fields (m_fields h) = Inr (pbh_hashfieldsdata (m_blockHeader h')) \<or>
     reads_back env (pbh_hashfieldsdata (m_blockHeader h')) (m_fields h))"
  using assms
  by (auto simp: encodeHashFields_def life_inv_def Let_def lift_scale_def bind_res_eq_Inr split: if_splits sum.splits)

lemma life_inv_encode:
  assumes "life_inv env h" "encode ser h = Inr (data, h')"
  shows "life_inv env h'"
proof -
  obtain h1 where "encodeHashFields h = Inr h1" "h' = encodeSignatureList h1"
    using assms(2) by (auto simp: encode_def bind_res_eq_Inr Let_def split: option.splits)
  then show ?thesis using encodeHashFields_life [OF assms(1)] by (auto simp: life_inv_def encodeSignatureList_def)
qed

lemma life_inv_step:
  assumes "life_inv env h" "header_life ser parse env H l h h'"
  shows "life_inv env h'"
proof (cases l)
  case (OpDecode data)
  then show ?thesis using assms(2)
    by (auto simp: life_inv_def reads_back_def decode_def lift_scale_def bind_res_eq_Inr split: option.splits sum.splits)
next
  case (OpSet op)
  then have st: "header_step ser H op h h'" using assms(2) by simp
  show ?thesis
  proof (cases op)
    case OpEncode
    then show ?thesis using st life_inv_encode [OF assms(1)] by auto
  next
    case OpHash
    then have "encodeHashFields h = Inr h'" using st by (auto simp: header_hash_def bind_res_eq_Inr)
    then show ?thesis using encodeHashFields_life [OF assms(1)] by (auto simp: life_inv_def)
  qed (use assms(1) st in \<open>simp_all add: setter_defs life_inv_def\<close>)
qed

interpretation life: transition_system "\<lambda>h. \<exists>n. h = new_block_header n" "header_life ser parse env H" "life_inv env"
proof
  show "life_inv env h" if "\<exists>n. h = new_block_header n" for h
    using that by (auto simp: life_inv_def new_block_header_def)
qed (rule life_inv_step)

lemma life_without_decode:
  "run (header_life ser parse env H) h ops h' \<Longrightarrow> \<forall>data. OpDecode data \<notin> set ops \<Longrightarrow> header_inv h \<Longrightarrow> header_inv h'"
proof (induction rule: run.induct)
  case (run_cons l h1 h2 ops h3)
  then obtain op where "header_step ser H op h1 h2" by (cases l) auto
  then show ?case using run_cons header.step_inv by auto
qed

section \<open>Properties\<close>

text \<open>
  C16: no stale cached encoding is ever hashed: after any sequence of setters, population,
  clearing, hashing, encoding and decoding of a header object, its hash is the hash of the
  encoding of its current fields or, where the cached bytes come from a decoded message, of
  bytes that decode to the current fields; without decoding it is the former.
\<close>

theorem header_hash_current:
  assumes "run (header_life ser parse env H) (new_block_header n) ops h" "encode_hash_fields (m_fields h) = Inr bs"
  shows "\<exists>d h'. header_hash H h = Inr (H d, h') \<and>
    (d = bs \<or> (\<exists>rest. decode_hash_fields env d = Inr (m_fields h, rest))) \<and>
    ((\<forall>data. OpDecode data \<notin> set ops) \<longrightarrow> d = bs)"
proof -
  obtain h1 where h1: "encodeHashFields h = Inr h1" using encodeHashFields_ok [OF assms(2)] by blast
  define d where "d = pbh_hashfieldsdata (m_blockHeader h1)"
  have "header_hash H h = Inr (H d, h1)" using h1 by (simp add: header_hash_def d_def)
  moreover have "life_inv env h" using life.reachable_inv [of "new_block_header n"] assms(1) by blast
  then have "d = bs \<or> reads_back env d (m_fields h)"
    using encodeHashFields_life [OF _ h1] assms(2) by (auto simp: d_def)
  moreover have "d = bs" if "\<forall>data. OpDecode data \<notin> set ops"
  proof -
    have "header_inv (new_block_header n)" using header.init_inv by blast
    then have "header_inv h" using life_without_decode [OF assms(1) that] by blast
    then show ?thesis using encodeHashFields_inv [OF _ h1] assms(2) by (simp add: d_def)
  qed
  ultimately show ?thesis unfolding reads_back_def by blast
qed

definition plain_env :: scale_env where
  "plain_env = \<lparr>env_to_size = (\<lambda>n. n mod 2 ^ 64), env_max_size = 2 ^ 60, env_memory = 2 ^ 30\<rparr>"

definition sample_header :: block_header where
  "sample_header = setNumber 7 (new_block_header 0)"

lemma sample_header_ok: "fields_ok plain_env (m_fields sample_header)"
  by (simp add: fields_ok_def pair_ok_def fields_tuple_def sample_header_def setNumber_def noteDirty_def
      new_block_header_def vector_ok_def hash_ok_def int64_ok_def bytes_ok_def int_dom_def env_fits_def plain_env_def
      fb_zero_def InvalidSealerIndex_def)

theorem header_hash_current_witness:
  "\<exists>bs h'. header_hash (\<lambda>b. b) (setNumber 7 (new_block_header 0)) = Inr (bs, h') \<and>
     encode_hash_fields (m_fields (setNumber 7 (new_block_header 0))) = Inr bs"
proof -
  have r: "run (header_life (\<lambda>_. None) (\<lambda>_. None) plain_env (\<lambda>b. b)) (new_block_header 0) [OpSet (OpNumber 7)] sample_header"
    by (rule run_cons, simp, unfold sample_header_def, rule run_nil)
  obtain bs where bs: "encode_hash_fields (m_fields sample_header) = Inr bs"
    using fields.enc_ok [OF sample_header_ok] by blast
  from header_hash_current [OF r bs] bs show ?thesis unfolding sample_header_def by auto
qed

text \<open>
  C10: a header that was built by the setters and encoded decodes, on a new object, to the
  same fields, signatures, version and hash.
\<close>

theorem header_round_trip:
  assumes "run (header_step ser H) (new_block_header n) ops h" "fields_ok env (m_fields h)"
    and "\<forall>pb data. ser pb = Some data \<longrightarrow> parse data = Some pb"
    and "encode ser h = Inr (data, h1)"
  shows "\<exists>h2. decode parse env (new_block_header k) data = Inr h2 \<and> m_fields h2 = m_fields h \<and>
    m_signatureList h2 = m_signatureList h \<and> pbh_version (m_blockHeader h2) = pbh_version (m_blockHeader h) \<and>
    (\<exists>x h3 h4. header_hash H h = Inr (x, h3) \<and> header_hash H h2 = Inr (x, h4))"
proof -
  have inv: "header_inv h" using header.reachable_inv [of "new_block_header n" ser H ops h] assms(1) by blast
  obtain bs where bs: "encode_hash_fields (m_fields h) = Inr bs" using encode_inv [OF inv assms(4)] by blast
  obtain h2 where h2: "decode parse env (new_block_header k) data = Inr h2" "m_fields h2 = m_fields h"
    "m_signatureList h2 = m_signatureList h" "m_blockHeader h2 = m_blockHeader h1" "header_inv h2"
    using header_decode_encode [OF inv assms(2,3,4)] by blast
  have "\<exists>h'. header_hash H h = Inr (H bs, h')" "\<exists>h'. header_hash H h2 = Inr (H bs, h')"
    using header_hash_inv [OF inv bs] header_hash_inv [OF h2(5)] bs h2(2) by simp_all
  then show ?thesis using h2 encode_inv [OF inv assms(4)] by auto
qed

definition sample_ser :: "pb_header \<Rightarrow> bytes option" where
  "sample_ser pb =
     (if pbh_version pb = 0 \<and> pbh_signaturelist pb = [] then Some (pbh_hashfieldsdata pb) else None)"

definition sample_parse :: "bytes \<Rightarrow> pb_header option" where
  "sample_parse d = Some \<lparr>pbh_version = 0, pbh_hashfieldsdata = d, pbh_signaturelist = []\<rparr>"

theorem header_round_trip_witness:
  "\<exists>data h1 h2. encode sample_ser sample_header = Inr (data, h1) \<and>
     decode sample_parse plain_env (new_block_header 3) data = Inr h2 \<and> m_number (m_fields h2) = 7"
proof -
  have r: "run (header_step sample_ser (\<lambda>b. b)) (new_block_header 0) [OpNumber 7] sample_header"
    by (rule run_cons, simp, unfold sample_header_def, rule run_nil)
  have law: "\<forall>pb data. sample_ser pb = Some data \<longrightarrow> sample_parse data = Some pb"
    by (auto simp: sample_ser_def sample_parse_def split: if_splits)
  obtain bs where bs: "encode_hash_fields (m_fields sample_header) = Inr bs"
    using fields.enc_ok [OF sample_header_ok] by blast
  have s: "pbh_hashfieldsdata (m_blockHeader sample_header) = []" "pbh_version (m_blockHeader sample_header) = 0"
    "pbh_signaturelist (m_blockHeader sample_header) = []" "m_signatureList sample_header = []"
    "m_number (m_fields sample_header) = 7"
    by (simp_all add: sample_header_def setNumber_def noteDirty_def new_block_header_def)
  have "\<exists>data h1. encode sample_ser sample_header = Inr (data, h1)"
    using bs s by (simp add: encode_def encodeHashFields_def lift_scale_def encodeSignatureList_def sample_ser_def)
  then obtain data h1 where e: "encode sample_ser sample_header = Inr (data, h1)" by blast
  from header_round_trip [where parse = sample_parse and k = 3, OF r sample_header_ok law e]
  obtain h2 where "decode sample_parse plain_env (new_block_header 3) data = Inr h2" "m_fields h2 = m_fields sample_header"
    by blast
  then show ?thesis using e s(5) by auto
qed

text \<open>
  The signature check counts repeated signatures: a header is accepted with one valid
  signature of one sealer repeated as often as there are sealers.
\<close>

lemma repeated_signature_accepted:
  assumes "header_hash H h = Inr (x, h')" "i < length (m_sealerList (m_fields h))"
    and "verify (m_sealerList (m_fields h) ! i) x sig"
  shows "verifySignatureList H verify
    (setSignatureList (replicate (length (m_sealerList (m_fields h))) \<lparr>sig_index = int i, sig_signature = sig\<rparr>) h) = Inr ()"
proof -
  let ?s = "\<lparr>sig_index = int i, sig_signature = sig\<rparr>"
  have "verify_loop verify x (m_sealerList (m_fields h)) (replicate n ?s) = Inr ()" for n
    using assms(2,3) by (induction n) simp_all
  moreover obtain h1 where "header_hash H (setSignatureList (replicate (length (m_sealerList (m_fields h))) ?s) h) = Inr (x, h1)"
    using assms(1) by (auto simp: header_hash_def encodeHashFields_def setSignatureList_def noteSignatureDirty_def bind_res_eq_Inr
        split: if_splits)
  ultimately show ?thesis
    by (auto simp: verifySignatureList_def setSignatureList_def noteSignatureDirty_def)
qed

text \<open>
  An object that is reused keeps signatures.  Clearing leaves the signature list, the
  timestamp and the consensus weights, and decoding into an object appends the decoded
  signatures to those it had.
\<close>

theorem header_reuse_keeps_signatures:
  "m_signatureList (clear h) = m_signatureList h \<and> m_timestamp (m_fields (clear h)) = m_timestamp (m_fields h) \<and>
   m_consensusWeights (m_fields (clear h)) = m_consensusWeights (m_fields h) \<and>
   (case decode parse env h data of
      Inl _ \<Rightarrow> True
    | Inr h' \<Rightarrow> \<exists>new. m_signatureList h' = m_signatureList h @ new \<and>
        map (\<lambda>s. (sig_index s, sig_signature s)) new = pbh_signaturelist (m_blockHeader h'))"
  by (auto simp: clear_def decode_def lift_scale_def comp_def case_prod_unfold bind_res_def split: option.splits sum.splits)

end
