(* ===== verification/Protocol_Objects.thy ===== *)
theory Protocol_Objects
  imports Block_Header_Props Fixed_Bytes
begin

text \<open>
  Transactions and receipts: \<^verbatim>\<open>interfaces/protocol/Transaction.h\<close>,
  \<^verbatim>\<open>libprotocol/protobuf/PBTransaction.{h,cpp}\<close> and its factory, and
  \<^verbatim>\<open>libprotocol/protobuf/PBTransactionReceipt.{h,cpp}\<close> with its factory.  The generated
  message classes are records of their fields.  Their byte forms, the hash, signing and
  key recovery are code outside the repository and are fields of \<open>proto_env\<close>.
\<close>

section \<open>Messages and environment\<close>

text \<open>\<^verbatim>\<open>PBRawTransactionHashFields\<close>, \<^verbatim>\<open>PBRawTransaction\<close>, \<^verbatim>\<open>PBRawTransactionReceipt\<close>.\<close>

record tx_fields =
  tf_version :: int
  tf_chainid :: string
  tf_groupid :: string
  tf_blocklimit :: int
  tf_nonce :: bytes
  tf_to :: string
  tf_input :: bytes

record raw_tx =
  rt_hashfieldsdata :: bytes
  rt_hashfieldshash :: bytes
  rt_signaturedata :: bytes
  rt_import_time :: int
  rt_attribute :: nat
  rt_source :: string

record raw_receipt =
  rr_version :: int
  rr_hashfieldsdata :: bytes

text \<open>\<^verbatim>\<open>PBRawTransactionMetaData\<close> and \<^verbatim>\<open>PBRawBlock\<close>.\<close>

record raw_meta =
  rm_hash :: bytes
  rm_to :: string
  rm_attribute :: nat
  rm_source :: string

record raw_block =
  rb_version :: int
  rb_type :: int
  rb_header :: bytes
  rb_transactions :: "bytes list"
  rb_receipts :: "bytes list"
  rb_transactionsmetadata :: "raw_meta list"
  rb_noncelist :: "bytes list"

text \<open>
  The parameters: the crypto suite (\<^typ>\<open>'k\<close> is the type of key pairs; recovery may
  raise), the memory of the SCALE decoder, the two directions of the byte form of each
  message, and the value that uninitialised members happen to have.
\<close>

record 'k proto_env =
  pe_hash :: "bytes \<Rightarrow> bytes"
  pe_recover :: "bytes \<Rightarrow> bytes \<Rightarrow> bytes option"
  pe_sign :: "'k \<Rightarrow> bytes \<Rightarrow> bytes"
  pe_public :: "'k \<Rightarrow> bytes"
  pe_scale :: scale_env
  pe_ser_fields :: "tx_fields \<Rightarrow> bytes option"
  pe_parse_fields :: "bytes \<Rightarrow> tx_fields option"
  pe_ser_tx :: "raw_tx \<Rightarrow> bytes option"
  pe_parse_tx :: "bytes \<Rightarrow> raw_tx option"
  pe_ser_receipt :: "raw_receipt \<Rightarrow> bytes option"
  pe_parse_receipt :: "bytes \<Rightarrow> raw_receipt option"
  pe_ser_header :: "pb_header \<Rightarrow> bytes option"
  pe_parse_header :: "bytes \<Rightarrow> pb_header option"
  pe_ser_block :: "raw_block \<Rightarrow> bytes option"
  pe_parse_block :: "bytes \<Rightarrow> raw_block option"
  pe_uninit :: int

definition encodePBObject :: "('m \<Rightarrow> bytes option) \<Rightarrow> 'm \<Rightarrow> protocol_error + bytes" where
  "encodePBObject ser m = (case ser m of None \<Rightarrow> Inl PBObjectEncodeException | Some b \<Rightarrow> Inr b)"

definition decodePBObject :: "(bytes \<Rightarrow> 'm option) \<Rightarrow> bytes \<Rightarrow> protocol_error + 'm" where
  "decodePBObject parse b = (case parse b of None \<Rightarrow> Inl PBObjectDecodeException | Some m \<Rightarrow> Inr m)"

text \<open>
  What the code relies on of a generated message class: what is written is read back, and
  the empty string is read as the message with default fields.
\<close>

definition pb_lawful :: "('m \<Rightarrow> bytes option) \<Rightarrow> (bytes \<Rightarrow> 'm option) \<Rightarrow> 'm \<Rightarrow> bool" where
  "pb_lawful ser parse dflt = ((\<forall>m b. ser m = Some b \<longrightarrow> parse b = Some m) \<and> parse [] = Some dflt)"

definition calculateAddress :: "'k proto_env \<Rightarrow> bytes \<Rightarrow> bytes" where
  "calculateAddress env pub = right160 (pe_hash env pub)"

section \<open>Transactions\<close>

datatype transaction_type = NullTransaction | ContractCreation | MessageCall

record transaction =
  tx_raw :: raw_tx
  tx_hashFields :: tx_fields
  tx_dataCache :: bytes
  tx_nonce :: nat
  tx_sender :: bytes
  tx_synced :: bool
  tx_sealed :: bool
  tx_invalid :: bool
  tx_systemTx :: bool
  tx_batchId :: int
  tx_batchHash :: bytes
  tx_knownNodeList :: "bytes list"

definition empty_transaction :: transaction where
  "empty_transaction =
     \<lparr>tx_raw = \<lparr>rt_hashfieldsdata = [], rt_hashfieldshash = [], rt_signaturedata = [], rt_import_time = 0,
        rt_attribute = 0, rt_source = []\<rparr>,
      tx_hashFields = \<lparr>tf_version = 0, tf_chainid = [], tf_groupid = [], tf_blocklimit = 0, tf_nonce = [],
        tf_to = [], tf_input = []\<rparr>,
      tx_dataCache = [], tx_nonce = 0, tx_sender = [], tx_synced = False, tx_sealed = False, tx_invalid = False,
      tx_systemTx = False, tx_batchId = - 1, tx_batchHash = fb_zero 32, tx_knownNodeList = []\<rparr>"

definition new_transaction ::
    "'k proto_env \<Rightarrow> int \<Rightarrow> string \<Rightarrow> bytes \<Rightarrow> nat \<Rightarrow> int \<Rightarrow> string \<Rightarrow> string \<Rightarrow> int \<Rightarrow> protocol_error + transaction" where
  "new_transaction env version to input nonce blockLimit chainId groupId importTime =
     (let fs = \<lparr>tf_version = version, tf_chainid = chainId, tf_groupid = groupId, tf_blocklimit = blockLimit,
                tf_nonce = toBigEndian_u256 nonce, tf_to = to, tf_input = input\<rparr> in
      bind_res (encodePBObject (pe_ser_fields env) fs)
        (\<lambda>d. Inr (empty_transaction
           \<lparr>tx_hashFields := fs, tx_nonce := nonce,
            tx_raw := (tx_raw empty_transaction)
              \<lparr>rt_hashfieldsdata := d, rt_hashfieldshash := pe_hash env d, rt_import_time := importTime\<rparr>\<rparr>)))"

text \<open>The members of the object that decoding does not set, the sender among them, are kept.\<close>

definition tx_decode :: "'k proto_env \<Rightarrow> transaction \<Rightarrow> bytes \<Rightarrow> protocol_error + transaction" where
  "tx_decode env t data =
     bind_res (decodePBObject (pe_parse_tx env) data)
       (\<lambda>raw. bind_res (decodePBObject (pe_parse_fields env) (rt_hashfieldsdata raw))
          (\<lambda>fs. Inr (t\<lparr>tx_dataCache := data, tx_raw := raw, tx_hashFields := fs,
             tx_nonce := fromBigEndian 256 (tf_nonce fs)\<rparr>)))"

definition tx_encode :: "'k proto_env \<Rightarrow> bool \<Rightarrow> transaction \<Rightarrow> protocol_error + bytes \<times> transaction" where
  "tx_encode env onlyHashFields t =
     (if onlyHashFields then Inr (rt_hashfieldsdata (tx_raw t), t)
      else if tx_dataCache t = []
      then bind_res (encodePBObject (pe_ser_tx env) (tx_raw t)) (\<lambda>d. Inr (d, t\<lparr>tx_dataCache := d\<rparr>))
      else Inr (tx_dataCache t, t))"

text \<open>The hash is read as 32 bytes from the start of the stored string, whatever its length.\<close>

definition tx_hash :: "transaction \<Rightarrow> protocol_error + bytes" where
  "tx_hash t =
     (if length (rt_hashfieldshash (tx_raw t)) < 32 then Inl OutOfBounds
      else Inr (take 32 (rt_hashfieldshash (tx_raw t))))"

definition forceSender :: "bytes \<Rightarrow> transaction \<Rightarrow> transaction" where
  "forceSender sender t = t\<lparr>tx_sender := sender\<rparr>"

definition tx_verify :: "'k proto_env \<Rightarrow> transaction \<Rightarrow> protocol_error + transaction" where
  "tx_verify env t =
     (if tx_sender t \<noteq> [] then Inr t
      else
        bind_res (tx_encode env True t)
          (\<lambda>(hashFields, t1). bind_res (tx_hash t1)
             (\<lambda>h. if pe_hash env hashFields \<noteq> h then Inl HashMismatch
                  else
                    (case pe_recover env h (rt_signaturedata (tx_raw t1)) of
                       None \<Rightarrow> Inl RecoverFailed
                     | Some publicKey \<Rightarrow> Inr (forceSender (calculateAddress env publicKey) t1)))))"

definition transaction_from_data :: "'k proto_env \<Rightarrow> bytes \<Rightarrow> bool \<Rightarrow> protocol_error + transaction" where
  "transaction_from_data env txData checkSig =
     bind_res (tx_decode env empty_transaction txData) (\<lambda>t. if checkSig then tx_verify env t else Inr t)"

definition updateSignature :: "bytes \<Rightarrow> bytes \<Rightarrow> transaction \<Rightarrow> transaction" where
  "updateSignature signatureData sender t =
     t\<lparr>tx_raw := (tx_raw t)\<lparr>rt_signaturedata := signatureData\<rparr>, tx_sender := sender, tx_dataCache := []\<rparr>"

definition createSignedTransaction ::
    "'k proto_env \<Rightarrow> int \<Rightarrow> string \<Rightarrow> bytes \<Rightarrow> nat \<Rightarrow> int \<Rightarrow> string \<Rightarrow> string \<Rightarrow> int \<Rightarrow> 'k \<Rightarrow> protocol_error + transaction" where
  "createSignedTransaction env version to input nonce blockLimit chainId groupId importTime keyPair =
     bind_res (new_transaction env version to input nonce blockLimit chainId groupId importTime)
       (\<lambda>t. bind_res (tx_hash t)
          (\<lambda>h. Inr (updateSignature (pe_sign env keyPair h) (pe_public env keyPair) t)))"

definition tx_type :: "transaction \<Rightarrow> transaction_type" where
  "tx_type t = (if length (tf_to (tx_hashFields t)) > 0 then MessageCall else ContractCreation)"

definition tx_equal :: "transaction \<Rightarrow> transaction \<Rightarrow> protocol_error + bool" where
  "tx_equal a b =
     (if tx_type a \<noteq> tx_type b \<or> rt_import_time (tx_raw a) \<noteq> rt_import_time (tx_raw b) then Inr False
      else bind_res (tx_hash a) (\<lambda>x. bind_res (tx_hash b) (\<lambda>y. Inr (x = y))))"

definition setImportTime :: "int \<Rightarrow> transaction \<Rightarrow> transaction" where
  "setImportTime v t = t\<lparr>tx_raw := (tx_raw t)\<lparr>rt_import_time := v\<rparr>\<rparr>"

definition setAttribute :: "nat \<Rightarrow> transaction \<Rightarrow> transaction" where
  "setAttribute v t = t\<lparr>tx_raw := (tx_raw t)\<lparr>rt_attribute := v\<rparr>\<rparr>"

definition setSource :: "string \<Rightarrow> transaction \<Rightarrow> transaction" where
  "setSource v t = t\<lparr>tx_raw := (tx_raw t)\<lparr>rt_source := v\<rparr>\<rparr>"

definition setSynced :: "bool \<Rightarrow> transaction \<Rightarrow> transaction" where "setSynced v t = t\<lparr>tx_synced := v\<rparr>"
definition setSealed :: "bool \<Rightarrow> transaction \<Rightarrow> transaction" where "setSealed v t = t\<lparr>tx_sealed := v\<rparr>"
definition setInvalid :: "bool \<Rightarrow> transaction \<Rightarrow> transaction" where "setInvalid v t = t\<lparr>tx_invalid := v\<rparr>"
definition setSystemTx :: "bool \<Rightarrow> transaction \<Rightarrow> transaction" where "setSystemTx v t = t\<lparr>tx_systemTx := v\<rparr>"
definition setBatchId :: "int \<Rightarrow> transaction \<Rightarrow> transaction" where "setBatchId v t = t\<lparr>tx_batchId := v\<rparr>"
definition setBatchHash :: "bytes \<Rightarrow> transaction \<Rightarrow> transaction" where "setBatchHash v t = t\<lparr>tx_batchHash := v\<rparr>"

definition appendKnownNode :: "bytes \<Rightarrow> transaction \<Rightarrow> transaction" where
  "appendKnownNode node t = t\<lparr>tx_knownNodeList := List.insert node (tx_knownNodeList t)\<rparr>"

definition isKnownBy :: "bytes \<Rightarrow> transaction \<Rightarrow> bool" where
  "isKnownBy node t = (node \<in> set (tx_knownNodeList t))"

section \<open>Receipts\<close>

record receipt =
  re_raw :: raw_receipt
  re_dataCache :: bytes
  re_version :: int
  re_gasUsed :: nat
  re_contractAddress :: bytes
  re_logEntries :: "log_entry list option"
  re_status :: int
  re_output :: bytes
  re_blockNumber :: int

text \<open>
  The private constructor and the two that call it.  No constructor sets
  \<^verbatim>\<open>m_version\<close>; the version goes to the message only.
\<close>

definition new_receipt ::
    "'k proto_env \<Rightarrow> int \<Rightarrow> nat \<Rightarrow> bytes \<Rightarrow> log_entry list option \<Rightarrow> int \<Rightarrow> bytes \<Rightarrow> int \<Rightarrow> receipt" where
  "new_receipt env version gasUsed contractAddress logEntries status output blockNumber =
     \<lparr>re_raw = \<lparr>rr_version = version, rr_hashfieldsdata = []\<rparr>, re_dataCache = [], re_version = pe_uninit env,
      re_gasUsed = gasUsed, re_contractAddress = contractAddress, re_logEntries = logEntries, re_status = status,
      re_output = output, re_blockNumber = blockNumber\<rparr>"

definition createReceipt ::
    "'k proto_env \<Rightarrow> nat \<Rightarrow> bytes \<Rightarrow> log_entry list option \<Rightarrow> int \<Rightarrow> bytes \<Rightarrow> int \<Rightarrow> receipt" where
  "createReceipt env gasUsed contractAddress logEntries status output blockNumber =
     new_receipt env 0 gasUsed contractAddress logEntries status output blockNumber"

definition receipt_tuple :: "receipt \<Rightarrow> int \<times> bytes \<times> bytes \<times> nat \<times> log_entry list option \<times> int" where
  "receipt_tuple r =
     (re_status r, re_output r, re_contractAddress r, re_gasUsed r, re_logEntries r, re_blockNumber r)"

definition encode_receipt_tuple :: "(int \<times> bytes \<times> bytes \<times> nat \<times> log_entry list option \<times> int) encoder" where
  "encode_receipt_tuple =
     encode_pair (encodeInteger 4) (encode_pair encode_bytes (encode_pair encode_bytes (encode_pair encode_u256
       (encode_pair (encode_pointer (encode_vector encode_log_entry)) (encodeInteger 8)))))"

definition decode_receipt_tuple :: "scale_env \<Rightarrow> (int \<times> bytes \<times> bytes \<times> nat \<times> log_entry list option \<times> int) decoder" where
  "decode_receipt_tuple env =
     decode_pair (decodeInteger True 4) (decode_pair (decode_bytes env) (decode_pair (decode_bytes env)
       (decode_pair decode_u256 (decode_pair (decode_pointer (decode_vector env (decode_log_entry env)))
         (decodeInteger True 8)))))"

definition receipt_encodeHashFields :: "receipt \<Rightarrow> protocol_error + receipt" where
  "receipt_encodeHashFields r =
     (if rr_hashfieldsdata (re_raw r) \<noteq> [] then Inr r
      else bind_res (lift_scale (encode_receipt_tuple (receipt_tuple r)))
        (\<lambda>d. Inr (r\<lparr>re_raw := \<lparr>rr_version = re_version r, rr_hashfieldsdata = d\<rparr>\<rparr>)))"

definition receipt_decode :: "'k proto_env \<Rightarrow> receipt \<Rightarrow> bytes \<Rightarrow> protocol_error + receipt" where
  "receipt_decode env r data =
     bind_res (decodePBObject (pe_parse_receipt env) data)
       (\<lambda>raw. bind_res (lift_scale (decode_receipt_tuple (pe_scale env) (rr_hashfieldsdata raw)))
          (\<lambda>((status, output, addr, gas, logs, number), _).
             Inr (r\<lparr>re_dataCache := data, re_raw := raw, re_status := status, re_output := output,
               re_contractAddress := addr, re_gasUsed := gas, re_logEntries := logs, re_blockNumber := number\<rparr>)))"

definition receipt_from_data :: "'k proto_env \<Rightarrow> bytes \<Rightarrow> protocol_error + receipt" where
  "receipt_from_data env data =
     receipt_decode env
       \<lparr>re_raw = \<lparr>rr_version = 0, rr_hashfieldsdata = []\<rparr>, re_dataCache = [], re_version = pe_uninit env,
        re_gasUsed = 0, re_contractAddress = [], re_logEntries = None, re_status = pe_uninit env, re_output = [],
        re_blockNumber = pe_uninit env\<rparr> data"

definition receipt_encode :: "'k proto_env \<Rightarrow> receipt \<Rightarrow> protocol_error + bytes \<times> receipt" where
  "receipt_encode env r =
     bind_res (receipt_encodeHashFields r)
       (\<lambda>r1. bind_res (encodePBObject (pe_ser_receipt env) (re_raw r1)) (\<lambda>d. Inr (d, r1)))"

definition receipt_encode_cached :: "'k proto_env \<Rightarrow> bool \<Rightarrow> receipt \<Rightarrow> protocol_error + bytes \<times> receipt" where
  "receipt_encode_cached env onlyHashFieldData r =
     (if onlyHashFieldData then
        bind_res (if rr_hashfieldsdata (re_raw r) = [] then receipt_encodeHashFields r else Inr r)
          (\<lambda>r1. Inr (rr_hashfieldsdata (re_raw r1), r1))
      else if re_dataCache r = []
      then bind_res (receipt_encode env r) (\<lambda>(d, r1). Inr (d, r1\<lparr>re_dataCache := d\<rparr>))
      else Inr (re_dataCache r, r))"

definition receipt_hash :: "'k proto_env \<Rightarrow> receipt \<Rightarrow> protocol_error + bytes \<times> receipt" where
  "receipt_hash env r =
     bind_res (receipt_encode_cached env True r) (\<lambda>(hashFields, r1). Inr (pe_hash env hashFields, r1))"

end
