(* ===== verification/Protocol_Objects_Props.thy ===== *)
theory Protocol_Objects_Props
  imports Protocol_Objects
begin

text \<open>
  Correctness of transactions and receipts: what a signed transaction becomes on the other
  side of the wire, what an accepted transaction is bound to, and that receipts survive
  encoding except for their version.
\<close>

section \<open>Messages\<close>

lemma encodePBObject_Inr [simp]: "encodePBObject ser m = Inr b \<longleftrightarrow> ser m = Some b"
  by (simp add: encodePBObject_def split: option.splits)

lemma decodePBObject_Inr [simp]: "decodePBObject parse b = Inr m \<longleftrightarrow> parse b = Some m"
  by (simp add: decodePBObject_def split: option.splits)

lemma pb_lawfulD: "pb_lawful ser parse dflt \<Longrightarrow> ser m = Some b \<Longrightarrow> parse b = Some m"
  by (simp add: pb_lawful_def)

lemma pb_lawful_default: "pb_lawful ser parse dflt \<Longrightarrow> ser m = Some [] \<Longrightarrow> m = dflt"
  by (metis pb_lawful_def option.inject)

section \<open>Transactions\<close>

lemma new_transaction_Inr:
  assumes "new_transaction env v to inp nonce bl cid gid it = Inr t"
  shows "pe_ser_fields env (tx_hashFields t) = Some (rt_hashfieldsdata (tx_raw t)) \<and>
    rt_hashfieldshash (tx_raw t) = pe_hash env (rt_hashfieldsdata (tx_raw t)) \<and> tx_nonce t = nonce \<and>
    tf_nonce (tx_hashFields t) = toBigEndian_u256 nonce \<and> tx_dataCache t = []"
  using assms by (auto simp: new_transaction_def Let_def bind_res_eq_Inr empty_transaction_def)

lemma tx_decode_Inr:
  "tx_decode env t data = Inr t' \<longleftrightarrow>
     (\<exists>raw fs. pe_parse_tx env data = Some raw \<and> pe_parse_fields env (rt_hashfieldsdata raw) = Some fs \<and>
        t' = t\<lparr>tx_dataCache := data, tx_raw := raw, tx_hashFields := fs, tx_nonce := fromBigEndian 256 (tf_nonce fs)\<rparr>)"
  by (auto simp: tx_decode_def bind_res_eq_Inr)

lemma tx_verify_Inr:
  "tx_sender t = [] \<Longrightarrow> tx_verify env t = Inr t' \<longleftrightarrow>
     (\<exists>pub. tx_hash t = Inr (pe_hash env (rt_hashfieldsdata (tx_raw t))) \<and>
        pe_recover env (pe_hash env (rt_hashfieldsdata (tx_raw t))) (rt_signaturedata (tx_raw t)) = Some pub \<and>
        t' = t\<lparr>tx_sender := calculateAddress env pub\<rparr>)"
  by (auto simp: tx_verify_def tx_encode_def forceSender_def bind_res_eq_Inr split: if_splits option.splits)

lemma checked_Inr:
  "transaction_from_data env data True = Inr t \<longleftrightarrow>
     (\<exists>t0 pub. tx_decode env empty_transaction data = Inr t0 \<and>
        tx_hash t0 = Inr (pe_hash env (rt_hashfieldsdata (tx_raw t0))) \<and>
        pe_recover env (pe_hash env (rt_hashfieldsdata (tx_raw t0))) (rt_signaturedata (tx_raw t0)) = Some pub \<and>
        t = t0\<lparr>tx_sender := calculateAddress env pub\<rparr>)"
proof -
  have s: "tx_sender t0 = []" if "tx_decode env empty_transaction data = Inr t0" for t0
    using that by (auto simp: tx_decode_Inr empty_transaction_def)
  show ?thesis
    by (simp add: transaction_from_data_def bind_res_eq_Inr tx_verify_Inr [OF s] cong: conj_cong)
qed

text \<open>
  C7: a transaction that the factory builds and signs, with attribute and source set
  before it is encoded, is accepted with signature check on the other side.  The received
  object has the same hash, fields, nonce, attribute and source, and its sender is the
  address of the signing key; the sender of the local object is the public key itself.
\<close>

theorem signed_transaction_round_trip:
  assumes "pb_lawful (pe_ser_fields env) (pe_parse_fields env) (tx_hashFields empty_transaction)"
    and "pb_lawful (pe_ser_tx env) (pe_parse_tx env) (tx_raw empty_transaction)"
    and "\<forall>b. length (pe_hash env b) = 32" "\<forall>h. pe_recover env h (pe_sign env k h) = Some (pe_public env k)"
    and "nonce < 2 ^ 256"
    and "createSignedTransaction env v to inp nonce bl cid gid it k = Inr t"
    and "tx_encode env False (setSource src (setAttribute attr t)) = Inr (data, t1)"
  shows "tx_sender t = pe_public env k \<and>
    (\<exists>t'. transaction_from_data env data True = Inr t' \<and> tx_hash t' = tx_hash t \<and>
       tx_hashFields t' = tx_hashFields t \<and> tx_nonce t' = nonce \<and> tx_type t' = tx_type t \<and>
       rt_attribute (tx_raw t') = attr \<and> rt_source (tx_raw t') = src \<and>
       tx_sender t' = right160 (pe_hash env (pe_public env k)))"
proof -
  obtain t0 where t0: "new_transaction env v to inp nonce bl cid gid it = Inr t0"
    and t: "t = updateSignature (pe_sign env k (pe_hash env (rt_hashfieldsdata (tx_raw t0)))) (pe_public env k) t0"
    using assms(3,6) new_transaction_Inr
    by (fastforce simp: createSignedTransaction_def bind_res_eq_Inr tx_hash_def)
  note n = new_transaction_Inr [OF t0]
  define t2 where "t2 = setSource src (setAttribute attr t)"
  have cache: "tx_dataCache t2 = []" by (simp add: t2_def t updateSignature_def setSource_def setAttribute_def)
  have ser: "pe_ser_tx env (tx_raw t2) = Some data"
    using assms(7) cache by (auto simp: t2_def [symmetric] tx_encode_def bind_res_eq_Inr)
  have p: "pe_parse_tx env data = Some (tx_raw t2)" by (rule pb_lawfulD [OF assms(2) ser])
  have f: "pe_parse_fields env (rt_hashfieldsdata (tx_raw t2)) = Some (tx_hashFields t)"
    using pb_lawfulD [OF assms(1)] n by (simp add: t2_def t updateSignature_def setSource_def setAttribute_def)
  have nn: "fromBigEndian 256 (tf_nonce (tx_hashFields t)) = nonce"
    using n assms(5) by (simp add: t updateSignature_def toBigEndian_u256_def fromBigEndian_eq take_bit_eq_mod)
  show ?thesis
    using p f nn n assms(3,4)
    by (auto simp: checked_Inr tx_decode_Inr t2_def t updateSignature_def setSource_def setAttribute_def tx_hash_def
        calculateAddress_def tx_type_def empty_transaction_def)
qed

text \<open>Byte forms of a single message, for concrete instances.\<close>

definition one_ser :: "'m \<Rightarrow> bytes \<Rightarrow> 'm \<Rightarrow> bytes option" where
  "one_ser m b m' = (if m' = m then Some b else None)"

definition one_parse :: "'m \<Rightarrow> bytes \<Rightarrow> 'm \<Rightarrow> bytes \<Rightarrow> 'm option" where
  "one_parse m b dflt b' = (if b' = b then Some m else if b' = [] then Some dflt else None)"

lemma one_lawful: "b \<noteq> [] \<Longrightarrow> pb_lawful (one_ser m b) (one_parse m b dflt) dflt"
  by (auto simp: pb_lawful_def one_ser_def one_parse_def)

definition sample_fields :: tx_fields where
  "sample_fields = \<lparr>tf_version = 1, tf_chainid = ''chain'', tf_groupid = ''group'', tf_blocklimit = 100,
     tf_nonce = toBigEndian_u256 5, tf_to = ''a'', tf_input = [3]\<rparr>"

definition sample_raw :: raw_tx where
  "sample_raw = \<lparr>rt_hashfieldsdata = [1], rt_hashfieldshash = replicate 32 0, rt_signaturedata = [7],
     rt_import_time = 10, rt_attribute = 4, rt_source = ''s''\<rparr>"

definition sample_raw_receipt :: raw_receipt where
  "sample_raw_receipt = \<lparr>rr_version = 0, rr_hashfieldsdata = []\<rparr>"

definition sample_env :: "unit proto_env" where
  "sample_env = \<lparr>pe_hash = (\<lambda>b. replicate 32 0), pe_recover = (\<lambda>h s. Some [9]), pe_sign = (\<lambda>k h. [7]),
     pe_public = (\<lambda>k. [9]), pe_scale = plain_env,
     pe_ser_fields = one_ser sample_fields [1], pe_parse_fields = one_parse sample_fields [1] (tx_hashFields empty_transaction),
     pe_ser_tx = one_ser sample_raw [2], pe_parse_tx = one_parse sample_raw [2] (tx_raw empty_transaction),
     pe_ser_receipt = (\<lambda>r. if rr_version r = 0 then Some (rr_hashfieldsdata r) else None),
     pe_parse_receipt = (\<lambda>b. Some \<lparr>rr_version = 0, rr_hashfieldsdata = b\<rparr>),
     pe_ser_header = sample_ser, pe_parse_header = sample_parse,
     pe_ser_block = (\<lambda>b. None),
     pe_parse_block = (\<lambda>b. Some \<lparr>rb_version = 0, rb_type = 0, rb_header = [], rb_transactions = [], rb_receipts = [],
       rb_transactionsmetadata = [], rb_noncelist = []\<rparr>),
     pe_uninit = 0\<rparr>"

theorem signed_transaction_round_trip_witness:
  "\<exists>t' data. transaction_from_data sample_env data True = Inr t' \<and> tx_nonce t' = 5 \<and>
     rt_attribute (tx_raw t') = 4 \<and> tx_sender t' = replicate 20 0"
proof -
  define t where "t = updateSignature [7] [9] (empty_transaction\<lparr>tx_hashFields := sample_fields, tx_nonce := 5,
    tx_raw := sample_raw\<lparr>rt_signaturedata := [], rt_attribute := 0, rt_source := []\<rparr>\<rparr>)"
  have c: "createSignedTransaction sample_env 1 ''a'' [3] 5 100 ''chain'' ''group'' 10 () = Inr t"
    by (simp add: createSignedTransaction_def new_transaction_def sample_env_def encodePBObject_def one_ser_def
        sample_fields_def tx_hash_def t_def empty_transaction_def sample_raw_def)
  have e: "tx_encode sample_env False (setSource ''s'' (setAttribute 4 t)) =
      Inr ([2], (setSource ''s'' (setAttribute 4 t))\<lparr>tx_dataCache := [2]\<rparr>)"
    by (simp add: tx_encode_def t_def updateSignature_def setSource_def setAttribute_def sample_env_def
        encodePBObject_def one_ser_def sample_raw_def)
  have "\<exists>t'. transaction_from_data sample_env [2] True = Inr t' \<and> tx_nonce t' = 5 \<and> rt_attribute (tx_raw t') = 4 \<and>
      tx_sender t' = right160 (pe_hash sample_env (pe_public sample_env ()))"
    using signed_transaction_round_trip [OF _ _ _ _ _ c e] by (auto simp: sample_env_def one_lawful)
  then show ?thesis by (auto simp: sample_env_def right160_def)
qed

text \<open>
  C20: accepted transactions are bound to their content.  If two byte strings are accepted
  with signature check and give the same transaction hash, then the transactions have the
  same fields and nonce, and with the same signature the same sender; otherwise the two
  encoded field lists are a collision of the hash.
\<close>

theorem checked_transactions_bound:
  assumes "transaction_from_data env d1 True = Inr t1" "transaction_from_data env d2 True = Inr t2"
    and "tx_hash t1 = tx_hash t2"
  shows "(tx_hashFields t1 = tx_hashFields t2 \<and> tx_nonce t1 = tx_nonce t2 \<and>
      (rt_signaturedata (tx_raw t1) = rt_signaturedata (tx_raw t2) \<longrightarrow> tx_sender t1 = tx_sender t2)) \<or>
    (rt_hashfieldsdata (tx_raw t1) \<noteq> rt_hashfieldsdata (tx_raw t2) \<and>
      pe_hash env (rt_hashfieldsdata (tx_raw t1)) = pe_hash env (rt_hashfieldsdata (tx_raw t2)))"
proof -
  have h: "tx_hash (t\<lparr>tx_sender := s\<rparr>) = tx_hash t" for t s by (simp add: tx_hash_def)
  show ?thesis using assms by (auto simp: checked_Inr h tx_decode_Inr)
qed

theorem checked_transactions_bound_witness:
  "\<exists>env :: unit proto_env. \<exists>t1 t2. transaction_from_data env [2] True = Inr t1 \<and>
     transaction_from_data env [2, 2] True = Inr t2 \<and> rt_attribute (tx_raw t1) \<noteq> rt_attribute (tx_raw t2) \<and>
     tx_hashFields t1 = tx_hashFields t2 \<and> tx_sender t1 = tx_sender t2"
proof -
  let ?env = "sample_env\<lparr>pe_parse_tx := (\<lambda>b. Some (sample_raw\<lparr>rt_attribute := length b\<rparr>))\<rparr>"
  have ok: "\<exists>t. transaction_from_data ?env b True = Inr t \<and> tx_raw t = sample_raw\<lparr>rt_attribute := length b\<rparr>" for b
    by (simp add: checked_Inr tx_decode_Inr sample_env_def one_parse_def sample_raw_def tx_hash_def)
  obtain t1 where t1: "transaction_from_data ?env [2] True = Inr t1" "tx_raw t1 = sample_raw\<lparr>rt_attribute := 1\<rparr>"
    using ok [of "[2]"] by auto
  obtain t2 where t2: "transaction_from_data ?env [2, 2] True = Inr t2" "tx_raw t2 = sample_raw\<lparr>rt_attribute := 2\<rparr>"
    using ok [of "[2, 2]"] by auto
  have "tx_hash t1 = tx_hash t2" by (simp add: tx_hash_def t1(2) t2(2))
  from checked_transactions_bound [OF t1(1) t2(1) this]
  have "tx_hashFields t1 = tx_hashFields t2 \<and> tx_sender t1 = tx_sender t2" by (simp add: t1(2) t2(2) sample_raw_def)
  moreover have "rt_attribute (tx_raw t1) \<noteq> rt_attribute (tx_raw t2)" by (simp add: t1(2) t2(2))
  ultimately show ?thesis using t1(1) t2(1) by blast
qed

text \<open>
  An encoding that was made before a setter was called stays: the attribute, the source
  and the import time set afterwards are not encoded.
\<close>

lemma stale_encoding:
  assumes "tx_encode env False t = Inr (data, t1)" "data \<noteq> []"
  shows "tx_encode env False (setAttribute a t1) = Inr (data, setAttribute a t1) \<and>
    tx_encode env False (setSource s t1) = Inr (data, setSource s t1) \<and>
    tx_encode env False (setImportTime i t1) = Inr (data, setImportTime i t1)"
  using assms by (auto simp: tx_encode_def setAttribute_def setSource_def setImportTime_def bind_res_eq_Inr split: if_splits)

section \<open>Receipts\<close>

definition receipt_ok :: "scale_env \<Rightarrow> int \<times> bytes \<times> bytes \<times> nat \<times> log_entry list option \<times> int \<Rightarrow> bool" where
  "receipt_ok env =
     pair_ok (int_dom True 4) (pair_ok (bytes_ok env) (pair_ok (bytes_ok env) (pair_ok (\<lambda>v. v < 2 ^ 256)
       (pair_ok (\<lambda>p. \<exists>x. p = Some x \<and> vector_ok env (log_entry_ok env) x) int64_ok))))"

interpretation receipt_codec: scale_codec encode_receipt_tuple "decode_receipt_tuple env" "receipt_ok env"
  unfolding encode_receipt_tuple_def decode_receipt_tuple_def receipt_ok_def
  by (rule pair_codec_ok [OF integer_codec.scale_codec_axioms pair_codec_ok [OF blob.scale_codec_axioms
        pair_codec_ok [OF blob.scale_codec_axioms pair_codec_ok [OF u256_codec.scale_codec_axioms
        pair_codec_ok [OF scale_codec.pointer_codec [OF vector_codec_ok [OF log.scale_codec_axioms]]
          int64.scale_codec_axioms]]]]])

text \<open>The message holds nothing or the encoding of the fields.\<close>

definition receipt_inv :: "receipt \<Rightarrow> bool" where
  "receipt_inv r = (rr_hashfieldsdata (re_raw r) = [] \<or>
     encode_receipt_tuple (receipt_tuple r) = Inr (rr_hashfieldsdata (re_raw r)))"

lemma receipt_encodeHashFields_inv:
  assumes "receipt_inv r" "receipt_encodeHashFields r = Inr r1"
  shows "receipt_tuple r1 = receipt_tuple r \<and> receipt_inv r1 \<and>
    encode_receipt_tuple (receipt_tuple r) = Inr (rr_hashfieldsdata (re_raw r1))"
  using assms
  by (auto simp: receipt_encodeHashFields_def receipt_inv_def bind_res_eq_Inr lift_scale_def receipt_tuple_def
      split: if_splits sum.splits)

lemma receipt_hash_inv:
  assumes "receipt_inv r" "encode_receipt_tuple (receipt_tuple r) = Inr bs"
  shows "\<exists>r1. receipt_hash env r = Inr (pe_hash env bs, r1) \<and> receipt_inv r1 \<and> receipt_tuple r1 = receipt_tuple r"
  using assms
  by (auto simp: receipt_hash_def receipt_encode_cached_def receipt_encodeHashFields_def receipt_inv_def
      bind_res_eq_Inr lift_scale_def receipt_tuple_def)

lemma receipt_decode_encode:
  assumes "pb_lawful (pe_ser_receipt env) (pe_parse_receipt env) dflt"
    and "receipt_inv r" "receipt_ok (pe_scale env) (receipt_tuple r)" "receipt_encode env r = Inr (data, r1)"
  shows "\<exists>r'. receipt_from_data env data = Inr r' \<and> receipt_tuple r' = receipt_tuple r \<and> receipt_inv r' \<and>
    re_raw r' = re_raw r1"
proof -
  obtain bs where bs: "receipt_encodeHashFields r = Inr r1" "pe_ser_receipt env (re_raw r1) = Some data"
    using assms(4) by (auto simp: receipt_encode_def bind_res_eq_Inr)
  note i = receipt_encodeHashFields_inv [OF assms(2) bs(1)]
  have p: "pe_parse_receipt env data = Some (re_raw r1)" by (rule pb_lawfulD [OF assms(1) bs(2)])
  have d: "decode_receipt_tuple (pe_scale env) (rr_hashfieldsdata (re_raw r1)) = Inr (receipt_tuple r, [])"
    using receipt_codec.dec_enc [OF assms(3), of "rr_hashfieldsdata (re_raw r1)" "[]"] i by simp
  show ?thesis using p d i
    by (auto simp: receipt_from_data_def receipt_decode_def bind_res_eq_Inr lift_scale_def receipt_inv_def
        receipt_tuple_def)
qed

text \<open>
  A receipt built by the factory that is encoded and read back has the same status,
  output, address, gas, logs, block number and hash.  Its version is the value of the
  uninitialised member, not the version it was built with.
\<close>

theorem receipt_round_trip:
  assumes "pb_lawful (pe_ser_receipt env) (pe_parse_receipt env) dflt"
    and "r = new_receipt env version gas addr logs status output number"
    and "receipt_ok (pe_scale env) (receipt_tuple r)" "receipt_encode env r = Inr (data, r1)"
  shows "\<exists>r'. receipt_from_data env data = Inr r' \<and> receipt_tuple r' = receipt_tuple r \<and>
    rr_version (re_raw r') = pe_uninit env \<and>
    (\<exists>x a b. receipt_hash env r = Inr (x, a) \<and> receipt_hash env r' = Inr (x, b))"
proof -
  have inv: "receipt_inv r" by (simp add: assms(2) receipt_inv_def new_receipt_def)
  obtain r' where r': "receipt_from_data env data = Inr r'" "receipt_tuple r' = receipt_tuple r" "receipt_inv r'"
    "re_raw r' = re_raw r1"
    using receipt_decode_encode [OF assms(1) inv assms(3,4)] by blast
  obtain bs where bs: "encode_receipt_tuple (receipt_tuple r) = Inr bs" using receipt_codec.enc_ok [OF assms(3)] by blast
  have v: "rr_version (re_raw r1) = pe_uninit env"
    using assms(4) by (auto simp: receipt_encode_def receipt_encodeHashFields_def bind_res_eq_Inr assms(2) new_receipt_def)
  show ?thesis using receipt_hash_inv [OF inv bs, of env] receipt_hash_inv [OF r'(3), of bs env] bs r' v by auto
qed

theorem receipt_round_trip_witness:
  "\<exists>data r'. receipt_from_data sample_env data = Inr r' \<and> re_gasUsed r' = 21 \<and> re_status r' = - 1 \<and>
     re_logEntries r' = Some []"
proof -
  let ?r = "new_receipt sample_env 3 21 [1] (Some []) (- 1) [5] 9"
  have ok: "receipt_ok (pe_scale sample_env) (receipt_tuple ?r)"
    by (simp add: receipt_ok_def pair_ok_def receipt_tuple_def new_receipt_def int_dom_def bytes_ok_def env_fits_def
        plain_env_def sample_env_def vector_ok_def int64_ok_def)
  obtain bs where bs: "encode_receipt_tuple (receipt_tuple ?r) = Inr bs" using receipt_codec.enc_ok [OF ok] by blast
  have law: "pb_lawful (pe_ser_receipt sample_env) (pe_parse_receipt sample_env) sample_raw_receipt"
    by (auto simp: pb_lawful_def sample_env_def sample_raw_receipt_def)
  have "\<exists>r1. receipt_encode sample_env ?r = Inr (bs, r1)"
    using bs by (simp add: receipt_encode_def receipt_encodeHashFields_def bind_res_eq_Inr lift_scale_def new_receipt_def
        sample_env_def receipt_tuple_def)
  then obtain r1 where e: "receipt_encode sample_env ?r = Inr (bs, r1)" by blast
  show ?thesis using receipt_round_trip [OF law refl ok e] by (auto simp: receipt_tuple_def new_receipt_def)
qed

end
