(* ===== verification/Merkle_Proof.thy ===== *)
theory Merkle_Proof
  imports Byte_Utils
begin

text \<open>
  Merkle roots and proofs, \<^verbatim>\<open>libprotocol/ParallelMerkleProof.cpp\<close>.  The hash of the
  crypto suite is a parameter.  The parallel loop computes each node from the previous
  level only, so its result is the list of all nodes; the lists have fewer than
  2 to the 31 elements, below which the 32-bit counters of the source do not wrap.
\<close>

definition MAX_CHILD_COUNT :: nat where "MAX_CHILD_COUNT = 16"

text \<open>The children of node \<^term>\<open>i\<close>, by the loop over the indices.\<close>

definition children :: "bytes list \<Rightarrow> nat \<Rightarrow> bytes list" where
  "children level i =
     map (\<lambda>j. level ! (i * MAX_CHILD_COUNT + j))
       (filter (\<lambda>j. i * MAX_CHILD_COUNT + j < length level) [0..<MAX_CHILD_COUNT])"

definition level_size :: "bytes list \<Rightarrow> nat" where
  "level_size level = (length level + MAX_CHILD_COUNT - 1) div MAX_CHILD_COUNT"

definition higherLevel :: "(bytes \<Rightarrow> bytes) \<Rightarrow> bytes list \<Rightarrow> bytes list" where
  "higherLevel hash level = map (\<lambda>i. hash (concat (children level i))) [0..<level_size level]"

lemma length_higherLevel [simp]: "length (higherLevel hash level) = level_size level"
  by (simp add: higherLevel_def)

lemma level_size_less: "1 < length level \<Longrightarrow> level_size level < length level"
  by (simp add: level_size_def MAX_CHILD_COUNT_def)

function merkle_top :: "(bytes \<Rightarrow> bytes) \<Rightarrow> bytes list \<Rightarrow> bytes list" where
  "merkle_top hash level = (if length level > 1 then merkle_top hash (higherLevel hash level) else level)"
  by auto
termination
  by (relation "measure (\<lambda>(hash, level). length level)") (simp_all add: level_size_less)

declare merkle_top.simps [simp del]

definition calculateMerkleProofRoot :: "(bytes \<Rightarrow> bytes) \<Rightarrow> bytes list \<Rightarrow> bytes" where
  "calculateMerkleProofRoot hash bytesCaches =
     (if bytesCaches = [] then hash [] else hash (merkle_top hash bytesCaches ! 0))"

text \<open>
  The map from the hexadecimal text of a node to the texts of its children.  A node that
  occurs twice collects the children of both occurrences, here in the order of the nodes;
  in the parallel loop the order of the two groups depends on the schedule.
\<close>

type_synonym child_map = "string \<Rightarrow> string list"

definition hex_node :: "bytes \<Rightarrow> string" where
  "hex_node b = toHexString b []"

definition add_children :: "(bytes \<Rightarrow> bytes) \<Rightarrow> bytes list \<Rightarrow> nat \<Rightarrow> child_map \<Rightarrow> child_map" where
  "add_children hash level i m =
     (let parentNode = hex_node (hash (concat (children level i))) in
      m(parentNode := m parentNode @ map hex_node (children level i)))"

function proof_levels :: "(bytes \<Rightarrow> bytes) \<Rightarrow> bytes list \<Rightarrow> child_map \<Rightarrow> child_map \<times> bytes list" where
  "proof_levels hash level m =
     (if length level > 1
      then proof_levels hash (higherLevel hash level) (fold (add_children hash level) [0..<level_size level] m)
      else (m, level))"
  by auto
termination
  by (relation "measure (\<lambda>(hash, level, m). length level)") (simp_all add: level_size_less)

declare proof_levels.simps [simp del]

definition calculateMerkleProof :: "(bytes \<Rightarrow> bytes) \<Rightarrow> bytes list \<Rightarrow> child_map \<Rightarrow> child_map" where
  "calculateMerkleProof hash bytesCaches m =
     (if bytesCaches = [] then m
      else
        (let (m', top) = proof_levels hash bytesCaches m; root = hex_node (hash (top ! 0)) in
         m'(root := m' root @ [hex_node (top ! 0)])))"

section \<open>Levels as groups of sixteen\<close>

lemma children_take: "children level i = take 16 (drop (i * 16) level)"
proof (rule nth_equalityI)
  have f: "filter (\<lambda>j. i * 16 + j < length level) [0..<16] = [0..<min 16 (length level - i * 16)]"
  proof -
    have "filter (\<lambda>j. j < n) [0..<m] = [0..<min m n]" for n m :: nat
    proof (induction m)
      case (Suc m)
      then show ?case by (cases "m < n") (simp_all add: min_def)
    qed simp
    moreover have "(\<lambda>j. i * 16 + j < length level) = (\<lambda>j. j < length level - i * 16)" by auto
    ultimately show ?thesis by simp
  qed
  show len: "length (children level i) = length (take 16 (drop (i * 16) level))"
    by (simp add: children_def MAX_CHILD_COUNT_def f del: upt_Suc)
  fix j
  assume j: "j < length (children level i)"
  then have "i * 16 \<le> length level" using len by simp linarith
  then show "children level i ! j = take 16 (drop (i * 16) level) ! j"
    using j by (simp add: children_def MAX_CHILD_COUNT_def f del: upt_Suc)
qed

lemma level_size_eq: "level_size level = (length level + 15) div 16"
  by (simp add: level_size_def MAX_CHILD_COUNT_def)

lemma in_children:
  assumes "k < length level"
  shows "level ! k \<in> set (children level (k div 16))" "k div 16 < level_size level"
proof -
  have "k div 16 * 16 + k mod 16 = k" by simp
  then have "level ! k = take 16 (drop (k div 16 * 16) level) ! (k mod 16)" using assms by simp
  moreover have "k mod 16 < length (take 16 (drop (k div 16 * 16) level))"
  proof -
    have "k mod 16 < length level - k div 16 * 16"
      using assms \<open>k div 16 * 16 + k mod 16 = k\<close> by linarith
    then show ?thesis by simp
  qed
  ultimately show "level ! k \<in> set (children level (k div 16))" unfolding children_take by (metis nth_mem)
  show "k div 16 < level_size level" using assms by (simp add: level_size_eq)
qed

text \<open>Two levels of the same shape with different nodes have a group that differs.\<close>

lemma groups_differ:
  assumes "length xs = length ys" "xs \<noteq> ys"
  shows "\<exists>i < level_size xs. children xs i \<noteq> children ys i"
proof -
  obtain k where k: "k < length xs" "xs ! k \<noteq> ys ! k" using assms nth_equalityI by blast
  have "children xs (k div 16) ! (k mod 16) = xs ! k" "children ys (k div 16) ! (k mod 16) = ys ! k"
    using k(1) assms(1) by (simp_all add: children_take)
  then have "children xs (k div 16) \<noteq> children ys (k div 16)" using k(2) by metis
  then show ?thesis using in_children(2) [OF k(1)] by blast
qed

lemma concat_inj:
  "list_all2 (\<lambda>a b. length a = length b) xs ys \<Longrightarrow> concat xs = concat ys \<Longrightarrow> xs = ys"
  by (induction rule: list_all2_induct) auto

text \<open>The strings that are hashed while a root is computed.\<close>

function merkle_inputs :: "(bytes \<Rightarrow> bytes) \<Rightarrow> bytes list \<Rightarrow> bytes list" where
  "merkle_inputs hash level =
     (if length level > 1
      then map (\<lambda>i. concat (children level i)) [0..<level_size level] @ merkle_inputs hash (higherLevel hash level)
      else level)"
  by auto
termination
  by (relation "measure (\<lambda>(hash, level). length level)") (simp_all add: level_size_less)

declare merkle_inputs.simps [simp del]

text \<open>A collision of the hash between two given sets of strings.\<close>

definition collision :: "(bytes \<Rightarrow> bytes) \<Rightarrow> bytes list \<Rightarrow> bytes list \<Rightarrow> bool" where
  "collision hash as bs = (\<exists>a \<in> set as. \<exists>b \<in> set bs. a \<noteq> b \<and> hash a = hash b)"

lemma higher_differs:
  assumes "list_all2 (\<lambda>a b. length a = length b) xs ys" "xs \<noteq> ys" "higherLevel hash xs = higherLevel hash ys"
  shows "collision hash (map (\<lambda>i. concat (children xs i)) [0..<level_size xs])
    (map (\<lambda>i. concat (children ys i)) [0..<level_size ys])"
proof -
  have len: "length xs = length ys" using assms(1) by (rule list_all2_lengthD)
  obtain i where i: "i < level_size xs" "children xs i \<noteq> children ys i" using groups_differ [OF len assms(2)] by blast
  have ls: "level_size ys = level_size xs" using len by (simp add: level_size_def)
  then have "hash (concat (children xs i)) = hash (concat (children ys i))"
    using assms(3) i(1) by (simp add: higherLevel_def del: upt_Suc)
  moreover have "list_all2 (\<lambda>a b. length a = length b) (children xs i) (children ys i)"
    using assms(1) by (simp add: children_take)
  then have "concat (children xs i) \<noteq> concat (children ys i)" using i(2) concat_inj by blast
  ultimately show ?thesis using i(1) ls by (fastforce simp: collision_def simp del: upt_Suc)
qed

lemma top_differs:
  assumes "\<forall>b. length (hash b) = 32"
  shows "list_all2 (\<lambda>a b. length a = length b) xs ys \<Longrightarrow> xs \<noteq> ys \<Longrightarrow>
    merkle_top hash xs = merkle_top hash ys \<Longrightarrow> collision hash (merkle_inputs hash xs) (merkle_inputs hash ys)"
proof (induction "length xs" arbitrary: xs ys rule: less_induct)
  case less
  have len: "length xs = length ys" using less.prems(1) by (rule list_all2_lengthD)
  show ?case
  proof (cases "length xs > 1")
    case False
    then show ?thesis using less.prems(2,3) len by (simp add: merkle_top.simps [of hash xs] merkle_top.simps [of hash ys])
  next
    case True
    show ?thesis
    proof (cases "higherLevel hash xs = higherLevel hash ys")
      case True
      from higher_differs [OF less.prems(1,2) True] show ?thesis
        using \<open>length xs > 1\<close> len
        by (auto simp: merkle_inputs.simps [of hash xs] merkle_inputs.simps [of hash ys] collision_def simp del: upt_Suc)
    next
      case False
      have "list_all2 (\<lambda>a b. length a = length b) (higherLevel hash xs) (higherLevel hash ys)"
        using len assms by (simp add: list_all2_conv_all_nth level_size_def) (simp add: higherLevel_def level_size_def)
      moreover have "length (higherLevel hash xs) < length xs" using level_size_less [OF \<open>length xs > 1\<close>] by simp
      moreover have "merkle_top hash (higherLevel hash xs) = merkle_top hash (higherLevel hash ys)"
        using less.prems(3) \<open>length xs > 1\<close> len
        by (simp add: merkle_top.simps [of hash xs] merkle_top.simps [of hash ys])
      ultimately have "collision hash (merkle_inputs hash (higherLevel hash xs)) (merkle_inputs hash (higherLevel hash ys))"
        using less.hyps False by blast
      then show ?thesis using \<open>length xs > 1\<close> len
        by (auto simp: merkle_inputs.simps [of hash xs] merkle_inputs.simps [of hash ys] collision_def simp del: upt_Suc)
    qed
  qed
qed

lemma length_merkle_top: "level \<noteq> [] \<Longrightarrow> length (merkle_top hash level) = 1"
proof (induction "length level" arbitrary: level rule: less_induct)
  case less
  show ?case
  proof (cases "length level > 1")
    case True
    have "higherLevel hash level \<noteq> []" using True by (simp add: higherLevel_def level_size_eq)
    then show ?thesis using less.hyps [of "higherLevel hash level"] level_size_less [OF True] True
      by (simp add: merkle_top.simps [of hash level])
  next
    case False
    then show ?thesis using less.prems by (cases level) (simp_all add: merkle_top.simps)
  qed
qed

lemma top_in_inputs: "set (merkle_top hash level) \<subseteq> set (merkle_inputs hash level)"
proof (induction "length level" arbitrary: level rule: less_induct)
  case less
  show ?case
    using less.hyps [of "higherLevel hash level"] level_size_less [of level]
    by (cases "length level > 1")
      (auto simp: merkle_top.simps [of hash level] merkle_inputs.simps [of hash level] simp del: upt_Suc)
qed

section \<open>Paths in the child map\<close>

text \<open>A node is below another if a chain of child lists leads to it.\<close>

inductive below :: "child_map \<Rightarrow> string \<Rightarrow> string \<Rightarrow> bool" for m where
  below_refl: "below m x x"
| below_step: "c \<in> set (m p) \<Longrightarrow> below m p r \<Longrightarrow> below m c r"

lemma below_mono: "below m x r \<Longrightarrow> (\<And>p. set (m p) \<subseteq> set (m' p)) \<Longrightarrow> below m' x r"
  by (induction rule: below.induct) (auto intro: below.intros)

lemma fold_add_children:
  "set (m p) \<subseteq> set (fold (add_children hash level) is m p)"
  "i \<in> set is \<Longrightarrow> set (map hex_node (children level i)) \<subseteq>
     set (fold (add_children hash level) is m (hex_node (hash (concat (children level i)))))"
proof -
  show mono: "set (m p) \<subseteq> set (fold (add_children hash level) is m p)" for m p "is"
  proof (induction "is" arbitrary: m)
    case (Cons i "is")
    have "set (m p) \<subseteq> set (add_children hash level i m p)" by (auto simp: add_children_def Let_def)
    also have "\<dots> \<subseteq> set (fold (add_children hash level) (i # is) m p)" using Cons by simp
    finally show ?case .
  qed simp
  show "i \<in> set is \<Longrightarrow> set (map hex_node (children level i)) \<subseteq>
     set (fold (add_children hash level) is m (hex_node (hash (concat (children level i)))))"
  proof (induction "is" arbitrary: m)
    case (Cons j "is")
    show ?case
    proof (cases "i = j")
      case True
      have "set (map hex_node (children level i)) \<subseteq>
          set (add_children hash level i m (hex_node (hash (concat (children level i)))))"
        by (auto simp: add_children_def Let_def)
      also have "\<dots> \<subseteq> set (fold (add_children hash level) is (add_children hash level i m)
          (hex_node (hash (concat (children level i)))))" by (rule mono)
      finally show ?thesis using True by simp
    next
      case False
      then show ?thesis using Cons by simp
    qed
  qed simp
qed

lemma proof_levels_mono: "set (m p) \<subseteq> set (fst (proof_levels hash level m) p)"
proof (induction "length level" arbitrary: level m rule: less_induct)
  case less
  show ?case
  proof (cases "length level > 1")
    case True
    have "set (m p) \<subseteq> set (fold (add_children hash level) [0..<level_size level] m p)"
      by (rule fold_add_children)
    also have "\<dots> \<subseteq> set (fst (proof_levels hash level m) p)"
      using less.hyps [of "higherLevel hash level"] level_size_less [OF True] True
      by (simp add: proof_levels.simps [of hash level])
    finally show ?thesis .
  qed (simp add: proof_levels.simps [of hash level])
qed

lemma proof_levels_top: "snd (proof_levels hash level m) = merkle_top hash level"
proof (induction "length level" arbitrary: level m rule: less_induct)
  case less
  show ?case
    using less.hyps [of "higherLevel hash level"] level_size_less [of level]
    by (cases "length level > 1")
      (simp_all add: proof_levels.simps [of hash level] merkle_top.simps [of hash level])
qed

lemma proof_levels_below:
  "x \<in> set level \<Longrightarrow> below (fst (proof_levels hash level m)) (hex_node x) (hex_node (merkle_top hash level ! 0))"
proof (induction "length level" arbitrary: level m x rule: less_induct)
  case less
  show ?case
  proof (cases "length level > 1")
    case True
    let ?m1 = "fold (add_children hash level) [0..<level_size level] m"
    obtain k where k: "k < length level" "x = level ! k" using less.prems by (auto simp: in_set_conv_nth)
    define i where "i = k div 16"
    note c = in_children [OF k(1), folded i_def]
    define y where "y = hash (concat (children level i))"
    have "y \<in> set (higherLevel hash level)" using c(2) by (simp add: higherLevel_def y_def del: upt_Suc)
    then have "below (fst (proof_levels hash (higherLevel hash level) ?m1)) (hex_node y)
        (hex_node (merkle_top hash (higherLevel hash level) ! 0))"
      using less.hyps level_size_less [OF True] by simp
    moreover have "hex_node x \<in> set (fst (proof_levels hash (higherLevel hash level) ?m1) (hex_node y))"
    proof -
      have "hex_node x \<in> set (map hex_node (children level i))" using c(1) k(2) by simp
      also have "\<dots> \<subseteq> set (?m1 (hex_node y))" unfolding y_def using c(2) by (intro fold_add_children) simp
      also have "\<dots> \<subseteq> set (fst (proof_levels hash (higherLevel hash level) ?m1) (hex_node y))"
        by (rule proof_levels_mono)
      finally show ?thesis .
    qed
    ultimately show ?thesis using True
      by (simp add: proof_levels.simps [of hash level] merkle_top.simps [of hash level] below_step)
  next
    case False
    then have "level = [x]" using less.prems by (cases level) auto
    then show ?thesis by (simp add: proof_levels.simps merkle_top.simps below_refl)
  qed
qed

lemma merkle_collision:
  assumes "\<forall>b. length (hash b) = 32" "list_all2 (\<lambda>a b. length a = length b) xs ys" "xs \<noteq> ys"
    and "calculateMerkleProofRoot hash xs = calculateMerkleProofRoot hash ys"
  shows "\<exists>a \<in> set (merkle_inputs hash xs). \<exists>b \<in> set (merkle_inputs hash ys). a \<noteq> b \<and> hash a = hash b"
proof -
  have ne: "xs \<noteq> []" "ys \<noteq> []" using assms(2,3) by auto
  then have eq: "hash (merkle_top hash xs ! 0) = hash (merkle_top hash ys ! 0)"
    using assms(4) by (simp add: calculateMerkleProofRoot_def)
  obtain a b where tops: "merkle_top hash xs = [a]" "merkle_top hash ys = [b]"
    using length_merkle_top [OF ne(1), of hash] length_merkle_top [OF ne(2), of hash] by (auto simp: length_Suc_conv)
  show ?thesis
  proof (cases "a = b")
    case True
    then show ?thesis using top_differs [OF assms(1-3)] tops by (simp add: collision_def)
  next
    case False
    then show ?thesis using eq tops top_in_inputs [of hash xs] top_in_inputs [of hash ys] by auto
  qed
qed

section \<open>Properties\<close>

text \<open>
  A Merkle root commits to its leaves.  Two different lists of leaves with the same
  number of leaves of the same lengths and the same root exhibit a collision of the hash,
  between two different strings that are hashed while the two roots are computed.
\<close>

theorem merkle_root_binding:
  assumes "\<forall>b. length (hash b) = 32" "list_all2 (\<lambda>a b. length a = length b) xs ys" "xs \<noteq> ys"
    and "calculateMerkleProofRoot hash xs = calculateMerkleProofRoot hash ys"
  shows "\<exists>a \<in> set (merkle_inputs hash xs). \<exists>b \<in> set (merkle_inputs hash ys). a \<noteq> b \<and> hash a = hash b"
  using assms by (rule merkle_collision)

theorem merkle_root_binding_witness:
  "\<exists>a \<in> set (merkle_inputs (\<lambda>_. replicate 32 0) [[1], [2]]).
     \<exists>b \<in> set (merkle_inputs (\<lambda>_. replicate 32 0) [[1], [3]]). a \<noteq> b"
proof -
  let ?h = "\<lambda>_ :: bytes. replicate 32 0 :: bytes"
  have "calculateMerkleProofRoot ?h [[1], [2]] = calculateMerkleProofRoot ?h [[1], [3]]"
    by (simp add: calculateMerkleProofRoot_def)
  with merkle_root_binding [of ?h "[[1], [2]]" "[[1], [3]]"] show ?thesis by auto
qed

text \<open>
  C37: the proof map connects every leaf to the root: from the text of the root one reaches
  the text of each leaf through the recorded child lists, and the root is the one
  calculateMerkleProofRoot computes.
\<close>

theorem merkle_proof_connects:
  assumes "x \<in> set leaves"
  shows "below (calculateMerkleProof hash leaves m) (hex_node x) (hex_node (calculateMerkleProofRoot hash leaves))"
proof -
  have ne: "leaves \<noteq> []" using assms by auto
  let ?top = "merkle_top hash leaves ! 0"
  obtain m1 where pl: "proof_levels hash leaves m = (m1, merkle_top hash leaves)"
    using proof_levels_top [of hash leaves m] by (metis prod.collapse)
  let ?m2 = "calculateMerkleProof hash leaves m" and ?r = "hex_node (hash ?top)"
  have m2: "?m2 = m1(?r := m1 ?r @ [hex_node ?top])" using ne pl by (simp add: calculateMerkleProof_def Let_def)
  have "below m1 (hex_node x) (hex_node ?top)" using proof_levels_below [OF assms, of hash m] pl by simp
  then have path: "below ?m2 (hex_node x) (hex_node ?top)"
    by (rule below_mono) (auto simp: m2)
  have last: "below ?m2 (hex_node ?top) ?r" by (rule below_step [of _ _ ?r]) (simp_all add: m2 below_refl)
  have trans: "below m' a b \<Longrightarrow> below m' b c \<Longrightarrow> below m' a c" for m' a b c
    by (induction rule: below.induct) (auto intro: below.intros)
  show ?thesis using trans [OF path last] ne by (simp add: calculateMerkleProofRoot_def)
qed

theorem merkle_proof_connects_witness:
  "below (calculateMerkleProof (\<lambda>b. [of_nat (length b)]) [[1], [2]] (\<lambda>_. [])) (hex_node [2])
     (hex_node (calculateMerkleProofRoot (\<lambda>b. [of_nat (length b)]) [[1], [2]]))"
  by (rule merkle_proof_connects) simp

end
