(* ===== verification/Block_Object.thy ===== *)
theory Block_Object
  imports Protocol_Objects_Props Merkle_Proof
begin

text \<open>
  Blocks: \<^verbatim>\<open>interfaces/protocol/Block.h\<close>, \<^verbatim>\<open>libprotocol/protobuf/PBBlock.{h,cpp}\<close> and
  \<^verbatim>\<open>PBTransactionMetaData.h\<close>.  A block owns its message, an optional header, vectors of
  pointers to transactions and receipts (which may be null), the metadata objects and the
  nonces.  The parallel loops write disjoint elements, so they are maps over the list; of
  several exceptions the first in index order is reported.  The five parts of decoding and
  encoding touch disjoint members and are run in the order of the source.
\<close>

section \<open>Transaction metadata\<close>

record tx_meta_obj =
  mt_raw :: raw_meta
  mt_hash :: bytes

definition meta_setHash :: "bytes \<Rightarrow> tx_meta_obj \<Rightarrow> tx_meta_obj" where
  "meta_setHash h m = m\<lparr>mt_hash := h, mt_raw := (mt_raw m)\<lparr>rm_hash := h\<rparr>\<rparr>"

definition meta_setTo :: "string \<Rightarrow> tx_meta_obj \<Rightarrow> tx_meta_obj" where
  "meta_setTo v m = m\<lparr>mt_raw := (mt_raw m)\<lparr>rm_to := v\<rparr>\<rparr>"

definition meta_setAttribute :: "nat \<Rightarrow> tx_meta_obj \<Rightarrow> tx_meta_obj" where
  "meta_setAttribute v m = m\<lparr>mt_raw := (mt_raw m)\<lparr>rm_attribute := v\<rparr>\<rparr>"

definition meta_setSource :: "string \<Rightarrow> tx_meta_obj \<Rightarrow> tx_meta_obj" where
  "meta_setSource v m = m\<lparr>mt_raw := (mt_raw m)\<lparr>rm_source := v\<rparr>\<rparr>"

definition meta_of_raw :: "raw_meta \<Rightarrow> tx_meta_obj" where
  "meta_of_raw raw = \<lparr>mt_raw = raw, mt_hash = fb_zero 32\<rparr>"

definition new_tx_meta :: "bytes \<Rightarrow> string \<Rightarrow> tx_meta_obj" where
  "new_tx_meta h to =
     meta_setTo to (meta_setHash h (meta_of_raw \<lparr>rm_hash = [], rm_to = [], rm_attribute = 0, rm_source = []\<rparr>))"

text \<open>The hash is cached in the object unless it is zero.\<close>

definition meta_hash :: "tx_meta_obj \<Rightarrow> bytes \<times> tx_meta_obj" where
  "meta_hash m =
     (if mt_hash m \<noteq> fb_zero 32 then (mt_hash m, m)
      else if length (rm_hash (mt_raw m)) \<ge> 32
      then (take 32 (rm_hash (mt_raw m)), m\<lparr>mt_hash := take 32 (rm_hash (mt_raw m))\<rparr>)
      else (mt_hash m, m))"

section \<open>The block object\<close>

record block_obj =
  bk_raw :: raw_block
  bk_header :: "block_header option"
  bk_transactions :: "transaction option list"
  bk_receipts :: "receipt option list"
  bk_metas :: "tx_meta_obj list"
  bk_nonceList :: "nat list"

definition new_block :: block_obj where
  "new_block =
     \<lparr>bk_raw = \<lparr>rb_version = 0, rb_type = 0, rb_header = [], rb_transactions = [], rb_receipts = [],
        rb_transactionsmetadata = [], rb_noncelist = []\<rparr>,
      bk_header = None, bk_transactions = [], bk_receipts = [], bk_metas = [], bk_nonceList = []\<rparr>"

definition blk_setVersion :: "int \<Rightarrow> block_obj \<Rightarrow> block_obj" where
  "blk_setVersion v b = b\<lparr>bk_raw := (bk_raw b)\<lparr>rb_version := v\<rparr>\<rparr>"

definition setBlockType :: "int \<Rightarrow> block_obj \<Rightarrow> block_obj" where
  "setBlockType v b = b\<lparr>bk_raw := (bk_raw b)\<lparr>rb_type := v\<rparr>\<rparr>"

definition setBlockHeader :: "block_header option \<Rightarrow> block_obj \<Rightarrow> block_obj" where
  "setBlockHeader h b = b\<lparr>bk_header := h\<rparr>"

definition clearTransactionsCache :: "block_obj \<Rightarrow> block_obj" where
  "clearTransactionsCache b = b\<lparr>bk_raw := (bk_raw b)\<lparr>rb_transactions := []\<rparr>\<rparr>"

definition clearReceiptsCache :: "block_obj \<Rightarrow> block_obj" where
  "clearReceiptsCache b = b\<lparr>bk_raw := (bk_raw b)\<lparr>rb_receipts := []\<rparr>\<rparr>"

definition clearTransactionMetaDataCache :: "block_obj \<Rightarrow> block_obj" where
  "clearTransactionMetaDataCache b = b\<lparr>bk_raw := (bk_raw b)\<lparr>rb_transactionsmetadata := []\<rparr>\<rparr>"

text \<open>Writing an element of a vector that is first extended with null pointers if it is too short.\<close>

definition set_extended :: "nat \<Rightarrow> 'a option \<Rightarrow> 'a option list \<Rightarrow> 'a option list" where
  "set_extended i x xs = (if length xs \<le> i then xs @ replicate (i + 1 - length xs) None else xs)[i := x]"

definition setTransactions :: "transaction option list \<Rightarrow> block_obj \<Rightarrow> block_obj" where
  "setTransactions ts b = clearTransactionsCache (b\<lparr>bk_transactions := ts\<rparr>)"

definition setTransaction :: "nat \<Rightarrow> transaction option \<Rightarrow> block_obj \<Rightarrow> block_obj" where
  "setTransaction i t b = clearTransactionsCache (b\<lparr>bk_transactions := set_extended i t (bk_transactions b)\<rparr>)"

definition appendTransaction :: "transaction option \<Rightarrow> block_obj \<Rightarrow> block_obj" where
  "appendTransaction t b = clearTransactionsCache (b\<lparr>bk_transactions := bk_transactions b @ [t]\<rparr>)"

definition setReceipts :: "receipt option list \<Rightarrow> block_obj \<Rightarrow> block_obj" where
  "setReceipts rs b = clearReceiptsCache (b\<lparr>bk_receipts := rs\<rparr>)"

definition setReceipt :: "nat \<Rightarrow> receipt option \<Rightarrow> block_obj \<Rightarrow> block_obj" where
  "setReceipt i r b = clearReceiptsCache (b\<lparr>bk_receipts := set_extended i r (bk_receipts b)\<rparr>)"

definition appendReceipt :: "receipt option \<Rightarrow> block_obj \<Rightarrow> block_obj" where
  "appendReceipt r b = clearReceiptsCache (b\<lparr>bk_receipts := bk_receipts b @ [r]\<rparr>)"

definition appendTransactionMetaData :: "tx_meta_obj \<Rightarrow> block_obj \<Rightarrow> block_obj" where
  "appendTransactionMetaData m b = b\<lparr>bk_metas := bk_metas b @ [m]\<rparr>"

definition setNonceList :: "nat list \<Rightarrow> block_obj \<Rightarrow> block_obj" where
  "setNonceList ns b = b\<lparr>bk_nonceList := ns, bk_raw := (bk_raw b)\<lparr>rb_noncelist := []\<rparr>\<rparr>"

text \<open>
  Element access.  The bound of the first two lets the index equal to the size through,
  where the vector is read past its end.
\<close>

definition block_transaction :: "nat \<Rightarrow> block_obj \<Rightarrow> protocol_error + transaction option" where
  "block_transaction i b =
     (if length (bk_transactions b) < i then Inr None
      else if i < length (bk_transactions b) then Inr (bk_transactions b ! i) else Inl OutOfBounds)"

definition block_receipt :: "nat \<Rightarrow> block_obj \<Rightarrow> protocol_error + receipt option" where
  "block_receipt i b =
     (if length (bk_receipts b) < i then Inr None
      else if i < length (bk_receipts b) then Inr (bk_receipts b ! i) else Inl OutOfBounds)"

definition transactionMetaData :: "nat \<Rightarrow> block_obj \<Rightarrow> tx_meta_obj option" where
  "transactionMetaData i b = (if length (bk_metas b) \<le> i then None else Some (bk_metas b ! i))"

definition transactionHash :: "nat \<Rightarrow> block_obj \<Rightarrow> bytes" where
  "transactionHash i b =
     (case transactionMetaData i b of None \<Rightarrow> fb_zero 32 | Some m \<Rightarrow> fst (meta_hash m))"

definition deref :: "'a option \<Rightarrow> protocol_error + 'a" where
  "deref p = (case p of None \<Rightarrow> Inl NullPointer | Some x \<Rightarrow> Inr x)"

definition nonces :: "block_obj \<Rightarrow> protocol_error + nat list" where
  "nonces b =
     map_res (\<lambda>i. bind_res (block_transaction i b) (\<lambda>p. bind_res (deref p) (\<lambda>t. Inr (tx_nonce t))))
       [0..<length (bk_transactions b)]"

section \<open>Decoding\<close>

definition decode_header_part :: "'k proto_env \<Rightarrow> block_obj \<Rightarrow> protocol_error + block_obj" where
  "decode_header_part env b =
     (if rb_header (bk_raw b) = [] then Inr b
      else bind_res (Block_Header.decode (pe_parse_header env) (pe_scale env) (new_block_header (pe_uninit env)) (rb_header (bk_raw b)))
        (\<lambda>h. Inr (b\<lparr>bk_header := Some h\<rparr>)))"

definition decodeTransactions :: "'k proto_env \<Rightarrow> bool \<Rightarrow> bool \<Rightarrow> block_obj \<Rightarrow> protocol_error + block_obj" where
  "decodeTransactions env calculateHash checkSig b =
     (if rb_transactions (bk_raw b) = [] then Inr b
      else
        bind_res (map_res (\<lambda>txData. bind_res (transaction_from_data env txData checkSig)
                    (\<lambda>t. if calculateHash then bind_res (tx_hash t) (\<lambda>_. Inr (Some t)) else Inr (Some t)))
                  (rb_transactions (bk_raw b)))
          (\<lambda>ts. Inr (b\<lparr>bk_transactions := ts\<rparr>)))"

definition decodeReceipts :: "'k proto_env \<Rightarrow> bool \<Rightarrow> block_obj \<Rightarrow> protocol_error + block_obj" where
  "decodeReceipts env calculateHash b =
     (if rb_receipts (bk_raw b) = [] then Inr b
      else
        bind_res (map_res (\<lambda>receiptData. bind_res (receipt_from_data env receiptData)
                    (\<lambda>r. if calculateHash then bind_res (receipt_hash env r) (\<lambda>(_, r1). Inr (Some r1)) else Inr (Some r)))
                  (rb_receipts (bk_raw b)))
          (\<lambda>rs. Inr (b\<lparr>bk_receipts := rs\<rparr>)))"

definition decodeTransactionsMetaData :: "block_obj \<Rightarrow> block_obj" where
  "decodeTransactionsMetaData b = b\<lparr>bk_metas := map meta_of_raw (rb_transactionsmetadata (bk_raw b))\<rparr>"

definition decodeNonceList :: "block_obj \<Rightarrow> block_obj" where
  "decodeNonceList b =
     (if rb_noncelist (bk_raw b) = [] then b
      else b\<lparr>bk_nonceList := map (fromBigEndian 256) (rb_noncelist (bk_raw b))\<rparr>)"

definition block_decode :: "'k proto_env \<Rightarrow> bool \<Rightarrow> bool \<Rightarrow> block_obj \<Rightarrow> bytes \<Rightarrow> protocol_error + block_obj" where
  "block_decode env calculateHash checkSig b data =
     bind_res (decodePBObject (pe_parse_block env) data)
       (\<lambda>raw. bind_res (decode_header_part env (b\<lparr>bk_raw := raw\<rparr>))
          (\<lambda>b1. bind_res (decodeTransactions env calculateHash checkSig b1)
             (\<lambda>b2. bind_res (decodeReceipts env calculateHash b2)
                (\<lambda>b3. Inr (decodeNonceList (decodeTransactionsMetaData b3))))))"

section \<open>Encoding\<close>

definition encode_header_part :: "'k proto_env \<Rightarrow> block_obj \<Rightarrow> protocol_error + block_obj" where
  "encode_header_part env b =
     (case bk_header b of
        None \<Rightarrow> Inr b
      | Some h \<Rightarrow>
          bind_res (Block_Header.encode (pe_ser_header env) h)
            (\<lambda>(d, h1). Inr (b\<lparr>bk_header := Some h1, bk_raw := (bk_raw b)\<lparr>rb_header := d\<rparr>\<rparr>)))"

definition encodeTransactions :: "'k proto_env \<Rightarrow> block_obj \<Rightarrow> protocol_error + block_obj" where
  "encodeTransactions env b =
     (if bk_transactions b = [] \<or> rb_transactions (bk_raw b) \<noteq> [] then Inr b
      else
        bind_res (map_res (\<lambda>p. bind_res (deref p) (tx_encode env False)) (bk_transactions b))
          (\<lambda>ds. Inr (b\<lparr>bk_transactions := map (\<lambda>d. Some (snd d)) ds, bk_raw := (bk_raw b)\<lparr>rb_transactions := map fst ds\<rparr>\<rparr>)))"

definition encodeReceipts :: "'k proto_env \<Rightarrow> block_obj \<Rightarrow> protocol_error + block_obj" where
  "encodeReceipts env b =
     (if bk_receipts b = [] \<or> rb_receipts (bk_raw b) \<noteq> [] then Inr b
      else
        bind_res (map_res (\<lambda>p. bind_res (deref p) (receipt_encode env)) (bk_receipts b))
          (\<lambda>ds. Inr (b\<lparr>bk_receipts := map (\<lambda>d. Some (snd d)) ds, bk_raw := (bk_raw b)\<lparr>rb_receipts := map fst ds\<rparr>\<rparr>)))"

definition encodeTransactionsMetaData :: "block_obj \<Rightarrow> block_obj" where
  "encodeTransactionsMetaData b =
     (let b1 = clearTransactionMetaDataCache b in
      b1\<lparr>bk_raw := (bk_raw b1)\<lparr>rb_transactionsmetadata := map mt_raw (bk_metas b1)\<rparr>\<rparr>)"

definition encodeNonceList :: "block_obj \<Rightarrow> block_obj" where
  "encodeNonceList b =
     (if bk_nonceList b = [] \<or> rb_noncelist (bk_raw b) \<noteq> [] then b
      else b\<lparr>bk_raw := (bk_raw b)\<lparr>rb_noncelist := map toBigEndian_u256 (bk_nonceList b)\<rparr>\<rparr>)"

definition block_encode :: "'k proto_env \<Rightarrow> block_obj \<Rightarrow> protocol_error + bytes \<times> block_obj" where
  "block_encode env b =
     bind_res (encode_header_part env b)
       (\<lambda>b1. bind_res (encodeTransactions env b1)
          (\<lambda>b2. bind_res (encodeReceipts env b2)
             (\<lambda>b3. let b4 = encodeNonceList (encodeTransactionsMetaData b3) in
                bind_res (encodePBObject (pe_ser_block env) (bk_raw b4)) (\<lambda>d. Inr (d, b4)))))"

section \<open>Roots\<close>

text \<open>The leaf of an element is its index as eight bytes followed by its hash.\<close>

definition encodeToCalculateRoot :: "nat \<Rightarrow> (nat \<Rightarrow> protocol_error + bytes) \<Rightarrow> protocol_error + bytes list" where
  "encodeToCalculateRoot listSize hashFunc =
     map_res (\<lambda>i. bind_res (lift_scale (encodeInteger 8 (int i)))
                (\<lambda>encodedData. bind_res (hashFunc i) (\<lambda>h. Inr (encodedData @ h)))) [0..<listSize]"

text \<open>
  The roots.  The hash members that the calls fill in the metadata and receipts are caches
  of the value they return and are not tracked here.
\<close>

definition calculateTransactionRoot :: "'k proto_env \<Rightarrow> block_obj \<Rightarrow> protocol_error + bytes" where
  "calculateTransactionRoot env b =
     (if bk_transactions b = [] \<and> bk_metas b = [] then Inr (fb_zero 32)
      else
        bind_res
          (if bk_transactions b \<noteq> []
           then encodeToCalculateRoot (length (bk_transactions b))
             (\<lambda>i. bind_res (block_transaction i b) (\<lambda>p. bind_res (deref p) tx_hash))
           else encodeToCalculateRoot (length (bk_metas b))
             (\<lambda>i. bind_res (deref (transactionMetaData i b)) (\<lambda>m. Inr (fst (meta_hash m)))))
          (\<lambda>leaves. Inr (calculateMerkleProofRoot (pe_hash env) leaves)))"

definition calculateReceiptRoot :: "'k proto_env \<Rightarrow> block_obj \<Rightarrow> protocol_error + bytes" where
  "calculateReceiptRoot env b =
     (if bk_receipts b = [] then Inr (fb_zero 32)
      else
        bind_res (encodeToCalculateRoot (length (bk_receipts b))
            (\<lambda>i. bind_res (block_receipt i b)
               (\<lambda>p. bind_res (deref p) (\<lambda>r. bind_res (receipt_hash env r) (\<lambda>(h, _). Inr h)))))
          (\<lambda>leaves. Inr (calculateMerkleProofRoot (pe_hash env) leaves)))"

end
