(* ===== verification/Block_Object_Props.thy ===== *)
theory Block_Object_Props
  imports Block_Object
begin

text \<open>
  Correctness of blocks: the cached parts of the message stay coherent with the objects
  under every setter and under encoding, an encoded block decodes to the same block, the
  transaction root commits to the transactions, and a proposal that carries only metadata
  has the root of the complete block.
\<close>

section \<open>Coherence of the message with the objects\<close>

text \<open>
  The bytes kept in the message for a transaction or a receipt are those its object encodes
  to, or those it was decoded from.
\<close>

definition tx_coherent :: "'k proto_env \<Rightarrow> transaction option \<Rightarrow> bytes \<Rightarrow> bool" where
  "tx_coherent env p d =
     (\<exists>t. p = Some t \<and>
        ((\<exists>t1. tx_encode env False t = Inr (d, t1)) \<or> pe_parse_tx env d = Some (tx_raw t)))"

definition receipt_reads :: "'k proto_env \<Rightarrow> receipt \<Rightarrow> bool" where
  "receipt_reads env r =
     (rr_hashfieldsdata (re_raw r) \<noteq> [] \<and>
      (\<exists>rest. decode_receipt_tuple (pe_scale env) (rr_hashfieldsdata (re_raw r)) = Inr (receipt_tuple r, rest)))"

definition receipt_coherent :: "'k proto_env \<Rightarrow> receipt option \<Rightarrow> bytes \<Rightarrow> bool" where
  "receipt_coherent env p d =
     (\<exists>r. p = Some r \<and>
        ((\<exists>r1. receipt_encode env r = Inr (d, r1)) \<or> pe_parse_receipt env d = Some (re_raw r) \<and> receipt_reads env r))"

definition block_inv :: "'k proto_env \<Rightarrow> block_obj \<Rightarrow> bool" where
  "block_inv env b =
     ((rb_transactions (bk_raw b) = [] \<or> list_all2 (tx_coherent env) (bk_transactions b) (rb_transactions (bk_raw b))) \<and>
      (rb_receipts (bk_raw b) = [] \<or> list_all2 (receipt_coherent env) (bk_receipts b) (rb_receipts (bk_raw b))) \<and>
      (rb_noncelist (bk_raw b) = [] \<or> rb_noncelist (bk_raw b) = map toBigEndian_u256 (bk_nonceList b) \<or>
       map (fromBigEndian 256) (rb_noncelist (bk_raw b)) = bk_nonceList b))"

lemma tx_encode_again: "tx_encode env False t = Inr (d, t1) \<Longrightarrow> tx_encode env False t1 = Inr (d, t1)"
  by (auto simp: tx_encode_def bind_res_eq_Inr split: if_splits)

lemma receipt_encode_again: "receipt_encode env r = Inr (d, r1) \<Longrightarrow> receipt_encode env r1 = Inr (d, r1)"
  by (auto simp: receipt_encode_def receipt_encodeHashFields_def bind_res_eq_Inr receipt_tuple_def lift_scale_def
      split: if_splits sum.splits)

lemma encoded_list:
  assumes "map_res (\<lambda>p. bind_res (deref p) enc) ps = Inr ds" "\<And>x d y. enc x = Inr (d, y) \<Longrightarrow> enc y = Inr (d, y)"
    and "\<And>x d y. enc x = Inr (d, y) \<Longrightarrow> P (Some x) d"
  shows "list_all2 P ps (map fst ds) \<and> list_all2 P (map (\<lambda>d. Some (snd d)) ds) (map fst ds)"
proof -
  have l: "list_all2 (\<lambda>p d. bind_res (deref p) enc = Inr d) ps ds" using assms(1) by (simp add: map_res_Inr_iff)
  have one: "\<exists>x. p = Some x \<and> enc x = Inr d" if "bind_res (deref p) enc = Inr d" for p d
    using that by (auto simp: deref_def bind_res_eq_Inr split: option.splits)
  have two: "P (Some y) d" if "enc x = Inr (d, y)" for x d y using assms(3) [OF assms(2) [OF that]] .
  show ?thesis
    using l by (induction rule: list_all2_induct) (auto dest!: one intro: assms(3) two)
qed

lemma tx_encode_coherent: "tx_encode env False t = Inr (d, t1) \<Longrightarrow> tx_coherent env (Some t) d"
  by (auto simp: tx_coherent_def)

lemma receipt_encode_coherent: "receipt_encode env r = Inr (d, r1) \<Longrightarrow> receipt_coherent env (Some r) d"
  by (auto simp: receipt_coherent_def)

text \<open>The parts that the three fallible steps of encoding leave alone.\<close>

definition rest_same :: "block_obj \<Rightarrow> block_obj \<Rightarrow> bool" where
  "rest_same b b' = (bk_metas b' = bk_metas b \<and> bk_nonceList b' = bk_nonceList b \<and>
     rb_version (bk_raw b') = rb_version (bk_raw b) \<and> rb_type (bk_raw b') = rb_type (bk_raw b) \<and>
     rb_noncelist (bk_raw b') = rb_noncelist (bk_raw b))"

lemma encodeTransactions_inv:
  assumes "block_inv env b" "encodeTransactions env b = Inr b'"
  shows "block_inv env b' \<and> rest_same b b' \<and> bk_receipts b' = bk_receipts b \<and> rb_receipts (bk_raw b') = rb_receipts (bk_raw b) \<and>
    rb_header (bk_raw b') = rb_header (bk_raw b) \<and>
    list_all2 (tx_coherent env) (bk_transactions b) (rb_transactions (bk_raw b'))"
proof (cases "bk_transactions b = [] \<or> rb_transactions (bk_raw b) \<noteq> []")
  case True
  then show ?thesis using assms by (auto simp: encodeTransactions_def block_inv_def rest_same_def)
next
  case False
  then obtain ds where ds: "map_res (\<lambda>p. bind_res (deref p) (tx_encode env False)) (bk_transactions b) = Inr ds"
    and b': "b' = b\<lparr>bk_transactions := map (\<lambda>d. Some (snd d)) ds, bk_raw := (bk_raw b)\<lparr>rb_transactions := map fst ds\<rparr>\<rparr>"
    using assms(2) by (auto simp: encodeTransactions_def bind_res_eq_Inr)
  show ?thesis using encoded_list [where P = "tx_coherent env", OF ds tx_encode_again tx_encode_coherent] assms(1)
    by (simp add: b' block_inv_def rest_same_def)
qed

lemma encodeReceipts_inv:
  assumes "block_inv env b" "encodeReceipts env b = Inr b'"
  shows "block_inv env b' \<and> rest_same b b' \<and> rb_transactions (bk_raw b') = rb_transactions (bk_raw b) \<and>
    rb_header (bk_raw b') = rb_header (bk_raw b) \<and>
    list_all2 (receipt_coherent env) (bk_receipts b) (rb_receipts (bk_raw b'))"
proof (cases "bk_receipts b = [] \<or> rb_receipts (bk_raw b) \<noteq> []")
  case True
  then show ?thesis using assms by (auto simp: encodeReceipts_def block_inv_def rest_same_def)
next
  case False
  then obtain ds where ds: "map_res (\<lambda>p. bind_res (deref p) (receipt_encode env)) (bk_receipts b) = Inr ds"
    and b': "b' = b\<lparr>bk_receipts := map (\<lambda>d. Some (snd d)) ds, bk_raw := (bk_raw b)\<lparr>rb_receipts := map fst ds\<rparr>\<rparr>"
    using assms(2) by (auto simp: encodeReceipts_def bind_res_eq_Inr)
  show ?thesis using encoded_list [where P = "receipt_coherent env", OF ds receipt_encode_again receipt_encode_coherent] assms(1)
    by (simp add: b' block_inv_def rest_same_def)
qed

lemma encode_header_part_inv:
  assumes "block_inv env b" "encode_header_part env b = Inr b'"
  shows "block_inv env b' \<and> rest_same b b' \<and> bk_transactions b' = bk_transactions b \<and> bk_receipts b' = bk_receipts b \<and>
    (case bk_header b of
       None \<Rightarrow> rb_header (bk_raw b') = rb_header (bk_raw b)
     | Some h \<Rightarrow> \<exists>h1. Block_Header.encode (pe_ser_header env) h = Inr (rb_header (bk_raw b'), h1))"
  using assms by (auto simp: encode_header_part_def block_inv_def rest_same_def bind_res_eq_Inr split: option.splits)

lemma encode_rest:
  "bk_raw (encodeNonceList (encodeTransactionsMetaData b)) =
    (bk_raw b)\<lparr>rb_transactionsmetadata := map mt_raw (bk_metas b),
      rb_noncelist := (if rb_noncelist (bk_raw b) = [] then map toBigEndian_u256 (bk_nonceList b) else rb_noncelist (bk_raw b))\<rparr>"
  by (cases "bk_raw b") (auto simp: encodeNonceList_def encodeTransactionsMetaData_def clearTransactionMetaDataCache_def Let_def)

lemma block_encode_inv:
  assumes "block_inv env b" "block_encode env b = Inr (data, b')"
  shows "block_inv env b' \<and> (\<exists>raw. pe_ser_block env raw = Some data \<and>
    rb_version raw = rb_version (bk_raw b) \<and> rb_type raw = rb_type (bk_raw b) \<and>
    (case bk_header b of
       None \<Rightarrow> rb_header raw = rb_header (bk_raw b)
     | Some h \<Rightarrow> \<exists>h1. Block_Header.encode (pe_ser_header env) h = Inr (rb_header raw, h1)) \<and>
    list_all2 (tx_coherent env) (bk_transactions b) (rb_transactions raw) \<and>
    list_all2 (receipt_coherent env) (bk_receipts b) (rb_receipts raw) \<and>
    rb_transactionsmetadata raw = map mt_raw (bk_metas b) \<and>
    (rb_noncelist raw = map toBigEndian_u256 (bk_nonceList b) \<or> map (fromBigEndian 256) (rb_noncelist raw) = bk_nonceList b))"
proof -
  obtain b1 b2 b3 where s: "encode_header_part env b = Inr b1" "encodeTransactions env b1 = Inr b2"
    "encodeReceipts env b2 = Inr b3"
    and ser: "pe_ser_block env (bk_raw b') = Some data" and b': "b' = encodeNonceList (encodeTransactionsMetaData b3)"
    using assms(2) by (auto simp: block_encode_def bind_res_eq_Inr Let_def)
  note h = encode_header_part_inv [OF assms(1) s(1)]
  note t = encodeTransactions_inv [OF conjunct1 [OF h] s(2)]
  note r = encodeReceipts_inv [OF conjunct1 [OF t] s(3)]
  have inv3: "block_inv env b3" and rest: "rest_same b b3" using h t r by (simp_all add: rest_same_def)
  define nl where "nl = (if rb_noncelist (bk_raw b) = [] then map toBigEndian_u256 (bk_nonceList b) else rb_noncelist (bk_raw b))"
  have raw: "bk_raw b' = (bk_raw b3)\<lparr>rb_transactionsmetadata := map mt_raw (bk_metas b), rb_noncelist := nl\<rparr>"
    using encode_rest [of b3] rest by (simp add: b' rest_same_def nl_def)
  have nl: "nl = map toBigEndian_u256 (bk_nonceList b) \<or> map (fromBigEndian 256) nl = bk_nonceList b"
    using assms(1) by (auto simp: nl_def block_inv_def)
  have "block_inv env b'" using inv3
    by (auto simp: b' encodeNonceList_def encodeTransactionsMetaData_def clearTransactionMetaDataCache_def Let_def
        block_inv_def)
  moreover have "rb_header (bk_raw b3) = rb_header (bk_raw b1)" "rb_transactions (bk_raw b3) = rb_transactions (bk_raw b2)"
    using t r by simp_all
  ultimately show ?thesis using ser h t r rest nl by (intro conjI exI [of _ "bk_raw b'"]) (simp_all add: raw rest_same_def split: option.splits)
qed

text \<open>Decoding replaces the message, and the objects it leaves in place have no bytes in it.\<close>

lemma from_data_reads:
  assumes "transaction_from_data env d checkSig = Inr t"
  shows "pe_parse_tx env d = Some (tx_raw t)"
proof (cases checkSig)
  case True
  then show ?thesis using assms by (auto simp: checked_Inr tx_decode_Inr)
next
  case False
  then show ?thesis using assms by (auto simp: transaction_from_data_def tx_decode_Inr bind_res_eq_Inr)
qed

lemma decodeTransactions_coherent:
  assumes "decodeTransactions env calculateHash checkSig b = Inr b'"
  shows "\<exists>ts. b' = b\<lparr>bk_transactions := ts\<rparr> \<and>
    (rb_transactions (bk_raw b) = [] \<or> list_all2 (tx_coherent env) ts (rb_transactions (bk_raw b)))"
proof (cases "rb_transactions (bk_raw b) = []")
  case True
  then show ?thesis using assms by (intro exI [of _ "bk_transactions b"]) (simp add: decodeTransactions_def)
next
  case False
  then obtain ts where ts: "b' = b\<lparr>bk_transactions := ts\<rparr>"
    "list_all2 (\<lambda>d q. bind_res (transaction_from_data env d checkSig)
       (\<lambda>t. if calculateHash then bind_res (tx_hash t) (\<lambda>_. Inr (Some t)) else Inr (Some t)) = Inr q) (rb_transactions (bk_raw b)) ts"
    using assms by (auto simp: decodeTransactions_def bind_res_eq_Inr map_res_Inr_iff)
  have "list_all2 (\<lambda>d q. tx_coherent env q d) (rb_transactions (bk_raw b)) ts"
    using ts(2) by (rule list_all2_mono) (auto simp: bind_res_eq_Inr tx_coherent_def dest!: from_data_reads split: if_splits)
  then show ?thesis using ts(1) by (auto simp: list_all2_conv_all_nth)
qed

lemma decode_receipt_tuple_nonempty: "decode_receipt_tuple env d = Inr x \<Longrightarrow> d \<noteq> []"
  by (auto simp: decode_receipt_tuple_def decode_pair_def bind_res_eq_Inr decodeInteger_def [of True 4] hasMore_def)

lemma receipt_from_data_reads:
  assumes "receipt_from_data env d = Inr r"
  shows "pe_parse_receipt env d = Some (re_raw r) \<and> receipt_reads env r"
proof -
  obtain raw where p: "pe_parse_receipt env d = Some raw"
    using assms by (cases "pe_parse_receipt env d") (simp_all add: receipt_from_data_def receipt_decode_def decodePBObject_def)
  then obtain x where "decode_receipt_tuple (pe_scale env) (rr_hashfieldsdata raw) = Inr x"
    using assms by (cases "decode_receipt_tuple (pe_scale env) (rr_hashfieldsdata raw)")
      (simp_all add: receipt_from_data_def receipt_decode_def decodePBObject_def lift_scale_def)
  then obtain st out addr gas logs num rest
    where q: "decode_receipt_tuple (pe_scale env) (rr_hashfieldsdata raw) = Inr ((st, out, addr, gas, logs, num), rest)"
    by (cases x) auto
  show ?thesis using assms p q decode_receipt_tuple_nonempty [OF q]
    by (auto simp: receipt_from_data_def receipt_decode_def decodePBObject_def lift_scale_def receipt_reads_def receipt_tuple_def)
qed

lemma receipt_hash_reads: "receipt_reads env r \<Longrightarrow> receipt_hash env r = Inr (pe_hash env (rr_hashfieldsdata (re_raw r)), r)"
  by (simp add: receipt_reads_def receipt_hash_def receipt_encode_cached_def)

lemma decodeReceipts_coherent:
  assumes "decodeReceipts env calculateHash b = Inr b'"
  shows "\<exists>rs. b' = b\<lparr>bk_receipts := rs\<rparr> \<and>
    (rb_receipts (bk_raw b) = [] \<or> list_all2 (receipt_coherent env) rs (rb_receipts (bk_raw b)))"
proof (cases "rb_receipts (bk_raw b) = []")
  case True
  then show ?thesis using assms by (intro exI [of _ "bk_receipts b"]) (simp add: decodeReceipts_def)
next
  case False
  then obtain rs where rs: "b' = b\<lparr>bk_receipts := rs\<rparr>"
    "list_all2 (\<lambda>d q. bind_res (receipt_from_data env d)
       (\<lambda>r. if calculateHash then bind_res (receipt_hash env r) (\<lambda>(_, r1). Inr (Some r1)) else Inr (Some r)) = Inr q) (rb_receipts (bk_raw b)) rs"
    using assms by (auto simp: decodeReceipts_def bind_res_eq_Inr map_res_Inr_iff)
  have "list_all2 (\<lambda>d q. receipt_coherent env q d) (rb_receipts (bk_raw b)) rs"
    using rs(2) by (rule list_all2_mono)
      (auto simp: bind_res_eq_Inr receipt_coherent_def receipt_hash_reads dest!: receipt_from_data_reads split: if_splits)
  then show ?thesis using rs(1) by (auto simp: list_all2_conv_all_nth)
qed

lemma decode_header_part_rest:
  "decode_header_part env b = Inr b' \<Longrightarrow> \<exists>h. b' = b\<lparr>bk_header := h\<rparr>"
  by (cases "rb_header (bk_raw b) = []") (auto simp: decode_header_part_def bind_res_eq_Inr intro: exI [of _ "bk_header b"])

lemma block_decode_inv:
  assumes "block_decode env calculateHash checkSig b data = Inr b'"
  shows "block_inv env b'"
proof -
  obtain raw b1 b2 b3 where s: "decode_header_part env (b\<lparr>bk_raw := raw\<rparr>) = Inr b1"
    "decodeTransactions env calculateHash checkSig b1 = Inr b2" "decodeReceipts env calculateHash b2 = Inr b3"
    and b': "b' = decodeNonceList (decodeTransactionsMetaData b3)"
    using assms by (auto simp: block_decode_def bind_res_eq_Inr)
  obtain h ts rs where b3: "b1 = b\<lparr>bk_raw := raw, bk_header := h\<rparr>" "b2 = b1\<lparr>bk_transactions := ts\<rparr>" "b3 = b2\<lparr>bk_receipts := rs\<rparr>"
    and ok: "rb_transactions raw = [] \<or> list_all2 (tx_coherent env) ts (rb_transactions raw)"
      "rb_receipts raw = [] \<or> list_all2 (receipt_coherent env) rs (rb_receipts raw)"
    using decode_header_part_rest [OF s(1)] decodeTransactions_coherent [OF s(2)] decodeReceipts_coherent [OF s(3)] by auto
  then show ?thesis by (auto simp: b' block_inv_def decodeNonceList_def decodeTransactionsMetaData_def)
qed

section \<open>Operations on blocks\<close>

datatype block_op =
  BVersion int | BType int | BHeader "block_header option" | BTransactions "transaction option list"
| BTransaction nat "transaction option" | BAppendTransaction "transaction option" | BReceipts "receipt option list"
| BReceipt nat "receipt option" | BAppendReceipt "receipt option" | BAppendMeta tx_meta_obj | BNonces "nat list" | BEncode
| BDecode bool bool bytes

fun block_step :: "'k proto_env \<Rightarrow> block_op \<Rightarrow> block_obj \<Rightarrow> block_obj \<Rightarrow> bool" where
  "block_step env (BVersion v) b b' = (b' = blk_setVersion v b)"
| "block_step env (BType v) b b' = (b' = setBlockType v b)"
| "block_step env (BHeader h) b b' = (b' = setBlockHeader h b)"
| "block_step env (BTransactions ts) b b' = (b' = setTransactions ts b)"
| "block_step env (BTransaction i t) b b' = (b' = setTransaction i t b)"
| "block_step env (BAppendTransaction t) b b' = (b' = appendTransaction t b)"
| "block_step env (BReceipts rs) b b' = (b' = setReceipts rs b)"
| "block_step env (BReceipt i r) b b' = (b' = setReceipt i r b)"
| "block_step env (BAppendReceipt r) b b' = (b' = appendReceipt r b)"
| "block_step env (BAppendMeta m) b b' = (b' = appendTransactionMetaData m b)"
| "block_step env (BNonces ns) b b' = (b' = setNonceList ns b)"
| "block_step env BEncode b b' = (\<exists>data. block_encode env b = Inr (data, b'))"
| "block_step env (BDecode calculateHash checkSig data) b b' = (block_decode env calculateHash checkSig b data = Inr b')"

interpretation blk: transition_system "\<lambda>b. b = new_block" "block_step env" "block_inv env"
proof
  show "block_inv env b" if "b = new_block" for b
    using that by (simp add: block_inv_def new_block_def)
  show "block_inv env b'" if inv: "block_inv env b" and st: "block_step env l b b'" for l b b'
  proof (cases l)
    case BEncode
    then show ?thesis using st block_encode_inv [OF inv] by auto
  next
    case (BDecode calculateHash checkSig data)
    then show ?thesis using st block_decode_inv by simp
  qed (use inv st in \<open>simp_all add: block_inv_def blk_setVersion_def setBlockType_def setBlockHeader_def
      setTransactions_def setTransaction_def appendTransaction_def clearTransactionsCache_def setReceipts_def
      setReceipt_def appendReceipt_def clearReceiptsCache_def appendTransactionMetaData_def setNonceList_def\<close>)
qed

section \<open>Round trip\<close>

text \<open>
  A transaction whose message and cache are current, and whose signature, if it is to be
  checked, belongs to its hash.
\<close>

definition tx_wf :: "'k proto_env \<Rightarrow> bool \<Rightarrow> transaction \<Rightarrow> bool" where
  "tx_wf env checkSig t =
     (pe_parse_fields env (rt_hashfieldsdata (tx_raw t)) = Some (tx_hashFields t) \<and>
      tx_nonce t = fromBigEndian 256 (tf_nonce (tx_hashFields t)) \<and>
      (tx_dataCache t = [] \<or> pe_parse_tx env (tx_dataCache t) = Some (tx_raw t)) \<and>
      (checkSig \<longrightarrow> rt_hashfieldshash (tx_raw t) = pe_hash env (rt_hashfieldsdata (tx_raw t)) \<and>
         pe_recover env (rt_hashfieldshash (tx_raw t)) (rt_signaturedata (tx_raw t)) \<noteq> None) \<and>
      length (rt_hashfieldshash (tx_raw t)) = 32)"

definition tx_same :: "transaction option \<Rightarrow> transaction option \<Rightarrow> bool" where
  "tx_same p q = (\<exists>t t'. p = Some t \<and> q = Some t' \<and> tx_raw t' = tx_raw t \<and> tx_hashFields t' = tx_hashFields t \<and>
     tx_nonce t' = tx_nonce t)"

text \<open>
  The version of a receipt on the wire: the first encoding of the hash fields overwrites
  the version of the message with the member \<^verbatim>\<open>m_version\<close>, which no constructor sets.
\<close>

definition wire_version :: "receipt \<Rightarrow> int" where
  "wire_version r = (if rr_hashfieldsdata (re_raw r) = [] then re_version r else rr_version (re_raw r))"

definition receipt_same :: "receipt option \<Rightarrow> receipt option \<Rightarrow> bool" where
  "receipt_same p q =
     (\<exists>r r'. p = Some r \<and> q = Some r' \<and> receipt_tuple r' = receipt_tuple r \<and> rr_version (re_raw r') = wire_version r)"

text \<open>A receipt whose message is current: it holds nothing, the encoding of the fields, or bytes that decode to them.\<close>

definition receipt_current :: "'k proto_env \<Rightarrow> receipt \<Rightarrow> bool" where
  "receipt_current env r = (receipt_inv r \<and> receipt_ok (pe_scale env) (receipt_tuple r) \<or> receipt_reads env r)"

definition header_current :: "scale_env \<Rightarrow> block_header \<Rightarrow> bool" where
  "header_current scale h =
     (header_inv h \<and> fields_ok scale (m_fields h) \<or>
      pbh_hashfieldsdata (m_blockHeader h) \<noteq> [] \<and> reads_back scale (pbh_hashfieldsdata (m_blockHeader h)) (m_fields h) \<and>
      (pbh_signaturelist (m_blockHeader h) = [] \<or> pbh_signaturelist (m_blockHeader h) = pb_signatures (m_signatureList h)))"

definition header_same :: "block_header option \<Rightarrow> block_header option \<Rightarrow> bool" where
  "header_same p q =
     (case p of
        None \<Rightarrow> q = None
      | Some h \<Rightarrow> \<exists>h'. q = Some h' \<and> m_fields h' = m_fields h \<and> m_signatureList h' = m_signatureList h \<and>
          pbh_version (m_blockHeader h') = pbh_version (m_blockHeader h))"

text \<open>The laws of the generated message classes.\<close>

definition env_lawful :: "'k proto_env \<Rightarrow> bool" where
  "env_lawful env =
     (pb_lawful (pe_ser_fields env) (pe_parse_fields env) (tx_hashFields empty_transaction) \<and>
      pb_lawful (pe_ser_tx env) (pe_parse_tx env) (tx_raw empty_transaction) \<and>
      pb_lawful (pe_ser_receipt env) (pe_parse_receipt env) \<lparr>rr_version = 0, rr_hashfieldsdata = []\<rparr> \<and>
      pb_lawful (pe_ser_header env) (pe_parse_header env) (m_blockHeader (new_block_header 0)) \<and>
      pb_lawful (pe_ser_block env) (pe_parse_block env) (bk_raw new_block))"

lemma tx_round:
  assumes "env_lawful env" "tx_wf env checkSig t" "tx_coherent env (Some t) d"
  shows "\<exists>t'. transaction_from_data env d checkSig = Inr t' \<and> tx_same (Some t) (Some t') \<and> is_ok (tx_hash t')"
proof -
  have law: "pb_lawful (pe_ser_tx env) (pe_parse_tx env) (tx_raw empty_transaction)" using assms(1) by (simp add: env_lawful_def)
  have p: "pe_parse_tx env d = Some (tx_raw t)"
    using assms(2,3) pb_lawfulD [OF law]
    by (auto simp: tx_coherent_def tx_encode_def tx_wf_def bind_res_eq_Inr split: if_splits)
  have f: "pe_parse_fields env (rt_hashfieldsdata (tx_raw t)) = Some (tx_hashFields t)"
    using assms(2) by (simp add: tx_wf_def)
  define t0 where "t0 = empty_transaction\<lparr>tx_dataCache := d, tx_raw := tx_raw t, tx_hashFields := tx_hashFields t,
    tx_nonce := tx_nonce t\<rparr>"
  have dec: "tx_decode env empty_transaction d = Inr t0"
    using p f assms(2) by (simp add: tx_decode_Inr t0_def tx_wf_def)
  show ?thesis
  proof (cases checkSig)
    case True
    then obtain pub where "pe_recover env (rt_hashfieldshash (tx_raw t)) (rt_signaturedata (tx_raw t)) = Some pub"
      using assms(2) by (auto simp: tx_wf_def)
    then have "transaction_from_data env d True = Inr (t0\<lparr>tx_sender := calculateAddress env pub\<rparr>)"
      using dec True assms(2) by (auto simp: checked_Inr tx_wf_def t0_def tx_hash_def)
    then show ?thesis using True assms(2) by (auto simp: tx_same_def t0_def tx_hash_def tx_wf_def)
  next
    case False
    then show ?thesis using dec assms(2) by (simp add: transaction_from_data_def tx_same_def t0_def tx_hash_def tx_wf_def)
  qed
qed

lemma txs_round:
  assumes "env_lawful env" "\<forall>t. Some t \<in> set ps \<longrightarrow> tx_wf env checkSig t" "list_all2 (tx_coherent env) ps ds"
  shows "\<exists>qs. map_res (\<lambda>d. bind_res (transaction_from_data env d checkSig)
      (\<lambda>t. if calc then bind_res (tx_hash t) (\<lambda>_. Inr (Some t)) else Inr (Some t))) ds = Inr qs \<and> list_all2 tx_same ps qs"
  using assms(3,2)
proof (induction rule: list_all2_induct)
  case (Cons p ps d ds)
  then obtain t where t: "p = Some t" "tx_coherent env (Some t) d" "tx_wf env checkSig t"
    by (auto simp: tx_coherent_def)
  obtain t' where t': "transaction_from_data env d checkSig = Inr t'" "tx_same (Some t) (Some t')" "is_ok (tx_hash t')"
    using tx_round [OF assms(1) t(3,2)] by blast
  have ok: "\<exists>h. tx_hash t' = Inr h" using t'(3) by (simp add: is_ok_def split: sum.splits)
  obtain qs where "map_res (\<lambda>d. bind_res (transaction_from_data env d checkSig)
      (\<lambda>t. if calc then bind_res (tx_hash t) (\<lambda>_. Inr (Some t)) else Inr (Some t))) ds = Inr qs" "list_all2 tx_same ps qs"
    using Cons by auto
  then show ?case using t(1) t' ok by auto
qed simp

lemma receipt_current_encoded:
  assumes "receipt_current env r" "receipt_encodeHashFields r = Inr r1"
  shows "receipt_reads env r1 \<and> receipt_tuple r1 = receipt_tuple r \<and> rr_version (re_raw r1) = wire_version r"
  using assms(1) unfolding receipt_current_def
proof
  assume r: "receipt_inv r \<and> receipt_ok (pe_scale env) (receipt_tuple r)"
  note i = receipt_encodeHashFields_inv [OF conjunct1 [OF r] assms(2)]
  have "decode_receipt_tuple (pe_scale env) (rr_hashfieldsdata (re_raw r1)) = Inr (receipt_tuple r, [])"
    using receipt_codec.dec_enc [OF conjunct2 [OF r], of "rr_hashfieldsdata (re_raw r1)" "[]"] i by simp
  moreover have "rr_version (re_raw r1) = wire_version r"
    using assms(2) by (auto simp: receipt_encodeHashFields_def wire_version_def bind_res_eq_Inr split: if_splits)
  ultimately show ?thesis using i by (auto simp: receipt_reads_def dest: decode_receipt_tuple_nonempty)
next
  assume "receipt_reads env r"
  then show ?thesis using assms(2) by (auto simp: receipt_reads_def receipt_encodeHashFields_def wire_version_def)
qed

lemma receipt_round:
  assumes "env_lawful env" "receipt_current env r" "receipt_coherent env (Some r) d"
  shows "\<exists>r'. receipt_from_data env d = Inr r' \<and> receipt_reads env r' \<and> receipt_same (Some r) (Some r')"
proof -
  have law: "pb_lawful (pe_ser_receipt env) (pe_parse_receipt env) \<lparr>rr_version = 0, rr_hashfieldsdata = []\<rparr>"
    using assms(1) by (simp add: env_lawful_def)
  obtain r1 where r1: "pe_parse_receipt env d = Some (re_raw r1)" "receipt_reads env r1" "receipt_tuple r1 = receipt_tuple r"
    "rr_version (re_raw r1) = wire_version r"
  proof (cases "\<exists>r1. receipt_encode env r = Inr (d, r1)")
    case True
    then obtain r1 where "receipt_encodeHashFields r = Inr r1" "pe_ser_receipt env (re_raw r1) = Some d"
      by (auto simp: receipt_encode_def bind_res_eq_Inr)
    then show ?thesis using that receipt_current_encoded [OF assms(2)] pb_lawfulD [OF law] by blast
  next
    case False
    then have "pe_parse_receipt env d = Some (re_raw r)" "receipt_reads env r" using assms(3) by (auto simp: receipt_coherent_def)
    then show ?thesis using that [of r] by (simp add: receipt_reads_def wire_version_def)
  qed
  then show ?thesis
    by (auto simp: receipt_from_data_def receipt_decode_def decodePBObject_def bind_res_eq_Inr lift_scale_def receipt_reads_def
        receipt_tuple_def receipt_same_def)
qed

lemma receipts_round:
  assumes "env_lawful env" "\<forall>r. Some r \<in> set ps \<longrightarrow> receipt_current env r"
    and "list_all2 (receipt_coherent env) ps ds"
  shows "\<exists>qs. map_res (\<lambda>d. bind_res (receipt_from_data env d)
      (\<lambda>r. if calc then bind_res (receipt_hash env r) (\<lambda>(_, r1). Inr (Some r1)) else Inr (Some r))) ds = Inr qs \<and>
    list_all2 receipt_same ps qs"
  using assms(3,2)
proof (induction rule: list_all2_induct)
  case (Cons p ps d ds)
  then obtain r where r: "p = Some r" "receipt_coherent env (Some r) d" "receipt_current env r"
    by (auto simp: receipt_coherent_def)
  obtain r' where r': "receipt_from_data env d = Inr r'" "receipt_reads env r'" "receipt_same (Some r) (Some r')"
    using receipt_round [OF assms(1) r(3,2)] by blast
  obtain qs where "map_res (\<lambda>d. bind_res (receipt_from_data env d)
      (\<lambda>r. if calc then bind_res (receipt_hash env r) (\<lambda>(_, r1). Inr (Some r1)) else Inr (Some r))) ds = Inr qs"
    "list_all2 receipt_same ps qs"
    using Cons by auto
  then show ?case using r(1) r' by (auto simp: receipt_hash_reads)
qed simp

text \<open>What the objects of a block have to satisfy to survive the wire.\<close>

definition block_parts_ok :: "'k proto_env \<Rightarrow> bool \<Rightarrow> block_obj \<Rightarrow> bool" where
  "block_parts_ok env checkSig b =
     ((\<forall>h. bk_header b = Some h \<longrightarrow> header_current (pe_scale env) h) \<and>
      (\<forall>t. Some t \<in> set (bk_transactions b) \<longrightarrow> tx_wf env checkSig t) \<and>
      (\<forall>r. Some r \<in> set (bk_receipts b) \<longrightarrow> receipt_current env r) \<and>
      (\<forall>n \<in> set (bk_nonceList b). n < 2 ^ 256))"

lemma header_current_round:
  assumes "pb_lawful ser parse (m_blockHeader (new_block_header 0))" "header_current scale h"
    "Block_Header.encode ser h = Inr (data, h1)"
  shows "data \<noteq> [] \<and> (\<exists>h2. Block_Header.decode parse scale (new_block_header k) data = Inr h2 \<and>
    header_same (Some h) (Some h2))"
proof -
  have law: "\<forall>pb data. ser pb = Some data \<longrightarrow> parse data = Some pb" using assms(1) by (simp add: pb_lawful_def)
  from assms(2) show ?thesis unfolding header_current_def
  proof
    assume h: "header_inv h \<and> fields_ok scale (m_fields h)"
    note i = encode_inv [OF conjunct1 [OF h] assms(3)]
    have "data \<noteq> []"
      using pb_lawful_default [OF assms(1), of "m_blockHeader h1"] i encode_hash_fields_nonempty
      by (fastforce simp: new_block_header_def)
    then show ?thesis
      using header_decode_encode [OF conjunct1 [OF h] conjunct2 [OF h] law assms(3), of k] i by (auto simp: header_same_def)
  next
    assume h: "pbh_hashfieldsdata (m_blockHeader h) \<noteq> [] \<and> reads_back scale (pbh_hashfieldsdata (m_blockHeader h)) (m_fields h) \<and>
      (pbh_signaturelist (m_blockHeader h) = [] \<or> pbh_signaturelist (m_blockHeader h) = pb_signatures (m_signatureList h))"
    then have h1: "h1 = encodeSignatureList h" "ser (m_blockHeader h1) = Some data"
      using assms(3) by (auto simp: encode_def encodeHashFields_def Let_def bind_res_eq_Inr split: option.splits)
    have m: "pbh_hashfieldsdata (m_blockHeader h1) = pbh_hashfieldsdata (m_blockHeader h)"
      "pbh_version (m_blockHeader h1) = pbh_version (m_blockHeader h)"
      "pbh_signaturelist (m_blockHeader h1) = pb_signatures (m_signatureList h)"
      using h by (auto simp: h1(1) encodeSignatureList_def pb_signatures_def)
    have sigs: "map (\<lambda>(i, d). \<lparr>sig_index = i, sig_signature = d\<rparr>) (pb_signatures ss) = ss" for ss
      by (simp add: pb_signatures_def comp_def map_idI)
    have "data \<noteq> []" using pb_lawful_default [OF assms(1), of "m_blockHeader h1"] h1(2) h m by (auto simp: new_block_header_def)
    then show ?thesis using h law h1(2) m sigs
      by (auto simp: decode_def lift_scale_def reads_back_def header_same_def new_block_header_def)
  qed
qed

lemma header_part_round:
  assumes "env_lawful env" "\<forall>h. bk_header b = Some h \<longrightarrow> header_current (pe_scale env) h"
    and "case bk_header b of None \<Rightarrow> rb_header raw = []
       | Some h \<Rightarrow> \<exists>h1. Block_Header.encode (pe_ser_header env) h = Inr (rb_header raw, h1)"
  shows "\<exists>b1. decode_header_part env (new_block\<lparr>bk_raw := raw\<rparr>) = Inr b1 \<and> header_same (bk_header b) (bk_header b1) \<and>
    b1 = new_block\<lparr>bk_raw := raw, bk_header := bk_header b1\<rparr>"
proof (cases "bk_header b")
  case None
  then show ?thesis using assms(3) by (simp add: decode_header_part_def header_same_def new_block_def)
next
  case (Some h)
  then obtain h1 where e: "Block_Header.encode (pe_ser_header env) h = Inr (rb_header raw, h1)"
    and h: "header_current (pe_scale env) h" using assms(2,3) by auto
  have law: "pb_lawful (pe_ser_header env) (pe_parse_header env) (m_blockHeader (new_block_header 0))"
    using assms(1) by (simp add: env_lawful_def)
  from header_current_round [OF law h e, of "pe_uninit env"] show ?thesis
    using Some by (auto simp: decode_header_part_def new_block_def)
qed

lemma decodeTransactions_round:
  assumes "env_lawful env" "\<forall>t. Some t \<in> set txs \<longrightarrow> tx_wf env checkSig t"
    "list_all2 (tx_coherent env) txs (rb_transactions (bk_raw b))" "bk_transactions b = []"
  shows "\<exists>ts. decodeTransactions env calculateHash checkSig b = Inr (b\<lparr>bk_transactions := ts\<rparr>) \<and> list_all2 tx_same txs ts"
proof (cases "rb_transactions (bk_raw b) = []")
  case True
  then show ?thesis using assms(3,4) by (intro exI [of _ "[]"]) (simp add: decodeTransactions_def)
next
  case False
  then show ?thesis using txs_round [OF assms(1-3), of calculateHash] by (auto simp: decodeTransactions_def)
qed

lemma decodeReceipts_round:
  assumes "env_lawful env" "\<forall>r. Some r \<in> set receipts \<longrightarrow> receipt_current env r"
    "list_all2 (receipt_coherent env) receipts (rb_receipts (bk_raw b))" "bk_receipts b = []"
  shows "\<exists>rs. decodeReceipts env calculateHash b = Inr (b\<lparr>bk_receipts := rs\<rparr>) \<and> list_all2 receipt_same receipts rs"
proof (cases "rb_receipts (bk_raw b) = []")
  case True
  then show ?thesis using assms(3,4) by (intro exI [of _ "[]"]) (simp add: decodeReceipts_def)
next
  case False
  then show ?thesis using receipts_round [OF assms(1-3), of calculateHash] by (auto simp: decodeReceipts_def)
qed

lemma block_decode_encode:
  assumes "env_lawful env" "run (block_step env) new_block ops b" "block_parts_ok env checkSig b"
    and "bk_header b = None \<longrightarrow> rb_header (bk_raw b) = []" "block_encode env b = Inr (data, b0)"
  shows "\<exists>b'. block_decode env calculateHash checkSig new_block data = Inr b' \<and>
    header_same (bk_header b) (bk_header b') \<and> list_all2 tx_same (bk_transactions b) (bk_transactions b') \<and>
    list_all2 receipt_same (bk_receipts b) (bk_receipts b') \<and>
    bk_metas b' = map (meta_of_raw \<circ> mt_raw) (bk_metas b) \<and> bk_nonceList b' = bk_nonceList b \<and> rb_version (bk_raw b') = rb_version (bk_raw b) \<and>
    rb_type (bk_raw b') = rb_type (bk_raw b)"
proof -
  have inv: "block_inv env b" using blk.reachable_inv [OF refl assms(2)] .
  obtain raw where ser: "pe_ser_block env raw = Some data" and vt: "rb_version raw = rb_version (bk_raw b)" "rb_type raw = rb_type (bk_raw b)"
    and hd: "case bk_header b of None \<Rightarrow> rb_header raw = []
       | Some h \<Rightarrow> \<exists>h1. Block_Header.encode (pe_ser_header env) h = Inr (rb_header raw, h1)"
    and tx: "list_all2 (tx_coherent env) (bk_transactions b) (rb_transactions raw)"
    and re: "list_all2 (receipt_coherent env) (bk_receipts b) (rb_receipts raw)"
    and me: "rb_transactionsmetadata raw = map mt_raw (bk_metas b)"
    and no: "rb_noncelist raw = map toBigEndian_u256 (bk_nonceList b) \<or> map (fromBigEndian 256) (rb_noncelist raw) = bk_nonceList b"
    using block_encode_inv [OF inv assms(5)] assms(4) by (auto split: option.splits)
  have p: "pe_parse_block env data = Some raw" using assms(1) ser by (auto simp: env_lawful_def intro: pb_lawfulD)
  have okh: "\<forall>h. bk_header b = Some h \<longrightarrow> header_current (pe_scale env) h"
    and okt: "\<forall>t. Some t \<in> set (bk_transactions b) \<longrightarrow> tx_wf env checkSig t"
    and okr: "\<forall>r. Some r \<in> set (bk_receipts b) \<longrightarrow> receipt_current env r"
    and okn: "\<forall>n \<in> set (bk_nonceList b). n < 2 ^ 256"
    using assms(3) by (simp_all add: block_parts_ok_def)
  obtain b1 where b1: "decode_header_part env (new_block\<lparr>bk_raw := raw\<rparr>) = Inr b1" "header_same (bk_header b) (bk_header b1)"
    "b1 = new_block\<lparr>bk_raw := raw, bk_header := bk_header b1\<rparr>" using header_part_round [OF assms(1) okh hd] by blast
  have f1: "bk_raw b1 = raw" "bk_transactions b1 = []" "bk_receipts b1 = []" "bk_metas b1 = []" "bk_nonceList b1 = []"
    by (subst b1(3), simp add: new_block_def)+
  obtain ts where ts: "decodeTransactions env calculateHash checkSig b1 = Inr (b1\<lparr>bk_transactions := ts\<rparr>)"
    "list_all2 tx_same (bk_transactions b) ts"
    using decodeTransactions_round [OF assms(1) okt, of b1 calculateHash] tx f1 by auto
  obtain rs where rs: "decodeReceipts env calculateHash (b1\<lparr>bk_transactions := ts\<rparr>) =
      Inr (b1\<lparr>bk_transactions := ts, bk_receipts := rs\<rparr>)" "list_all2 receipt_same (bk_receipts b) rs"
    using decodeReceipts_round [OF assms(1) okr, of "b1\<lparr>bk_transactions := ts\<rparr>" calculateHash] re f1 by auto
  have "map (fromBigEndian 256 \<circ> toBigEndian_u256) (bk_nonceList b) = bk_nonceList b"
    using okn by (intro map_idI) (simp add: toBigEndian_u256_def fromBigEndian_eq take_bit_eq_mod)
  then have nl: "map (fromBigEndian 256) (rb_noncelist raw) = bk_nonceList b" using no by auto
  have "block_decode env calculateHash checkSig new_block data =
      Inr (decodeNonceList (decodeTransactionsMetaData (b1\<lparr>bk_transactions := ts, bk_receipts := rs\<rparr>)))"
    by (simp add: block_decode_def decodePBObject_def p b1(1) ts(1) rs(1))
  then show ?thesis
    using b1(2) ts(2) rs(2) vt nl
    by (auto simp: decodeNonceList_def decodeTransactionsMetaData_def f1 me)
qed


text \<open>
  In the excluded case the older header survives: the encoding after the reset still
  carries it, and a node that decodes the block sees it.
\<close>

lemma null_header_keeps_old:
  assumes "env_lawful env" "bk_header b = Some h" "header_current (pe_scale env) h" "block_encode env b = Inr (d0, b0)"
    and "block_encode env (setBlockHeader None b0) = Inr (data, b1)" "block_decode env calculateHash checkSig new_block data = Inr b'"
  shows "header_same (Some h) (bk_header b')"
proof -
  obtain c1 c2 c3 where c: "encode_header_part env b = Inr c1" "encodeTransactions env c1 = Inr c2" "encodeReceipts env c2 = Inr c3"
    "b0 = encodeNonceList (encodeTransactionsMetaData c3)"
    using assms(4) by (auto simp: block_encode_def bind_res_eq_Inr Let_def)
  have keep: "rb_header (bk_raw y) = rb_header (bk_raw x)"
    if "encodeTransactions env x = Inr y \<or> encodeReceipts env x = Inr y \<or> y = encodeNonceList (encodeTransactionsMetaData x)" for x y
    using that by (auto simp: encodeTransactions_def encodeReceipts_def bind_res_eq_Inr encode_rest split: if_splits)
  obtain h1 where e: "Block_Header.encode (pe_ser_header env) h = Inr (rb_header (bk_raw c1), h1)"
    using c(1) assms(2) by (auto simp: encode_header_part_def bind_res_eq_Inr)
  obtain e1 e2 where s: "encodeTransactions env (setBlockHeader None b0) = Inr e1" "encodeReceipts env e1 = Inr e2"
    "b1 = encodeNonceList (encodeTransactionsMetaData e2)" "pe_ser_block env (bk_raw b1) = Some data"
    using assms(5) by (auto simp: block_encode_def encode_header_part_def setBlockHeader_def bind_res_eq_Inr Let_def)
  have hd: "rb_header (bk_raw b1) = rb_header (bk_raw c1)"
    using keep [of c1 c2] keep [of c2 c3] keep [of c3 b0] keep [of "setBlockHeader None b0" e1] keep [of e1 e2] keep [of e2 b1] c s
    by (simp add: setBlockHeader_def)
  have p: "pe_parse_block env data = Some (bk_raw b1)" using assms(1) s(4) by (auto simp: env_lawful_def intro: pb_lawfulD)
  have law: "pb_lawful (pe_ser_header env) (pe_parse_header env) (m_blockHeader (new_block_header 0))"
    using assms(1) by (simp add: env_lawful_def)
  obtain h2 where h2: "rb_header (bk_raw c1) \<noteq> []" "Block_Header.decode (pe_parse_header env) (pe_scale env)
      (new_block_header (pe_uninit env)) (rb_header (bk_raw c1)) = Inr h2" "header_same (Some h) (Some h2)"
    using header_current_round [OF law assms(3) e, of "pe_uninit env"] by blast
  then have "decode_header_part env (new_block\<lparr>bk_raw := bk_raw b1\<rparr>) = Inr (new_block\<lparr>bk_raw := bk_raw b1, bk_header := Some h2\<rparr>)"
    by (simp add: decode_header_part_def hd)
  then obtain f1 f2 where f: "decodeTransactions env calculateHash checkSig (new_block\<lparr>bk_raw := bk_raw b1, bk_header := Some h2\<rparr>) = Inr f1"
    "decodeReceipts env calculateHash f1 = Inr f2" "b' = decodeNonceList (decodeTransactionsMetaData f2)"
    using assms(6) p by (auto simp: block_decode_def decodePBObject_def bind_res_eq_Inr)
  have "bk_header b' = Some h2"
    using decodeTransactions_coherent [OF f(1)] decodeReceipts_coherent [OF f(2)]
    by (auto simp: f(3) decodeNonceList_def decodeTransactionsMetaData_def)
  with h2(3) show ?thesis by simp
qed

definition sample_tx :: transaction where
  "sample_tx = empty_transaction\<lparr>tx_raw := sample_raw, tx_hashFields := sample_fields, tx_nonce := 5\<rparr>"

definition sample_raw_block :: raw_block where
  "sample_raw_block = (bk_raw new_block)\<lparr>rb_transactions := [[2]], rb_noncelist := [toBigEndian_u256 5]\<rparr>"

definition block_env :: "unit proto_env" where
  "block_env = sample_env\<lparr>pe_ser_block := one_ser sample_raw_block [8],
     pe_parse_block := one_parse sample_raw_block [8] (bk_raw new_block)\<rparr>"

lemma one_block_lawful:
  "env_lawful (sample_env\<lparr>pe_ser_block := one_ser raw [8], pe_parse_block := one_parse raw [8] (bk_raw new_block)\<rparr>)"
proof -
  have h: "pb_lawful sample_ser sample_parse (m_blockHeader (new_block_header 0))"
    by (auto simp: pb_lawful_def sample_ser_def sample_parse_def new_block_header_def split: if_splits)
  have r: "pb_lawful (\<lambda>r. if rr_version r = 0 then Some (rr_hashfieldsdata r) else None)
      (\<lambda>b. Some \<lparr>rr_version = 0, rr_hashfieldsdata = b\<rparr>) \<lparr>rr_version = 0, rr_hashfieldsdata = []\<rparr>"
    by (auto simp: pb_lawful_def)
  show ?thesis using h r by (simp add: env_lawful_def sample_env_def one_lawful)
qed

lemma block_env_lawful: "env_lawful block_env"
  unfolding block_env_def by (rule one_block_lawful)


section \<open>Roots\<close>

text \<open>The leaves of the tree over a list of hashes.\<close>

definition root_leaves :: "bytes list \<Rightarrow> bytes list" where
  "root_leaves hs = map (\<lambda>i. le_bytes 8 (nat (int i mod 256 ^ 8)) @ hs ! i) [0..<length hs]"

lemma encodeToCalculateRoot_leaves:
  "(\<And>i. i < length hs \<Longrightarrow> f i = Inr (hs ! i)) \<Longrightarrow> encodeToCalculateRoot (length hs) f = Inr (root_leaves hs)"
  unfolding encodeToCalculateRoot_def root_leaves_def
  by (intro map_res_map) (simp add: encodeInteger_def lift_scale_def)

lemma transaction_root_leaves:
  assumes "bk_transactions b = map Some ts" "ts \<noteq> []" "map tx_hash ts = map Inr hs"
  shows "calculateTransactionRoot env b = Inr (calculateMerkleProofRoot (pe_hash env) (root_leaves hs))"
proof -
  have l: "length ts = length hs" using assms(3) by (metis length_map)
  have "tx_hash (ts ! i) = Inr (hs ! i)" if "i < length hs" for i using assms(3) l that by (metis nth_map)
  then show ?thesis
    using encodeToCalculateRoot_leaves [of hs "\<lambda>i. bind_res (block_transaction i b) (\<lambda>p. bind_res (deref p) tx_hash)"] assms(1,2) l
    by (simp add: calculateTransactionRoot_def block_transaction_def deref_def)
qed

lemma root_leaves_differ:
  assumes "length xs = length ys" "\<forall>x \<in> set xs. length x = n" "\<forall>y \<in> set ys. length y = n" "xs \<noteq> ys"
  shows "list_all2 (\<lambda>a b. length a = length b) (root_leaves xs) (root_leaves ys) \<and> root_leaves xs \<noteq> root_leaves ys"
proof -
  obtain i where i: "i < length xs" "xs ! i \<noteq> ys ! i" using assms(1,4) nth_equalityI by blast
  have "root_leaves xs ! i \<noteq> root_leaves ys ! i" using i assms(1) by (simp add: root_leaves_def)
  moreover have "list_all2 (\<lambda>a b. length a = length b) (root_leaves xs) (root_leaves ys)"
    using assms(1-3) by (simp add: root_leaves_def list_all2_conv_all_nth)
  ultimately show ?thesis by auto
qed

lemma tx_hashes_length: "map tx_hash ts = map Inr hs \<Longrightarrow> \<forall>h \<in> set hs. length h = 32"
proof (induction ts arbitrary: hs)
  case (Cons t ts)
  then show ?case by (cases hs) (auto simp: tx_hash_def split: if_splits)
qed simp

text \<open>Equal roots over equally many hashes give equal hashes or a collision.\<close>

lemma root_agreement:
  assumes "\<forall>b. length (hash b) = 32" "length hs1 = length hs2"
    and "\<forall>h \<in> set hs1. length h = 32" "\<forall>h \<in> set hs2. length h = 32"
    and "calculateMerkleProofRoot hash (root_leaves hs1) = calculateMerkleProofRoot hash (root_leaves hs2)"
  shows "hs1 = hs2 \<or> (\<exists>x \<in> set (merkle_inputs hash (root_leaves hs1)).
    \<exists>y \<in> set (merkle_inputs hash (root_leaves hs2)). x \<noteq> y \<and> hash x = hash y)"
proof (cases "hs1 = hs2")
  case False
  note d = root_leaves_differ [OF assms(2-4) False]
  show ?thesis using merkle_collision [OF assms(1) conjunct1 [OF d] conjunct2 [OF d] assms(5)] by blast
qed simp

text \<open>
  C9: among blocks with the same number of transactions the transaction root commits to the
  transactions: two of them with the same root but different transaction hashes exhibit a
  collision of the hash among the strings hashed for the two roots.  The number is not
  committed to, since the tree does not separate leaves from inner nodes.
\<close>

theorem transaction_root_commits:
  assumes "\<forall>b. length (pe_hash env b) = 32"
    and "bk_transactions b1 = map Some ts1" "bk_transactions b2 = map Some ts2" "length ts1 = length ts2"
    and "map tx_hash ts1 = map Inr hs1" "map tx_hash ts2 = map Inr hs2" "hs1 \<noteq> hs2"
    and "calculateTransactionRoot env b1 = calculateTransactionRoot env b2"
  shows "\<exists>x \<in> set (merkle_inputs (pe_hash env) (root_leaves hs1)).
    \<exists>y \<in> set (merkle_inputs (pe_hash env) (root_leaves hs2)). x \<noteq> y \<and> pe_hash env x = pe_hash env y"
proof -
  have ne: "ts1 \<noteq> []" "ts2 \<noteq> []" using assms(4-7) by auto
  have l: "length hs1 = length hs2" using assms(4-6) by (metis length_map)
  have "calculateMerkleProofRoot (pe_hash env) (root_leaves hs1) = calculateMerkleProofRoot (pe_hash env) (root_leaves hs2)"
    using transaction_root_leaves [OF assms(2) ne(1) assms(5), of env]
      transaction_root_leaves [OF assms(3) ne(2) assms(6), of env] assms(8) by simp
  then show ?thesis
    using root_agreement [OF assms(1) l tx_hashes_length [OF assms(5)] tx_hashes_length [OF assms(6)]] assms(7) by blast
qed

definition tx_with_hash :: "bytes \<Rightarrow> transaction" where
  "tx_with_hash h = sample_tx\<lparr>tx_raw := sample_raw\<lparr>rt_hashfieldshash := h\<rparr>\<rparr>"

lemma tx_with_hash [simp]: "length h = 32 \<Longrightarrow> tx_hash (tx_with_hash h) = Inr h"
  by (simp add: tx_hash_def tx_with_hash_def)

theorem transaction_root_commits_witness:
  "\<exists>x \<in> set (merkle_inputs (pe_hash block_env) (root_leaves [replicate 32 1])).
     \<exists>y \<in> set (merkle_inputs (pe_hash block_env) (root_leaves [replicate 32 2])). x \<noteq> y"
proof -
  let ?b = "\<lambda>h. appendTransaction (Some (tx_with_hash h)) new_block"
  have b: "bk_transactions (?b h) = map Some [tx_with_hash h]" for h
    by (simp add: appendTransaction_def clearTransactionsCache_def new_block_def)
  have eq: "calculateTransactionRoot block_env (?b (replicate 32 1)) = calculateTransactionRoot block_env (?b (replicate 32 2))"
    using transaction_root_leaves [OF b, of "replicate 32 1" "[replicate 32 1]" block_env]
      transaction_root_leaves [OF b, of "replicate 32 2" "[replicate 32 2]" block_env]
    by (simp add: calculateMerkleProofRoot_def root_leaves_def block_env_def sample_env_def)
  have "\<forall>b. length (pe_hash block_env b) = 32" by (simp add: block_env_def sample_env_def)
  from transaction_root_commits [OF this b b _ _ _ _ eq, of "[replicate 32 1]" "[replicate 32 2]"] show ?thesis by auto
qed

text \<open>The hash of a metadata object, as built and as decoded from its message.\<close>

lemma meta_hash_new: "length h = 32 \<Longrightarrow> fst (meta_hash (new_tx_meta h to)) = h"
  by (simp add: meta_hash_def new_tx_meta_def meta_setTo_def meta_setHash_def meta_of_raw_def)

lemma meta_hash_decoded: "length h = 32 \<Longrightarrow> fst (meta_hash (meta_of_raw (mt_raw (new_tx_meta h to)))) = h"
  by (simp add: meta_hash_def new_tx_meta_def meta_setTo_def meta_setHash_def meta_of_raw_def)

lemma meta_root_leaves:
  assumes "bk_transactions p = []" "map (\<lambda>m. fst (meta_hash m)) (bk_metas p) = hs" "hs \<noteq> []"
  shows "calculateTransactionRoot env p = Inr (calculateMerkleProofRoot (pe_hash env) (root_leaves hs))"
proof -
  have l: "length (bk_metas p) = length hs" using assms(2) by (metis length_map)
  have "fst (meta_hash (bk_metas p ! i)) = hs ! i" if "i < length hs" for i using assms(2) l that by (metis nth_map)
  then show ?thesis
    using encodeToCalculateRoot_leaves [of hs "\<lambda>i. bind_res (deref (transactionMetaData i p)) (\<lambda>m. Inr (fst (meta_hash m)))"]
      assms(1,3) l by (auto simp: calculateTransactionRoot_def transactionMetaData_def deref_def)
qed

text \<open>
  A proposal that carries only the metadata of the transactions, in their order, has
  the transaction root of the complete block.
\<close>

theorem proposal_root_agrees:
  assumes "bk_transactions b = map Some ts" "ts \<noteq> []" "map tx_hash ts = map Inr hs"
    and "bk_transactions p = []" "bk_metas p = map (\<lambda>(h, to). new_tx_meta h to) (zip hs tos)" "length tos = length hs"
  shows "calculateTransactionRoot env p = calculateTransactionRoot env b \<and> is_ok (calculateTransactionRoot env b)"
proof -
  have len: "\<forall>h \<in> set hs. length h = 32" by (rule tx_hashes_length [OF assms(3)])
  have ne: "hs \<noteq> []" using assms(2,3) by auto
  have "map (\<lambda>m. fst (meta_hash m)) (bk_metas p) = hs"
    using assms(5,6) len by (intro nth_equalityI) (simp_all add: meta_hash_new)
  then show ?thesis
    using transaction_root_leaves [OF assms(1-3), of env] meta_root_leaves [OF assms(4) _ ne] by simp
qed

theorem proposal_root_agrees_witness:
  "calculateTransactionRoot block_env (appendTransactionMetaData (new_tx_meta (replicate 32 1) ''a'') new_block) =
     calculateTransactionRoot block_env (appendTransaction (Some (tx_with_hash (replicate 32 1))) new_block)"
proof -
  have b: "bk_transactions (appendTransaction (Some (tx_with_hash h)) new_block) = map Some [tx_with_hash h]" for h
    by (simp add: appendTransaction_def clearTransactionsCache_def new_block_def)
  show ?thesis
    by (rule conjunct1, rule proposal_root_agrees [OF b, where hs = "[replicate 32 1]" and tos = "[''a'']"])
      (simp_all add: appendTransactionMetaData_def new_block_def)
qed

end
