(* ===== verification/Node_Config.thy ===== *)
theory Node_Config
  imports Byte_Utils
begin

text \<open>
  Node and genesis configuration: \<^verbatim>\<open>libtool/NodeConfig.{h,cpp}\<close>,
  \<^verbatim>\<open>interfaces/ledger/LedgerConfig.h\<close>, \<^verbatim>\<open>interfaces/consensus/ConsensusNode.h\<close> and the
  service names of \<^verbatim>\<open>interfaces/protocol/ServiceDesc.h\<close>.  The property tree that boost reads
  from a file, splitting, trimming, lower-casing and the conversion of text to numbers are
  parameters.  The members of the configuration object are grouped by section; unsigned
  members hold the value modulo their width, as the assignments of the source do.
\<close>

datatype config_error = InvalidConfig string | BadLexicalCast | BadHex

section \<open>Parameters\<close>

text \<open>
  The tree: \<open>pt_string\<close>, \<open>pt_int\<close> and \<open>pt_bool\<close> give the value of a path if it is present
  and converts, \<open>pt_section\<close> the children of a section in their order.
\<close>

record ptree =
  pt_string :: "string \<Rightarrow> string option"
  pt_int :: "string \<Rightarrow> int option"
  pt_bool :: "string \<Rightarrow> bool option"
  pt_section :: "string \<Rightarrow> (string \<times> string) list option"

record text_env =
  te_split :: "char \<Rightarrow> string \<Rightarrow> string list"
  te_int64 :: "string \<Rightarrow> int option"
  te_trim :: "string \<Rightarrow> string"
  te_lower :: "string \<Rightarrow> string"
  te_createKey :: "bytes \<Rightarrow> bytes"

definition get_or :: "'a option \<Rightarrow> 'a \<Rightarrow> 'a" where
  "get_or v d = (case v of None \<Rightarrow> d | Some x \<Rightarrow> x)"

text \<open>Assignment of a signed number to an unsigned member of \<^term>\<open>w\<close> bits.\<close>

definition to_unsigned :: "nat \<Rightarrow> int \<Rightarrow> nat" where
  "to_unsigned w v = nat (v mod 2 ^ w)"

section \<open>Ledger configuration\<close>

record consensus_node =
  cn_nodeID :: bytes
  cn_weight :: nat

record ledger_config =
  lc_consensusNodeList :: "consensus_node list"
  lc_observerNodeList :: "consensus_node list"
  lc_hash :: bytes
  lc_blockNumber :: int
  lc_blockTxCountLimit :: nat
  lc_leaderSwitchPeriod :: nat
  lc_sealerId :: int
  lc_txsSize :: int

text \<open>The block number and the transaction limit are not initialised.\<close>

definition new_ledger_config :: "int \<Rightarrow> nat \<Rightarrow> ledger_config" where
  "new_ledger_config number limit =
     \<lparr>lc_consensusNodeList = [], lc_observerNodeList = [], lc_hash = replicate 32 0, lc_blockNumber = number,
      lc_blockTxCountLimit = limit, lc_leaderSwitchPeriod = 1, lc_sealerId = - 1, lc_txsSize = - 1\<rparr>"

definition setConsensusNodeList :: "consensus_node list \<Rightarrow> ledger_config \<Rightarrow> ledger_config" where
  "setConsensusNodeList ns c = c\<lparr>lc_consensusNodeList := ns\<rparr>"

definition setObserverNodeList :: "consensus_node list \<Rightarrow> ledger_config \<Rightarrow> ledger_config" where
  "setObserverNodeList ns c = c\<lparr>lc_observerNodeList := ns\<rparr>"

definition lc_setHash :: "bytes \<Rightarrow> ledger_config \<Rightarrow> ledger_config" where
  "lc_setHash h c = c\<lparr>lc_hash := h\<rparr>"

definition setBlockNumber :: "int \<Rightarrow> ledger_config \<Rightarrow> ledger_config" where
  "setBlockNumber n c = c\<lparr>lc_blockNumber := n\<rparr>"

definition setBlockTxCountLimit :: "nat \<Rightarrow> ledger_config \<Rightarrow> ledger_config" where
  "setBlockTxCountLimit n c = c\<lparr>lc_blockTxCountLimit := n\<rparr>"

definition setLeaderSwitchPeriod :: "nat \<Rightarrow> ledger_config \<Rightarrow> ledger_config" where
  "setLeaderSwitchPeriod n c = c\<lparr>lc_leaderSwitchPeriod := n\<rparr>"

definition setSealerId :: "int \<Rightarrow> ledger_config \<Rightarrow> ledger_config" where
  "setSealerId n c = c\<lparr>lc_sealerId := n\<rparr>"

definition setTxsSize :: "int \<Rightarrow> ledger_config \<Rightarrow> ledger_config" where
  "setTxsSize n c = c\<lparr>lc_txsSize := n\<rparr>"

section \<open>Names\<close>

datatype service_type =
  NATIVE | EXECUTOR | LEDGER | SCHEDULER | FRONT | CONSENSUS | GATEWAY | RPC | TXPOOL | OtherService

fun getServiceObjByType :: "service_type \<Rightarrow> string" where
  "getServiceObjByType NATIVE = ''NativeNodeObj''"
| "getServiceObjByType EXECUTOR = ''ExecutorServiceObj''"
| "getServiceObjByType LEDGER = ''LedgerServiceObj''"
| "getServiceObjByType SCHEDULER = ''SchedulerServiceObj''"
| "getServiceObjByType FRONT = ''FrontServiceObj''"
| "getServiceObjByType CONSENSUS = ''PBFTServiceObj''"
| "getServiceObjByType GATEWAY = ''GatewayServiceObj''"
| "getServiceObjByType RPC = ''RpcServiceObj''"
| "getServiceObjByType TXPOOL = ''TxPoolServiceObj''"
| "getServiceObjByType OtherService = ''Unknown''"

definition getPrxDesc :: "string \<Rightarrow> string \<Rightarrow> string" where
  "getPrxDesc serviceName objName = serviceName @ ''.'' @ objName"

section \<open>The configuration object\<close>

record rpc_config =
  m_rpcListenIP :: string
  m_rpcListenPort :: nat
  m_rpcThreadPoolSize :: nat
  m_rpcSmSsl :: bool
  m_rpcDisableSsl :: bool

record gateway_config =
  m_p2pListenIP :: string
  m_p2pListenPort :: nat
  m_p2pSmSsl :: bool
  m_p2pNodeDir :: string
  m_p2pNodeFileName :: string

record cert_config =
  m_certPath :: string
  m_caCert :: string
  m_nodeCert :: string
  m_nodeKey :: string
  m_smCaCert :: string
  m_smNodeCert :: string
  m_smNodeKey :: string
  m_enSmNodeCert :: string
  m_enSmNodeKey :: string

record service_config =
  m_rpcServiceName :: string
  m_gatewayServiceName :: string
  m_schedulerServiceName :: string
  m_txpoolServiceName :: string
  m_consensusServiceName :: string
  m_frontServiceName :: string
  m_executorServiceName :: string
  m_nodeName :: string

record chain_config =
  m_smCryptoType :: bool
  m_groupId :: string
  m_chainId :: string
  m_blockLimit :: nat

record node_config =
  m_txpoolLimit :: nat
  m_notifyWorkerNum :: nat
  m_verifierWorkerNum :: nat
  nc_chain :: chain_config
  m_minSealTime :: nat
  m_checkPointTimeoutInterval :: nat
  m_privateKeyPath :: string
  m_consensusType :: string
  m_ledgerConfig :: ledger_config
  m_txGasLimit :: nat
  m_genesisData :: string
  m_storagePath :: string
  m_isWasm :: bool
  m_isAuthCheck :: bool
  m_authAdminAddress :: string
  nc_service :: service_config
  nc_rpc :: rpc_config
  nc_gateway :: gateway_config
  nc_cert :: cert_config

text \<open>
  The constructor.  Most members are left uninitialised; the numbers and flags they happen
  to have are the parameters.
\<close>

definition new_node_config :: "nat \<Rightarrow> bool \<Rightarrow> node_config" where
  "new_node_config n f =
     \<lparr>m_txpoolLimit = n, m_notifyWorkerNum = n, m_verifierWorkerNum = n,
      nc_chain = \<lparr>m_smCryptoType = f, m_groupId = [], m_chainId = [], m_blockLimit = n\<rparr>,
      m_minSealTime = 0, m_checkPointTimeoutInterval = n, m_privateKeyPath = [], m_consensusType = [],
      m_ledgerConfig = new_ledger_config (int n) n, m_txGasLimit = n, m_genesisData = [], m_storagePath = [],
      m_isWasm = False, m_isAuthCheck = False, m_authAdminAddress = [],
      nc_service = \<lparr>m_rpcServiceName = [], m_gatewayServiceName = [], m_schedulerServiceName = [],
        m_txpoolServiceName = [], m_consensusServiceName = [], m_frontServiceName = [], m_executorServiceName = [],
        m_nodeName = []\<rparr>,
      nc_rpc = \<lparr>m_rpcListenIP = [], m_rpcListenPort = n, m_rpcThreadPoolSize = n, m_rpcSmSsl = f, m_rpcDisableSsl = False\<rparr>,
      nc_gateway = \<lparr>m_p2pListenIP = [], m_p2pListenPort = n, m_p2pSmSsl = f, m_p2pNodeDir = [], m_p2pNodeFileName = []\<rparr>,
      nc_cert = \<lparr>m_certPath = [], m_caCert = [], m_nodeCert = [], m_nodeKey = [], m_smCaCert = [], m_smNodeCert = [],
        m_smNodeKey = [], m_enSmNodeCert = [], m_enSmNodeKey = []\<rparr>\<rparr>"

definition checkAndGetValue :: "text_env \<Rightarrow> ptree \<Rightarrow> string \<Rightarrow> string \<Rightarrow> config_error + int" where
  "checkAndGetValue env pt key defaultValue =
     (let v = get_or (pt_string pt key) defaultValue in
      case te_int64 env v of
        Some n \<Rightarrow> Inr n
      | None \<Rightarrow> Inl (InvalidConfig (''Invalid value '' @ v @ '' for configuration '' @ key @
                  '', please set the value with a valid number'')))"

section \<open>Service names\<close>

definition checkService :: "text_env \<Rightarrow> string \<Rightarrow> string \<Rightarrow> config_error + unit" where
  "checkService env serviceType serviceName =
     (if length serviceName = 0 then Inl (InvalidConfig (''Must set service name for '' @ serviceType @ ''!''))
      else
        (let serviceNameList = te_split env CHR ''.'' serviceName;
             errorMsg = ''Must set service name in format of application_name.server_name with only include letters and numbers for '' @
               serviceType @ '', invalid config now is:'' @ serviceName in
         if length serviceNameList \<noteq> 2 then Inl (InvalidConfig errorMsg)
         else if \<not> (\<forall>s \<in> set serviceNameList. isalNumStr s) then Inl (InvalidConfig errorMsg)
         else Inr ()))"

definition getServiceName ::
    "text_env \<Rightarrow> ptree \<Rightarrow> string \<Rightarrow> string \<Rightarrow> string \<Rightarrow> bool \<Rightarrow> config_error + string" where
  "getServiceName env pt configSection objName defaultValue require =
     (let serviceName = get_or (pt_string pt configSection) defaultValue in
      if \<not> require then Inr serviceName
      else bind_res (checkService env configSection serviceName) (\<lambda>_. Inr (getPrxDesc serviceName objName)))"

definition loadRpcServiceConfig :: "text_env \<Rightarrow> ptree \<Rightarrow> node_config \<Rightarrow> config_error + node_config" where
  "loadRpcServiceConfig env pt c =
     bind_res (getServiceName env pt ''service.rpc'' (getServiceObjByType RPC) '''' True)
       (\<lambda>n. Inr (c\<lparr>nc_service := (nc_service c)\<lparr>m_rpcServiceName := n\<rparr>\<rparr>))"

definition loadGatewayServiceConfig :: "text_env \<Rightarrow> ptree \<Rightarrow> node_config \<Rightarrow> config_error + node_config" where
  "loadGatewayServiceConfig env pt c =
     bind_res (getServiceName env pt ''service.gateway'' (getServiceObjByType GATEWAY) '''' True)
       (\<lambda>n. Inr (c\<lparr>nc_service := (nc_service c)\<lparr>m_gatewayServiceName := n\<rparr>\<rparr>))"

definition loadServiceConfig :: "text_env \<Rightarrow> ptree \<Rightarrow> node_config \<Rightarrow> config_error + node_config" where
  "loadServiceConfig env pt c =
     bind_res (loadGatewayServiceConfig env pt c) (loadRpcServiceConfig env pt)"

definition getDefaultServiceName :: "node_config \<Rightarrow> string \<Rightarrow> string \<Rightarrow> string" where
  "getDefaultServiceName c nodeName serviceName = m_chainId (nc_chain c) @ ''.'' @ nodeName @ serviceName"

definition loadNodeServiceConfig :: "text_env \<Rightarrow> string \<Rightarrow> ptree \<Rightarrow> node_config \<Rightarrow> config_error + node_config" where
  "loadNodeServiceConfig env nodeID pt c =
     (let configured = get_or (pt_string pt ''service.node_name'') '''';
          nodeName = (if length configured = 0 then nodeID else configured) in
      if \<not> isalNumStr nodeName then Inl (InvalidConfig ''The node name must be number or digit'')
      else
        (let name = (\<lambda>path obj svc. getServiceName env pt path obj (getDefaultServiceName c nodeName svc) False) in
         bind_res (name ''service.scheduler'' (getServiceObjByType SCHEDULER) ''SchedulerService'')
           (\<lambda>sch. bind_res (name ''service.txpool'' (getServiceObjByType TXPOOL) ''TxPoolService'')
              (\<lambda>txp. bind_res (name ''service.consensus'' (getServiceObjByType CONSENSUS) ''PBFTService'')
                 (\<lambda>con. bind_res (name ''service.front'' (getServiceObjByType FRONT) ''FrontService'')
                    (\<lambda>fro. bind_res (name ''service.executor'' (getServiceObjByType EXECUTOR) ''ExecutorService'')
                       (\<lambda>exe. Inr (c\<lparr>nc_service := (nc_service c)
                          \<lparr>m_nodeName := nodeName, m_schedulerServiceName := sch, m_txpoolServiceName := txp,
                           m_consensusServiceName := con, m_frontServiceName := fro, m_executorServiceName := exe\<rparr>\<rparr>))))))))"

section \<open>Sections of the node configuration\<close>

definition loadRpcConfig :: "ptree \<Rightarrow> node_config \<Rightarrow> node_config" where
  "loadRpcConfig pt c =
     c\<lparr>nc_rpc :=
        \<lparr>m_rpcListenIP = get_or (pt_string pt ''rpc.listen_ip'') ''0.0.0.0'',
         m_rpcListenPort = to_unsigned 16 (get_or (pt_int pt ''rpc.listen_port'') 20200),
         m_rpcThreadPoolSize = to_unsigned 32 (get_or (pt_int pt ''rpc.thread_count'') 8),
         m_rpcSmSsl = get_or (pt_bool pt ''rpc.sm_ssl'') False,
         m_rpcDisableSsl = get_or (pt_bool pt ''rpc.disable_ssl'') False\<rparr>\<rparr>"

definition loadGatewayConfig :: "ptree \<Rightarrow> node_config \<Rightarrow> node_config" where
  "loadGatewayConfig pt c =
     c\<lparr>nc_gateway :=
        \<lparr>m_p2pListenIP = get_or (pt_string pt ''p2p.listen_ip'') ''0.0.0.0'',
         m_p2pListenPort = to_unsigned 16 (get_or (pt_int pt ''p2p.listen_port'') 30300),
         m_p2pSmSsl = get_or (pt_bool pt ''p2p.sm_ssl'') False,
         m_p2pNodeDir = get_or (pt_string pt ''p2p.nodes_path'') ''./'',
         m_p2pNodeFileName = get_or (pt_string pt ''p2p.nodes_file'') ''nodes.json''\<rparr>\<rparr>"

definition loadCertConfig :: "ptree \<Rightarrow> node_config \<Rightarrow> node_config" where
  "loadCertConfig pt c =
     (let certPath = get_or (pt_string pt ''cert.ca_path'') ''./'';
          file = (\<lambda>key d. certPath @ ''/'' @ get_or (pt_string pt key) d) in
      c\<lparr>nc_cert :=
         \<lparr>m_certPath = certPath,
          m_caCert = file ''cert.ca_cert'' ''ca.crt'',
          m_nodeCert = file ''cert.node_cert'' ''ssl.crt'',
          m_nodeKey = file ''cert.node_key'' ''ssl.key'',
          m_smCaCert = file ''cert.sm_ca_cert'' ''sm_ca.crt'',
          m_smNodeCert = file ''cert.sm_node_cert'' ''sm_ssl.crt'',
          m_smNodeKey = file ''cert.sm_node_key'' ''sm_ssl.key'',
          m_enSmNodeCert = file ''cert.sm_ennode_cert'' ''sm_enssl.crt'',
          m_enSmNodeKey = file ''cert.sm_ennode_key'' ''sm_enssl.key''\<rparr>\<rparr>)"

text \<open>The value is stored in the unsigned member first and the member is compared with zero.\<close>

definition loadTxPoolConfig :: "text_env \<Rightarrow> ptree \<Rightarrow> node_config \<Rightarrow> config_error + node_config" where
  "loadTxPoolConfig env pt c =
     bind_res (checkAndGetValue env pt ''txpool.limit'' ''15000'')
       (\<lambda>v1. let c1 = c\<lparr>m_txpoolLimit := to_unsigned 64 v1\<rparr> in
          if m_txpoolLimit c1 \<le> 0 then Inl (InvalidConfig ''Please set txpool.limit to positive !'')
          else bind_res (checkAndGetValue env pt ''txpool.notify_worker_num'' ''2'')
            (\<lambda>v2. let c2 = c1\<lparr>m_notifyWorkerNum := to_unsigned 64 v2\<rparr> in
               if m_notifyWorkerNum c2 \<le> 0 then Inl (InvalidConfig ''Please set txpool.notify_worker_num to positive !'')
               else bind_res (checkAndGetValue env pt ''txpool.verify_worker_num'' ''2'')
                 (\<lambda>v3. let c3 = c2\<lparr>m_verifierWorkerNum := to_unsigned 64 v3\<rparr> in
                    if m_verifierWorkerNum c3 \<le> 0
                    then Inl (InvalidConfig ''Please set txpool.verify_worker_num to positive !'')
                    else Inr c3)))"

definition MAX_BLOCK_LIMIT :: nat where "MAX_BLOCK_LIMIT = 5000"

definition loadChainConfig :: "text_env \<Rightarrow> ptree \<Rightarrow> node_config \<Rightarrow> config_error + node_config" where
  "loadChainConfig env pt c =
     (let smCrypto = get_or (pt_bool pt ''chain.sm_crypto'') False;
          groupId = get_or (pt_string pt ''chain.group_id'') ''group'';
          chainId = get_or (pt_string pt ''chain.chain_id'') ''chain'' in
      if \<not> isalNumStr chainId then Inl (InvalidConfig ''The chainId must be number or digit'')
      else
        bind_res (checkAndGetValue env pt ''chain.block_limit'' ''1000'')
          (\<lambda>v. let blockLimit = to_unsigned 64 v in
             if blockLimit \<le> 0 \<or> blockLimit > MAX_BLOCK_LIMIT
             then Inl (InvalidConfig (''Please set chain.block_limit to positive and less than '' @
                    to_string MAX_BLOCK_LIMIT @ '' !''))
             else Inr (c\<lparr>nc_chain := \<lparr>m_smCryptoType = smCrypto, m_groupId = groupId, m_chainId = chainId,
                         m_blockLimit = blockLimit\<rparr>\<rparr>)))"

definition loadSecurityConfig :: "ptree \<Rightarrow> node_config \<Rightarrow> node_config" where
  "loadSecurityConfig pt c = c\<lparr>m_privateKeyPath := get_or (pt_string pt ''security.private_key_path'') ''node.pem''\<rparr>"

definition loadSealerConfig :: "text_env \<Rightarrow> ptree \<Rightarrow> node_config \<Rightarrow> config_error + node_config" where
  "loadSealerConfig env pt c =
     bind_res (checkAndGetValue env pt ''consensus.min_seal_time'' ''500'')
       (\<lambda>v. let minSealTime = to_unsigned 64 v in
          if minSealTime \<le> 0 \<or> minSealTime > 3000
          then Inl (InvalidConfig ''Please set consensus.min_seal_time between 1 and 3000!'')
          else Inr (c\<lparr>m_minSealTime := minSealTime\<rparr>))"

definition loadStorageConfig :: "ptree \<Rightarrow> node_config \<Rightarrow> node_config" where
  "loadStorageConfig pt c =
     c\<lparr>m_storagePath := get_or (pt_string pt ''storage.data_path'') (''data/'' @ m_groupId (nc_chain c))\<rparr>"

definition loadConsensusConfig :: "text_env \<Rightarrow> ptree \<Rightarrow> node_config \<Rightarrow> config_error + node_config" where
  "loadConsensusConfig env pt c =
     bind_res (checkAndGetValue env pt ''consensus.checkpoint_timeout'' ''3000'')
       (\<lambda>v. let interval = to_unsigned 64 v in
          if interval < 3000
          then Inl (InvalidConfig (''Please set consensus.checkpoint_timeout to no less than '' @ to_string 3000 @ ''ms!''))
          else Inr (c\<lparr>m_checkPointTimeoutInterval := interval\<rparr>))"

definition loadExecutorConfig :: "ptree \<Rightarrow> node_config \<Rightarrow> node_config" where
  "loadExecutorConfig pt c =
     c\<lparr>m_isWasm := get_or (pt_bool pt ''executor.is_wasm'') False,
       m_isAuthCheck := get_or (pt_bool pt ''executor.is_auth_check'') False,
       m_authAdminAddress := get_or (pt_string pt ''executor.auth_admin_account'') ''''\<rparr>"

definition loadConfig :: "text_env \<Rightarrow> ptree \<Rightarrow> node_config \<Rightarrow> config_error + node_config" where
  "loadConfig env pt c =
     bind_res (loadChainConfig env pt c)
       (\<lambda>c1. bind_res (loadTxPoolConfig env pt (loadGatewayConfig pt (loadRpcConfig pt (loadCertConfig pt c1))))
          (\<lambda>c2. bind_res (loadSealerConfig env pt (loadSecurityConfig pt c2))
             (\<lambda>c3. bind_res (loadConsensusConfig env pt c3)
                (\<lambda>c4. Inr (loadExecutorConfig pt (loadStorageConfig pt c4))))))"

section \<open>Genesis configuration\<close>

definition is_prefix :: "string \<Rightarrow> string \<Rightarrow> bool" where
  "is_prefix p s = (take (length p) s = p)"

text \<open>One entry of the section: the identifier in hexadecimal and, after a colon, the weight.\<close>

definition parse_node :: "text_env \<Rightarrow> string \<Rightarrow> string \<Rightarrow> config_error + consensus_node" where
  "parse_node env key dat =
     (let nodeInfo = te_split env CHR '':'' dat in
      if nodeInfo = []
      then Inl (InvalidConfig (''Uninitialized nodeInfo, key: '' @ key @ '', value: '' @ dat))
      else
        (let nodeId = te_lower env (nodeInfo ! 0) in
         bind_res
           (if length nodeInfo = 2
            then (case te_int64 env (te_trim env (nodeInfo ! 1)) of None \<Rightarrow> Inl BadLexicalCast | Some w \<Rightarrow> Inr w)
            else Inr 1)
           (\<lambda>weight.
              if weight \<le> 0
              then Inl (InvalidConfig (''Please set weight for '' @ nodeId @ '' to positive!''))
              else
                (case fromHexString nodeId of
                   Inl _ \<Rightarrow> Inl BadHex
                 | Inr b \<Rightarrow> Inr \<lparr>cn_nodeID = te_createKey env b, cn_weight = to_unsigned 64 weight\<rparr>))))"

fun parse_nodes :: "text_env \<Rightarrow> string \<Rightarrow> (string \<times> string) list \<Rightarrow> config_error + consensus_node list" where
  "parse_nodes env sub [] = Inr []"
| "parse_nodes env sub ((key, dat) # items) =
     (if \<not> is_prefix sub key then parse_nodes env sub items
      else bind_res (parse_node env key dat)
        (\<lambda>n. bind_res (parse_nodes env sub items) (\<lambda>ns. Inr (n # ns))))"

definition parseConsensusNodeList ::
    "text_env \<Rightarrow> ptree \<Rightarrow> string \<Rightarrow> string \<Rightarrow> config_error + consensus_node list option" where
  "parseConsensusNodeList env pt sectionName subSectionName =
     (case pt_section pt sectionName of
        None \<Rightarrow> Inr None
      | Some items \<Rightarrow> bind_res (parse_nodes env subSectionName items) (\<lambda>ns. Inr (Some ns)))"

definition node_text :: "consensus_node \<Rightarrow> string" where
  "node_text n = toHexString (cn_nodeID n) [] @ '','' @ to_string (cn_weight n) @ '';''"

definition generateGenesisData :: "node_config \<Rightarrow> node_config" where
  "generateGenesisData c =
     c\<lparr>m_genesisData :=
        to_string (lc_blockTxCountLimit (m_ledgerConfig c)) @ ''-'' @
        to_string (lc_leaderSwitchPeriod (m_ledgerConfig c)) @ ''-'' @ to_string (m_txGasLimit c) @ ''-'' @
        concat (map node_text (lc_consensusNodeList (m_ledgerConfig c)))\<rparr>"

definition TX_GAS_LIMIT_MIN :: int where "TX_GAS_LIMIT_MIN = 100000"

definition loadLedgerConfig :: "text_env \<Rightarrow> ptree \<Rightarrow> node_config \<Rightarrow> config_error + node_config" where
  "loadLedgerConfig env pt c =
     (let c0 = c\<lparr>m_consensusType := get_or (pt_string pt ''consensus.consensus_type'') ''pbft''\<rparr> in
      bind_res (checkAndGetValue env pt ''consensus.block_tx_count_limit'' ''1000'')
        (\<lambda>limit. if limit \<le> 0 then Inl (InvalidConfig ''Please set consensus.block_tx_count_limit to positive!'')
         else
           (let c1 = c0\<lparr>m_ledgerConfig := setBlockTxCountLimit (to_unsigned 64 limit) (m_ledgerConfig c0)\<rparr> in
            bind_res (checkAndGetValue env pt ''tx.gas_limit'' ''300000000'')
              (\<lambda>gas. if gas \<le> TX_GAS_LIMIT_MIN
               then Inl (InvalidConfig (''Please set tx.gas_limit to more than '' @ to_string (nat TX_GAS_LIMIT_MIN) @ '' !''))
               else
                 (let c2 = c1\<lparr>m_txGasLimit := to_unsigned 64 gas\<rparr> in
                  bind_res (parseConsensusNodeList env pt ''consensus'' ''node.'')
                    (\<lambda>nodes. if nodes = None \<or> nodes = Some [] then Inl (InvalidConfig ''Must set sealerList!'')
                     else
                       (let c3 = c2\<lparr>m_ledgerConfig := setConsensusNodeList (the nodes) (m_ledgerConfig c2)\<rparr> in
                        bind_res (checkAndGetValue env pt ''consensus.leader_period'' ''1'')
                          (\<lambda>period. if period \<le> 0
                           then Inl (InvalidConfig ''Please set consensus.leader_period to positive!'')
                           else Inr (generateGenesisData
                             (c3\<lparr>m_ledgerConfig := setLeaderSwitchPeriod (to_unsigned 64 period) (m_ledgerConfig c3)\<rparr>))))))))))"

end
