(* ===== verification/Node_Config_Props.thy ===== *)
theory Node_Config_Props
  imports Node_Config
begin

text \<open>
  Correctness of the configuration: what the checks on unsigned members let through, the
  well-formedness of an accepted genesis configuration, and that the genesis data determine
  it.
\<close>

section \<open>Node configuration\<close>

lemma to_unsigned_less [simp]: "to_unsigned w v < 2 ^ w"
  by (simp add: to_unsigned_def nat_less_iff)

lemma to_unsigned_pos: "0 \<le> v \<Longrightarrow> v < 2 ^ w \<Longrightarrow> to_unsigned w v = nat v"
  by (simp add: to_unsigned_def)

lemma checkAndGetValue_Inr [simp]:
  "checkAndGetValue env pt key d = Inr v \<longleftrightarrow> te_int64 env (get_or (pt_string pt key) d) = Some v"
  by (simp add: checkAndGetValue_def Let_def split: option.splits)

lemma loadTxPoolConfig_iff:
  "loadTxPoolConfig env pt c = Inr c' \<longleftrightarrow>
   (\<exists>v1 v2 v3. te_int64 env (get_or (pt_string pt ''txpool.limit'') ''15000'') = Some v1 \<and>
      te_int64 env (get_or (pt_string pt ''txpool.notify_worker_num'') ''2'') = Some v2 \<and>
      te_int64 env (get_or (pt_string pt ''txpool.verify_worker_num'') ''2'') = Some v3 \<and>
      to_unsigned 64 v1 \<noteq> 0 \<and> to_unsigned 64 v2 \<noteq> 0 \<and> to_unsigned 64 v3 \<noteq> 0 \<and>
      c' = c\<lparr>m_txpoolLimit := to_unsigned 64 v1, m_notifyWorkerNum := to_unsigned 64 v2,
             m_verifierWorkerNum := to_unsigned 64 v3\<rparr>)"
  by (auto simp: loadTxPoolConfig_def Let_def bind_res_eq_Inr)

text \<open>Conversion to \<^verbatim>\<open>int64_t\<close> gives numbers of that type.\<close>

definition int64_range :: "text_env \<Rightarrow> bool" where
  "int64_range env = (\<forall>s v. te_int64 env s = Some v \<longrightarrow> - (2 ^ 63) \<le> v \<and> v < 2 ^ 63)"

text \<open>Text functions for concrete instances.\<close>

fun split_on :: "char \<Rightarrow> string \<Rightarrow> string list" where
  "split_on c [] = [[]]"
| "split_on c (x # xs) = (if x = c then [] # split_on c xs else (case split_on c xs of y # ys \<Rightarrow> (x # y) # ys | [] \<Rightarrow> [[x]]))"

definition read_int64 :: "string \<Rightarrow> int option" where
  "read_int64 s =
     (let v = (if s \<noteq> [] \<and> hd s = CHR ''-'' then - int (digits_value (tl s)) else int (digits_value s)) in
      if - (2 ^ 63) \<le> v \<and> v < 2 ^ 63 then Some v else None)"

definition sample_text_env :: text_env where
  "sample_text_env = \<lparr>te_split = split_on, te_int64 = read_int64, te_trim = (\<lambda>s. s), te_lower = (\<lambda>s. s), te_createKey = (\<lambda>b. b)\<rparr>"

definition sample_ptree :: ptree where
  "sample_ptree =
     \<lparr>pt_string = (\<lambda>k. if k = ''txpool.limit'' then Some ''-1'' else None), pt_int = (\<lambda>_. None), pt_bool = (\<lambda>_. None),
      pt_section = (\<lambda>s. if s = ''consensus'' then Some [(''node.0'', ''ab:2''), (''leader'', ''x'')] else None)\<rparr>"

lemma sample_values:
  "read_int64 ''-1'' = Some (- 1)" "read_int64 ''2'' = Some 2" "read_int64 ''1000'' = Some 1000"
  "read_int64 ''500'' = Some 500" "read_int64 ''3000'' = Some 3000" "read_int64 ''300000000'' = Some 300000000"
  "read_int64 ''1'' = Some 1" "read_int64 ''15000'' = Some 15000"
  by (simp_all add: read_int64_def digits_value_def)

lemma sample_text_env_range: "int64_range sample_text_env"
  by (auto simp: int64_range_def sample_text_env_def read_int64_def Let_def split: if_splits)

text \<open>
  The checks on the transaction pool compare an unsigned member with zero, so they
  reject exactly zero: a negative value is accepted and becomes the value modulo 2 to the
  64.
\<close>

theorem txpool_limits_iff:
  assumes "int64_range env"
  shows "(is_ok (loadTxPoolConfig env pt c) \<longleftrightarrow>
    (\<exists>v1 v2 v3. te_int64 env (get_or (pt_string pt ''txpool.limit'') ''15000'') = Some v1 \<and>
       te_int64 env (get_or (pt_string pt ''txpool.notify_worker_num'') ''2'') = Some v2 \<and>
       te_int64 env (get_or (pt_string pt ''txpool.verify_worker_num'') ''2'') = Some v3 \<and> v1 \<noteq> 0 \<and> v2 \<noteq> 0 \<and> v3 \<noteq> 0)) \<and>
    (loadTxPoolConfig env pt c = Inr c' \<longrightarrow>
      (\<exists>v. te_int64 env (get_or (pt_string pt ''txpool.limit'') ''15000'') = Some v \<and>
         m_txpoolLimit c' = nat (if v < 0 then v + 2 ^ 64 else v)))" (is "?ok \<and> ?val")
proof
  have u: "to_unsigned 64 x = nat (if x < 0 then x + 2 ^ 64 else x)" if "te_int64 env s = Some x" for s x
  proof -
    have r: "- (2 ^ 63) \<le> x" "x < 2 ^ 63" using assms that unfolding int64_range_def by blast+
    have "x mod 2 ^ 64 = (if x < 0 then x + 2 ^ 64 else x)"
      using r mod_add_self2 [of x "2 ^ 64"] mod_pos_pos_trivial [of "x + 2 ^ 64" "2 ^ 64"] by (auto simp: mod_pos_pos_trivial)
    then show ?thesis by (simp add: to_unsigned_def)
  qed
  have z: "to_unsigned 64 x \<noteq> 0 \<longleftrightarrow> x \<noteq> 0" if "te_int64 env s = Some x" for s x
  proof -
    have "- (2 ^ 63) \<le> x" using assms that unfolding int64_range_def by blast
    then show ?thesis using u [OF that] by auto
  qed
  have "is_ok r \<longleftrightarrow> (\<exists>x. r = Inr x)" for r :: "config_error + node_config" by (cases r) auto
  then show ?ok using z by (auto simp: loadTxPoolConfig_iff)
  show ?val using u by (auto simp: loadTxPoolConfig_iff)
qed

theorem txpool_limits_iff_witness:
  "\<exists>c'. loadTxPoolConfig sample_text_env sample_ptree (new_node_config 0 False) = Inr c' \<and> m_txpoolLimit c' = 2 ^ 64 - 1"
proof -
  note r = sample_text_env_range
  have g: "te_int64 sample_text_env (get_or (pt_string sample_ptree ''txpool.limit'') ''15000'') = Some (- 1)"
    by (simp add: sample_text_env_def sample_ptree_def get_or_def sample_values)
  have "is_ok (loadTxPoolConfig sample_text_env sample_ptree (new_node_config 0 False))"
    using txpool_limits_iff [OF r, of sample_ptree "new_node_config 0 False"] g
    by (simp add: sample_text_env_def sample_ptree_def get_or_def sample_values)
  then obtain c' where c': "loadTxPoolConfig sample_text_env sample_ptree (new_node_config 0 False) = Inr c'"
    by (auto simp: is_ok_def split: sum.splits)
  then show ?thesis using txpool_limits_iff [OF r, of sample_ptree "new_node_config 0 False" c'] g by auto
qed

section \<open>Genesis configuration\<close>

lemma to_unsigned_int64: "0 < v \<Longrightarrow> v < 2 ^ 63 \<Longrightarrow> 1 \<le> to_unsigned 64 v \<and> to_unsigned 64 v < 2 ^ 63"
  by (simp add: to_unsigned_pos nat_less_iff)

lemma parse_node_weight:
  assumes "int64_range env" "parse_node env key dat = Inr n"
  shows "1 \<le> cn_weight n \<and> cn_weight n < 2 ^ 63"
proof -
  obtain w b where p: "(if length (te_split env CHR '':'' dat) = 2
      then (case te_int64 env (te_trim env (te_split env CHR '':'' dat ! 1)) of None \<Rightarrow> Inl BadLexicalCast | Some w \<Rightarrow> Inr w)
      else Inr 1) = Inr w" "0 < w" "n = \<lparr>cn_nodeID = te_createKey env b, cn_weight = to_unsigned 64 w\<rparr>"
    using assms(2) by (auto simp: parse_node_def Let_def bind_res_eq_Inr not_le split: if_split_asm sum.splits)
  have "w < 2 ^ 63" using p(1) assms(1) by (auto simp: int64_range_def split: if_splits option.splits)
  then have w: "0 < w" "w < 2 ^ 63" "cn_weight n = to_unsigned 64 w" using p(2,3) by simp_all
  then show ?thesis using to_unsigned_int64 by simp
qed

lemma parse_nodes_weight:
  assumes "int64_range env"
  shows "parse_nodes env sub items = Inr ns \<Longrightarrow> \<forall>n \<in> set ns. 1 \<le> cn_weight n \<and> cn_weight n < 2 ^ 63"
proof (induction items arbitrary: ns)
  case (Cons item items)
  obtain key dat where [simp]: "item = (key, dat)" by (cases item)
  show ?case using Cons parse_node_weight [OF assms] by (fastforce simp: bind_res_eq_Inr split: if_splits)
qed simp

text \<open>
  C27: an accepted genesis configuration is well formed: there is a consensus node, every
  weight is positive, the limit on transactions per block and the leader period are
  positive, and the gas limit is above its minimum.
\<close>

theorem genesis_config_valid:
  assumes "int64_range env" "loadLedgerConfig env pt c = Inr c'"
  shows "lc_consensusNodeList (m_ledgerConfig c') \<noteq> [] \<and>
    (\<forall>n \<in> set (lc_consensusNodeList (m_ledgerConfig c')). 1 \<le> cn_weight n \<and> cn_weight n < 2 ^ 63) \<and>
    1 \<le> lc_blockTxCountLimit (m_ledgerConfig c') \<and> lc_blockTxCountLimit (m_ledgerConfig c') < 2 ^ 63 \<and>
    1 \<le> lc_leaderSwitchPeriod (m_ledgerConfig c') \<and> lc_leaderSwitchPeriod (m_ledgerConfig c') < 2 ^ 63 \<and>
    100000 < m_txGasLimit c' \<and> m_txGasLimit c' < 2 ^ 63"
proof -
  obtain limit gas items nodes period where r: "0 < limit" "100000 < gas" "0 < period"
      "te_int64 env (get_or (pt_string pt ''consensus.block_tx_count_limit'') ''1000'') = Some limit"
      "te_int64 env (get_or (pt_string pt ''tx.gas_limit'') ''300000000'') = Some gas"
      "te_int64 env (get_or (pt_string pt ''consensus.leader_period'') ''1'') = Some period"
    and n: "parse_nodes env ''node.'' items = Inr nodes" "nodes \<noteq> []"
    and c': "m_ledgerConfig c' = (m_ledgerConfig c)\<lparr>lc_blockTxCountLimit := to_unsigned 64 limit,
      lc_consensusNodeList := nodes, lc_leaderSwitchPeriod := to_unsigned 64 period\<rparr>" "m_txGasLimit c' = to_unsigned 64 gas"
    using assms(2)
    by (auto simp: loadLedgerConfig_def Let_def bind_res_eq_Inr parseConsensusNodeList_def generateGenesisData_def
        setBlockTxCountLimit_def setConsensusNodeList_def setLeaderSwitchPeriod_def TX_GAS_LIMIT_MIN_def
        split: if_splits option.splits)
  have b: "limit < 2 ^ 63" "gas < 2 ^ 63" "period < 2 ^ 63" using assms(1) r(4-6) by (auto simp: int64_range_def)
  show ?thesis
    using parse_nodes_weight [OF assms(1) n(1)] n(2) to_unsigned_int64 [OF r(1) b(1)] to_unsigned_int64 [OF r(3) b(3)]
      to_unsigned_pos [of gas 64] r(2) b(2) by (simp add: c' nat_less_iff)
qed

lemma hex_char_set: "set (toHexString_loop bs) \<subseteq> set hexCharsCollection"
proof (induction bs)
  case (Cons b bs)
  have l: "length hexCharsCollection = 16" by (simp add: hexCharsCollection_def)
  have "unat b div 16 < 16" "unat b mod 16 < 16" using unat_byte_less [of b] by linarith+
  then show ?case using Cons l by (simp add: nibbles)
qed simp

lemma node_text_unique:
  assumes "node_text m @ x = node_text n @ y"
  shows "m = n \<and> x = y"
proof -
  have c: "CHR '','' \<notin> set (toHexString b [])" for b
    using hex_char_set [of b] by (auto simp: toHexString_def hexCharsCollection_def)
  have s: "CHR '';'' \<notin> set (to_string k)" for k
    using to_string_digits [of k] by (auto simp: list_all_iff is_digit_def less_eq_char_def)
  have 1: "toHexString (cn_nodeID m) [] = toHexString (cn_nodeID n) [] \<and>
      to_string (cn_weight m) @ CHR '';'' # x = to_string (cn_weight n) @ CHR '';'' # y"
    using assms by (intro separated_unique [OF _ c c]) (simp add: node_text_def)
  then have 2: "to_string (cn_weight m) = to_string (cn_weight n) \<and> x = y"
    by (intro separated_unique [OF _ s s]) simp
  have "cn_nodeID m = cn_nodeID n"
    using 1 fromHexString_loop_toHexString_loop by (metis toHexString_def append_Nil sum.inject(2))
  then show ?thesis using 2 by simp
qed

lemma node_texts_unique: "concat (map node_text ms) = concat (map node_text ns) \<Longrightarrow> ms = ns"
proof (induction ms arbitrary: ns)
  case Nil
  then show ?case by (cases ns) (simp_all add: node_text_def)
next
  case (Cons m ms)
  show ?case
  proof (cases ns)
    case Nil
    then show ?thesis using Cons.prems by (simp add: node_text_def)
  next
    case (Cons n ns')
    then show ?thesis using Cons.IH Cons.prems node_text_unique [of m "concat (map node_text ms)" n] by auto
  qed
qed

text \<open>
  The genesis data determine the genesis configuration: two configurations with the same
  data have the same transaction limit, leader period, gas limit and the same consensus
  nodes with the same weights in the same order.
\<close>

theorem genesis_data_determines:
  assumes "m_genesisData (generateGenesisData a) = m_genesisData (generateGenesisData b)"
  shows "lc_blockTxCountLimit (m_ledgerConfig a) = lc_blockTxCountLimit (m_ledgerConfig b) \<and>
    lc_leaderSwitchPeriod (m_ledgerConfig a) = lc_leaderSwitchPeriod (m_ledgerConfig b) \<and>
    m_txGasLimit a = m_txGasLimit b \<and>
    lc_consensusNodeList (m_ledgerConfig a) = lc_consensusNodeList (m_ledgerConfig b)"
proof -
  have d: "CHR ''-'' \<notin> set (to_string k)" for k
    using to_string_digits [of k] by (auto simp: list_all_iff is_digit_def less_eq_char_def)
  have step: "m = n \<and> x = y" if "to_string m @ CHR ''-'' # x = to_string n @ CHR ''-'' # y" for m n x y
    using separated_unique [OF that d d] by simp
  have e1: "to_string (lc_blockTxCountLimit (m_ledgerConfig a)) @ CHR ''-'' # to_string (lc_leaderSwitchPeriod (m_ledgerConfig a)) @
      CHR ''-'' # to_string (m_txGasLimit a) @ CHR ''-'' # concat (map node_text (lc_consensusNodeList (m_ledgerConfig a))) =
    to_string (lc_blockTxCountLimit (m_ledgerConfig b)) @ CHR ''-'' # to_string (lc_leaderSwitchPeriod (m_ledgerConfig b)) @
      CHR ''-'' # to_string (m_txGasLimit b) @ CHR ''-'' # concat (map node_text (lc_consensusNodeList (m_ledgerConfig b)))"
    using assms by (simp add: generateGenesisData_def)
  note e2 = step [OF e1]
  note e3 = step [OF conjunct2 [OF e2]]
  note e4 = step [OF conjunct2 [OF e3]]
  show ?thesis using e2 e3 e4 node_texts_unique by blast
qed

theorem genesis_config_valid_witness:
  "\<exists>c'. loadLedgerConfig sample_text_env sample_ptree (new_node_config 0 False) = Inr c' \<and>
     lc_consensusNodeList (m_ledgerConfig c') \<noteq> []"
proof -
  have h: "fromHexString ''ab'' = Inr [0xab]" by code_simp
  have "\<exists>c'. loadLedgerConfig sample_text_env sample_ptree (new_node_config 0 False) = Inr c'"
    by (simp add: loadLedgerConfig_def checkAndGetValue_def sample_text_env_def sample_ptree_def get_or_def sample_values
        TX_GAS_LIMIT_MIN_def parseConsensusNodeList_def parse_node_def is_prefix_def h)
  then obtain c' where c': "loadLedgerConfig sample_text_env sample_ptree (new_node_config 0 False) = Inr c'" by blast
  from genesis_config_valid [OF sample_text_env_range c'] c' show ?thesis by blast
qed

theorem genesis_data_determines_witness:
  "m_txGasLimit (generateGenesisData (new_node_config 3 True)) = m_txGasLimit (new_node_config 3 False)"
proof -
  have "m_genesisData (generateGenesisData (new_node_config 3 True)) = m_genesisData (generateGenesisData (new_node_config 3 False))"
    by (simp add: generateGenesisData_def new_node_config_def)
  from genesis_data_determines [OF this] show ?thesis by (simp add: generateGenesisData_def)
qed

end
