(* ===== verification/Ledger_Fetcher.thy ===== *)
theory Ledger_Fetcher
  imports Node_Config
begin

text \<open>
  Fetching the ledger configuration: \<^verbatim>\<open>libtool/LedgerConfigFetcher.{h,cpp}\<close>.  The ledger is
  another module that answers later and in any order.  A call to it is a pending request
  that carries the captured variables of its callback; the callback is the function that
  handles the answer and returns the new state with the calls it makes.  Conversion of
  text to \<^verbatim>\<open>uint64_t\<close> is a parameter.  The fetcher is alive when an answer comes.
\<close>

section \<open>State and requests\<close>

record fetcher =
  lf_ledgerConfig :: ledger_config
  lf_nonceList :: "(int \<times> nat list) list option"
  lf_genesisHash :: bytes
  m_fetchBlockInfoFinished :: bool
  m_fetchConsensusInfoFinished :: bool
  m_fetchObserverInfoFinshed :: bool
  m_fetchBlockTxCountLimitFinished :: bool
  m_fetchNonceListFinished :: bool
  m_fetchGenesisHashFinished :: bool
  m_fetchConsensusLeaderPeriod :: bool

definition new_fetcher :: "ledger_config \<Rightarrow> fetcher" where
  "new_fetcher c =
     \<lparr>lf_ledgerConfig = c, lf_nonceList = None, lf_genesisHash = replicate 32 0, m_fetchBlockInfoFinished = True,
      m_fetchConsensusInfoFinished = True, m_fetchObserverInfoFinshed = True, m_fetchBlockTxCountLimitFinished = True,
      m_fetchNonceListFinished = True, m_fetchGenesisHashFinished = True, m_fetchConsensusLeaderPeriod = True\<rparr>"

definition fetchFinished :: "fetcher \<Rightarrow> bool" where
  "fetchFinished f =
     (m_fetchBlockInfoFinished f \<and> m_fetchConsensusInfoFinished f \<and> m_fetchObserverInfoFinshed f \<and>
      m_fetchBlockTxCountLimitFinished f \<and> m_fetchNonceListFinished f \<and> m_fetchGenesisHashFinished f \<and>
      m_fetchConsensusLeaderPeriod f)"

definition c_maxRetryTime :: nat where "c_maxRetryTime = 5"

text \<open>The functions passed as callbacks to the three shared fetch functions.\<close>

datatype hash_callback = SetBlockHash | SetGenesisHash
datatype value_callback = OnLeaderPeriod | OnBlockTxCountLimit
datatype nodes_callback = OnConsensusList | OnObserverList

datatype request =
  GetBlockNumber nat
| GetBlockHashByNumber int hash_callback nat
| GetSystemConfigByKey string value_callback nat
| GetNodeListByType string nodes_callback nat
| GetNonceList int int nat

type_synonym fetch_result = "fetcher \<times> request list"

definition CONSENSUS_SEALER :: string where "CONSENSUS_SEALER = ''consensus_sealer''"
definition CONSENSUS_OBSERVER :: string where "CONSENSUS_OBSERVER = ''consensus_observer''"
definition SYSTEM_KEY_TX_COUNT_LIMIT :: string where "SYSTEM_KEY_TX_COUNT_LIMIT = ''tx_count_limit''"
definition SYSTEM_KEY_CONSENSUS_LEADER_PERIOD :: string where
  "SYSTEM_KEY_CONSENSUS_LEADER_PERIOD = ''consensus_leader_period''"

section \<open>Calls\<close>

definition fetchBlockHash :: "int \<Rightarrow> hash_callback \<Rightarrow> nat \<Rightarrow> fetcher \<Rightarrow> fetch_result" where
  "fetchBlockHash n cb t f = (f, [GetBlockHashByNumber n cb t])"

definition fetchSystemConfig :: "string \<Rightarrow> value_callback \<Rightarrow> nat \<Rightarrow> fetcher \<Rightarrow> fetch_result" where
  "fetchSystemConfig key cb t f = (f, [GetSystemConfigByKey key cb t])"

definition fetchNodeListByNodeType :: "string \<Rightarrow> nodes_callback \<Rightarrow> nat \<Rightarrow> fetcher \<Rightarrow> fetch_result" where
  "fetchNodeListByNodeType ty cb t f = (f, [GetNodeListByType ty cb t])"

definition fetchBlockNumberAndHash :: "nat \<Rightarrow> fetcher \<Rightarrow> fetch_result" where
  "fetchBlockNumberAndHash t f = (f\<lparr>m_fetchBlockInfoFinished := False\<rparr>, [GetBlockNumber t])"

definition fetchGenesisHash :: "fetcher \<Rightarrow> fetch_result" where
  "fetchGenesisHash f = fetchBlockHash 0 SetGenesisHash 0 (f\<lparr>m_fetchGenesisHashFinished := False\<rparr>)"

definition fetchConsensusNodeList :: "fetcher \<Rightarrow> fetch_result" where
  "fetchConsensusNodeList f =
     fetchNodeListByNodeType CONSENSUS_SEALER OnConsensusList 0 (f\<lparr>m_fetchConsensusInfoFinished := False\<rparr>)"

definition fetchObserverNodeList :: "fetcher \<Rightarrow> fetch_result" where
  "fetchObserverNodeList f =
     fetchNodeListByNodeType CONSENSUS_OBSERVER OnObserverList 0 (f\<lparr>m_fetchObserverInfoFinshed := False\<rparr>)"

definition fetchConsensusLeaderPeriod :: "fetcher \<Rightarrow> fetch_result" where
  "fetchConsensusLeaderPeriod f =
     fetchSystemConfig SYSTEM_KEY_CONSENSUS_LEADER_PERIOD OnLeaderPeriod 0 (f\<lparr>m_fetchConsensusLeaderPeriod := False\<rparr>)"

definition fetchBlockTxCountLimit :: "fetcher \<Rightarrow> fetch_result" where
  "fetchBlockTxCountLimit f =
     fetchSystemConfig SYSTEM_KEY_TX_COUNT_LIMIT OnBlockTxCountLimit 0 (f\<lparr>m_fetchBlockTxCountLimitFinished := False\<rparr>)"

definition fetchNonceList :: "int \<Rightarrow> int \<Rightarrow> nat \<Rightarrow> fetcher \<Rightarrow> fetch_result" where
  "fetchNonceList start offset t f = (f\<lparr>m_fetchNonceListFinished := False\<rparr>, [GetNonceList start offset t])"

section \<open>Answers\<close>

definition onBlockNumber :: "nat \<Rightarrow> error + int \<Rightarrow> fetcher \<Rightarrow> fetch_result" where
  "onBlockNumber t r f =
     (case r of
        Inr n \<Rightarrow> fetchBlockHash n SetBlockHash 0 (f\<lparr>lf_ledgerConfig := setBlockNumber n (lf_ledgerConfig f)\<rparr>)
      | Inl _ \<Rightarrow> if t \<ge> c_maxRetryTime then (f, []) else fetchBlockNumberAndHash (t + 1) f)"

fun hash_received :: "hash_callback \<Rightarrow> bytes \<Rightarrow> fetcher \<Rightarrow> fetcher" where
  "hash_received SetBlockHash h f =
     f\<lparr>lf_ledgerConfig := lc_setHash h (lf_ledgerConfig f), m_fetchBlockInfoFinished := True\<rparr>"
| "hash_received SetGenesisHash h f = f\<lparr>lf_genesisHash := h, m_fetchGenesisHashFinished := True\<rparr>"

definition onBlockHash :: "int \<Rightarrow> hash_callback \<Rightarrow> nat \<Rightarrow> error + bytes \<Rightarrow> fetcher \<Rightarrow> fetch_result" where
  "onBlockHash n cb t r f =
     (case r of
        Inr h \<Rightarrow> (hash_received cb h f, [])
      | Inl _ \<Rightarrow> if t \<ge> c_maxRetryTime then (f, []) else fetchBlockHash n cb (t + 1) f)"

text \<open>A value that does not convert raises; the exception is caught and logged, and the flag stays.\<close>

fun value_received :: "(string \<Rightarrow> nat option) \<Rightarrow> value_callback \<Rightarrow> string \<Rightarrow> fetcher \<Rightarrow> fetcher" where
  "value_received uint64 OnLeaderPeriod v f =
     (case uint64 v of
        None \<Rightarrow> f
      | Some n \<Rightarrow> f\<lparr>lf_ledgerConfig := setLeaderSwitchPeriod n (lf_ledgerConfig f), m_fetchConsensusLeaderPeriod := True\<rparr>)"
| "value_received uint64 OnBlockTxCountLimit v f =
     (case uint64 v of
        None \<Rightarrow> f
      | Some n \<Rightarrow> f\<lparr>lf_ledgerConfig := setBlockTxCountLimit n (lf_ledgerConfig f), m_fetchBlockTxCountLimitFinished := True\<rparr>)"

definition onSystemConfig ::
    "(string \<Rightarrow> nat option) \<Rightarrow> string \<Rightarrow> value_callback \<Rightarrow> nat \<Rightarrow> error + string \<Rightarrow> fetcher \<Rightarrow> fetch_result" where
  "onSystemConfig uint64 key cb t r f =
     (case r of
        Inr v \<Rightarrow> (value_received uint64 cb v f, [])
      | Inl _ \<Rightarrow> if t \<ge> c_maxRetryTime then (f, []) else fetchSystemConfig key cb (t + 1) f)"

fun nodes_received :: "nodes_callback \<Rightarrow> consensus_node list \<Rightarrow> fetcher \<Rightarrow> fetcher" where
  "nodes_received OnConsensusList ns f =
     f\<lparr>lf_ledgerConfig := setConsensusNodeList ns (lf_ledgerConfig f), m_fetchConsensusInfoFinished := True\<rparr>"
| "nodes_received OnObserverList ns f =
     f\<lparr>lf_ledgerConfig := setObserverNodeList ns (lf_ledgerConfig f), m_fetchObserverInfoFinshed := True\<rparr>"

definition onNodeList ::
    "string \<Rightarrow> nodes_callback \<Rightarrow> nat \<Rightarrow> error + consensus_node list \<Rightarrow> fetcher \<Rightarrow> fetch_result" where
  "onNodeList ty cb t r f =
     (case r of
        Inr ns \<Rightarrow> (nodes_received cb ns f, [])
      | Inl _ \<Rightarrow> if t \<ge> c_maxRetryTime then (f, []) else fetchNodeListByNodeType ty cb (t + 1) f)"

definition onNonceList ::
    "int \<Rightarrow> int \<Rightarrow> nat \<Rightarrow> error + (int \<times> nat list) list \<Rightarrow> fetcher \<Rightarrow> fetch_result" where
  "onNonceList start offset t r f =
     (case r of
        Inr ns \<Rightarrow> (f\<lparr>lf_nonceList := Some ns, m_fetchNonceListFinished := True\<rparr>, [])
      | Inl _ \<Rightarrow> if t \<ge> c_maxRetryTime then (f, []) else fetchNonceList start offset (t + 1) f)"

section \<open>Waiting\<close>

text \<open>
  The loop of \<^verbatim>\<open>waitFetchFinished\<close>.  Each pass reads the clock and then the flags; the passes
  are given as the list of these readings.  \<^term>\<open>None\<close> is a loop that has not ended.
\<close>

datatype fetch_error = LedgerConfigFetcherException

fun wait_loop :: "64 word \<Rightarrow> 64 word \<Rightarrow> (64 word \<times> bool) list \<Rightarrow> (fetch_error + unit) option" where
  "wait_loop timeout startT [] = None"
| "wait_loop timeout startT ((now, finished) # passes) =
     (if now - startT < timeout
      then (if finished then Some (Inr ()) else wait_loop timeout startT passes)
      else Some (Inl LedgerConfigFetcherException))"

definition waitFetchFinished :: "64 word \<Rightarrow> (64 word \<times> bool) list \<Rightarrow> (fetch_error + unit) option" where
  "waitFetchFinished startT passes = wait_loop 10000 startT passes"

section \<open>Calls, answers and their order\<close>

text \<open>
  A ledger: what it answers when it does not fail.  A step is a call of one of the public
  operations, or the answer, right or an error, to one of the pending requests.
\<close>

record ledger =
  ld_number :: int
  ld_hash :: "int \<Rightarrow> bytes"
  ld_config :: "string \<Rightarrow> string"
  ld_nodes :: "string \<Rightarrow> consensus_node list"
  ld_nonces :: "int \<Rightarrow> int \<Rightarrow> (int \<times> nat list) list"

fun answer :: "(string \<Rightarrow> nat option) \<Rightarrow> ledger \<Rightarrow> bool \<Rightarrow> request \<Rightarrow> fetcher \<Rightarrow> fetch_result" where
  "answer u L ok (GetBlockNumber t) f =
     onBlockNumber t (if ok then Inr (ld_number L) else Inl (Error (- 1) [] None)) f"
| "answer u L ok (GetBlockHashByNumber n cb t) f =
     onBlockHash n cb t (if ok then Inr (ld_hash L n) else Inl (Error (- 1) [] None)) f"
| "answer u L ok (GetSystemConfigByKey key cb t) f =
     onSystemConfig u key cb t (if ok then Inr (ld_config L key) else Inl (Error (- 1) [] None)) f"
| "answer u L ok (GetNodeListByType ty cb t) f =
     onNodeList ty cb t (if ok then Inr (ld_nodes L ty) else Inl (Error (- 1) [] None)) f"
| "answer u L ok (GetNonceList start offset t) f =
     onNonceList start offset t (if ok then Inr (ld_nonces L start offset) else Inl (Error (- 1) [] None)) f"

datatype fetch_op =
  FetchBlockInfo | FetchGenesis | FetchConsensus | FetchObserver | FetchLeaderPeriod | FetchTxLimit | FetchNonces int int

fun call :: "fetch_op \<Rightarrow> fetcher \<Rightarrow> fetch_result" where
  "call FetchBlockInfo f = fetchBlockNumberAndHash 0 f"
| "call FetchGenesis f = fetchGenesisHash f"
| "call FetchConsensus f = fetchConsensusNodeList f"
| "call FetchObserver f = fetchObserverNodeList f"
| "call FetchLeaderPeriod f = fetchConsensusLeaderPeriod f"
| "call FetchTxLimit f = fetchBlockTxCountLimit f"
| "call (FetchNonces start offset) f = fetchNonceList start offset 0 f"

datatype fetch_event = Call fetch_op | Answer nat bool

fun fetch_step :: "(string \<Rightarrow> nat option) \<Rightarrow> ledger \<Rightarrow> fetch_event \<Rightarrow> fetch_result \<Rightarrow> fetch_result \<Rightarrow> bool" where
  "fetch_step u L (Call op) s s' =
     (s' = (let (f, new) = call op (fst s) in (f, snd s @ new)))"
| "fetch_step u L (Answer i ok) s s' =
     (i < length (snd s) \<and>
      s' = (let (f, new) = answer u L ok (snd s ! i) (fst s) in
            (f, take i (snd s) @ drop (Suc i) (snd s) @ new)))"

end
