(* ===== verification/Ledger_Fetcher_Props.thy ===== *)
theory Ledger_Fetcher_Props
  imports Ledger_Fetcher
begin

text \<open>
  Correctness of fetching the ledger configuration: the retries are bounded, a ledger that
  answers makes every fetch finish with the values of the ledger in whatever order the
  answers come, a ledger that only fails never does, and waiting ends.
\<close>

lemmas fetch_defs = fetchBlockNumberAndHash_def fetchGenesisHash_def fetchBlockHash_def fetchSystemConfig_def
  fetchNodeListByNodeType_def fetchConsensusNodeList_def fetchObserverNodeList_def fetchConsensusLeaderPeriod_def
  fetchBlockTxCountLimit_def fetchNonceList_def
lemmas answer_defs = onBlockNumber_def onBlockHash_def onSystemConfig_def onNodeList_def onNonceList_def
lemmas config_defs = setBlockNumber_def lc_setHash_def setLeaderSwitchPeriod_def setBlockTxCountLimit_def
  setConsensusNodeList_def setObserverNodeList_def

section \<open>Retries\<close>

text \<open>How many answers a pending request can still consume.\<close>

fun cost :: "request \<Rightarrow> nat" where
  "cost (GetBlockNumber t) = Suc (5 - t) + 6"
| "cost (GetBlockHashByNumber n cb t) = Suc (5 - t)"
| "cost (GetSystemConfigByKey key cb t) = Suc (5 - t)"
| "cost (GetNodeListByType ty cb t) = Suc (5 - t)"
| "cost (GetNonceList start offset t) = Suc (5 - t)"

definition total_cost :: "fetch_result \<Rightarrow> nat" where
  "total_cost s = sum_list (map cost (snd s))"

lemma answer_cost: "sum_list (map cost (snd (answer u L ok q f))) < cost q"
  by (cases q) (auto simp: answer_defs fetch_defs c_maxRetryTime_def)

lemma call_cost: "sum_list (map cost (snd (call op f))) \<le> 12"
  by (cases op) (simp_all add: fetch_defs)

definition answers :: "fetch_event list \<Rightarrow> nat" where
  "answers ls = length (filter (\<lambda>l. \<exists>i ok. l = Answer i ok) ls)"

definition calls :: "fetch_event list \<Rightarrow> nat" where
  "calls ls = length (filter (\<lambda>l. \<exists>op. l = Call op) ls)"

lemma step_cost:
  assumes "fetch_step u L l s s'"
  shows "answers [l] + total_cost s' \<le> total_cost s + 12 * calls [l]"
proof (cases l)
  case (Call op)
  then show ?thesis using assms call_cost [of op "fst s"]
    by (auto simp: answers_def calls_def total_cost_def case_prod_unfold Let_def)
next
  case (Answer i ok)
  then have i: "i < length (snd s)" and s': "snd s' = take i (snd s) @ drop (Suc i) (snd s) @ snd (answer u L ok (snd s ! i) (fst s))"
    using assms by (auto simp: case_prod_unfold Let_def)
  have "snd s = take i (snd s) @ snd s ! i # drop (Suc i) (snd s)" using i by (rule id_take_nth_drop)
  then have "total_cost s = sum_list (map cost (take i (snd s))) + cost (snd s ! i) + sum_list (map cost (drop (Suc i) (snd s)))"
    unfolding total_cost_def by (metis map_append sum_list_append list.simps(9) sum_list.Cons add.assoc)
  then show ?thesis using Answer answer_cost [of u L ok "snd s ! i" "fst s"]
    by (simp add: total_cost_def s' answers_def calls_def)
qed

lemma run_cost:
  "run (fetch_step u L) s ls s' \<Longrightarrow> answers ls + total_cost s' \<le> total_cost s + 12 * calls ls"
proof (induction rule: run.induct)
  case (run_cons l s1 s2 ls s3)
  have "answers (l # ls) = answers [l] + answers ls" "calls (l # ls) = calls [l] + calls ls"
    by (simp_all add: answers_def calls_def)
  then show ?case using step_cost [OF run_cons(1)] run_cons by simp
qed (simp add: answers_def calls_def)

text \<open>
  C34: retries are bounded: however the ledger answers and in whatever order, the ledger
  calls answered and pending are in total at most twelve times the fetches called.
\<close>

theorem fetch_calls_bounded:
  assumes "run (fetch_step u L) (new_fetcher c, []) ls s"
  shows "answers ls + length (snd s) \<le> 12 * calls ls"
proof -
  have "length qs \<le> sum_list (map cost qs)" for qs
  proof (induction qs)
    case (Cons q qs)
    have "1 \<le> cost q" by (cases q) simp_all
    then show ?case using Cons by simp
  qed simp
  then show ?thesis using run_cost [OF assms] by (simp add: total_cost_def) (meson add_le_mono1 le_trans nat_add_left_cancel_le)
qed


text \<open>The run of one block-information fetch whose every answer but the last is an error.\<close>

definition sample_ledger :: ledger where
  "sample_ledger =
     \<lparr>ld_number = 7, ld_hash = (\<lambda>n. if n = 7 then [7] else [1]), ld_config = (\<lambda>key. ''1000''),
      ld_nodes = (\<lambda>ty. []), ld_nonces = (\<lambda>start offset. [(start, [5])])\<rparr>"

lemma run_event: "fetch_step u L l s s' \<Longrightarrow> run (fetch_step u L) s' ls s'' \<Longrightarrow> run (fetch_step u L) s (l # ls) s''"
  by (rule run.run_cons)

theorem fetch_calls_bounded_witness:
  "\<exists>s. run (fetch_step (\<lambda>v. None) sample_ledger) (new_fetcher (new_ledger_config 0 0), [])
      [Call FetchBlockInfo, Answer 0 False, Answer 0 True, Answer 0 True] s \<and>
    answers [Call FetchBlockInfo, Answer 0 False, Answer 0 True, Answer 0 True] + length (snd s) \<le> 12"
proof -
  let ?ls = "[Call FetchBlockInfo, Answer 0 False, Answer 0 True, Answer 0 True]"
  obtain s where r: "run (fetch_step (\<lambda>v. None) sample_ledger) (new_fetcher (new_ledger_config 0 0), []) ?ls s"
    by (force intro: run_event run.run_nil simp: answer_defs fetch_defs c_maxRetryTime_def)
  then show ?thesis using fetch_calls_bounded [OF r] by (intro exI [of _ s]) (simp add: calls_def)
qed

section \<open>Finished means fetched\<close>

fun finished :: "fetch_op \<Rightarrow> fetcher \<Rightarrow> bool" where
  "finished FetchBlockInfo f = m_fetchBlockInfoFinished f"
| "finished FetchGenesis f = m_fetchGenesisHashFinished f"
| "finished FetchConsensus f = m_fetchConsensusInfoFinished f"
| "finished FetchObserver f = m_fetchObserverInfoFinshed f"
| "finished FetchLeaderPeriod f = m_fetchConsensusLeaderPeriod f"
| "finished FetchTxLimit f = m_fetchBlockTxCountLimitFinished f"
| "finished (FetchNonces start offset) f = m_fetchNonceListFinished f"

text \<open>What a finished fetch has stored.\<close>

fun fetched :: "(string \<Rightarrow> nat option) \<Rightarrow> ledger \<Rightarrow> fetch_op \<Rightarrow> fetcher \<Rightarrow> bool" where
  "fetched u L FetchBlockInfo f =
     (lc_blockNumber (lf_ledgerConfig f) = ld_number L \<and> lc_hash (lf_ledgerConfig f) = ld_hash L (ld_number L))"
| "fetched u L FetchGenesis f = (lf_genesisHash f = ld_hash L 0)"
| "fetched u L FetchConsensus f = (lc_consensusNodeList (lf_ledgerConfig f) = ld_nodes L CONSENSUS_SEALER)"
| "fetched u L FetchObserver f = (lc_observerNodeList (lf_ledgerConfig f) = ld_nodes L CONSENSUS_OBSERVER)"
| "fetched u L FetchLeaderPeriod f =
     (u (ld_config L SYSTEM_KEY_CONSENSUS_LEADER_PERIOD) = Some (lc_leaderSwitchPeriod (lf_ledgerConfig f)))"
| "fetched u L FetchTxLimit f =
     (u (ld_config L SYSTEM_KEY_TX_COUNT_LIMIT) = Some (lc_blockTxCountLimit (lf_ledgerConfig f)))"
| "fetched u L (FetchNonces start offset) f = (lf_nonceList f = Some (ld_nonces L start offset))"

text \<open>The operation a pending request belongs to, with the arguments that operation gives it.\<close>

fun serves :: "ledger \<Rightarrow> fetch_op \<Rightarrow> request \<Rightarrow> bool" where
  "serves L FetchBlockInfo q = (case q of GetBlockNumber t \<Rightarrow> True | GetBlockHashByNumber n cb t \<Rightarrow> n = ld_number L \<and> cb = SetBlockHash | _ \<Rightarrow> False)"
| "serves L FetchGenesis q = (case q of GetBlockHashByNumber n cb t \<Rightarrow> n = 0 \<and> cb = SetGenesisHash | _ \<Rightarrow> False)"
| "serves L FetchConsensus q = (case q of GetNodeListByType ty cb t \<Rightarrow> ty = CONSENSUS_SEALER \<and> cb = OnConsensusList | _ \<Rightarrow> False)"
| "serves L FetchObserver q = (case q of GetNodeListByType ty cb t \<Rightarrow> ty = CONSENSUS_OBSERVER \<and> cb = OnObserverList | _ \<Rightarrow> False)"
| "serves L FetchLeaderPeriod q = (case q of GetSystemConfigByKey key cb t \<Rightarrow> key = SYSTEM_KEY_CONSENSUS_LEADER_PERIOD \<and> cb = OnLeaderPeriod | _ \<Rightarrow> False)"
| "serves L FetchTxLimit q = (case q of GetSystemConfigByKey key cb t \<Rightarrow> key = SYSTEM_KEY_TX_COUNT_LIMIT \<and> cb = OnBlockTxCountLimit | _ \<Rightarrow> False)"
| "serves L (FetchNonces start offset) q = (case q of GetNonceList st off t \<Rightarrow> st = start \<and> off = offset | _ \<Rightarrow> False)"


definition fetch_ops :: "int \<Rightarrow> int \<Rightarrow> fetch_op set" where
  "fetch_ops start offset =
     {FetchBlockInfo, FetchGenesis, FetchConsensus, FetchObserver, FetchLeaderPeriod, FetchTxLimit, FetchNonces start offset}"

definition convertible :: "(string \<Rightarrow> nat option) \<Rightarrow> ledger \<Rightarrow> bool" where
  "convertible u L =
     (u (ld_config L SYSTEM_KEY_CONSENSUS_LEADER_PERIOD) \<noteq> None \<and> u (ld_config L SYSTEM_KEY_TX_COUNT_LIMIT) \<noteq> None)"

text \<open>The hash of the latest block is only asked for once its number is known.\<close>

definition ready :: "ledger \<Rightarrow> fetcher \<Rightarrow> request \<Rightarrow> bool" where
  "ready L f q =
     (case q of
        GetBlockHashByNumber n cb t \<Rightarrow> cb = SetBlockHash \<longrightarrow> lc_blockNumber (lf_ledgerConfig f) = ld_number L
      | _ \<Rightarrow> True)"

text \<open>
  Each operation called is done with the right value or still has a request; the others
  have their flag set; and the requests are those of operations called.
\<close>

definition fetch_inv :: "(string \<Rightarrow> nat option) \<Rightarrow> ledger \<Rightarrow> int \<Rightarrow> int \<Rightarrow> fetch_op set \<Rightarrow> fetch_result \<Rightarrow> bool" where
  "fetch_inv u L start offset R s =
     ((\<forall>op\<in>R. (finished op (fst s) \<and> fetched u L op (fst s)) \<or> (\<exists>q\<in>set (snd s). serves L op q)) \<and>
      (\<forall>op\<in>fetch_ops start offset - R. finished op (fst s)) \<and>
      (\<forall>q\<in>set (snd s). ready L (fst s) q \<and> (\<exists>op\<in>R. serves L op q)))"

lemma serves_cases:
  assumes "serves L op q"
  obtains t where "op = FetchBlockInfo" "q = GetBlockNumber t"
  | t where "op = FetchBlockInfo" "q = GetBlockHashByNumber (ld_number L) SetBlockHash t"
  | t where "op = FetchGenesis" "q = GetBlockHashByNumber 0 SetGenesisHash t"
  | t where "op = FetchConsensus" "q = GetNodeListByType CONSENSUS_SEALER OnConsensusList t"
  | t where "op = FetchObserver" "q = GetNodeListByType CONSENSUS_OBSERVER OnObserverList t"
  | t where "op = FetchLeaderPeriod" "q = GetSystemConfigByKey SYSTEM_KEY_CONSENSUS_LEADER_PERIOD OnLeaderPeriod t"
  | t where "op = FetchTxLimit" "q = GetSystemConfigByKey SYSTEM_KEY_TX_COUNT_LIMIT OnBlockTxCountLimit t"
  | start offset t where "op = FetchNonces start offset" "q = GetNonceList start offset t"
  using assms by (cases op; cases q) auto

lemma serves_one: "serves L op q \<Longrightarrow> serves L op' q \<Longrightarrow> op' = op"
  by (cases op; cases q; cases op') auto

lemma answer_keeps_fetched:
  assumes "serves L op q" "op \<in> fetch_ops start offset" "op' \<in> fetch_ops start offset"
    "finished op' f" "fetched u L op' f"
  shows "fetched u L op' (fst (answer u L True q f))"
  using assms
  by (cases rule: serves_cases [OF assms(1)]; cases op')
    (auto simp: fetch_ops_def answer_defs fetch_defs config_defs split: option.splits)

lemma answer_keeps_finished:
  assumes "finished op' f"
  shows "finished op' (fst (answer u L True q f))"
proof (cases q)
  case (GetBlockHashByNumber n cb t)
  then show ?thesis using assms by (cases cb; cases op') (simp_all add: answer_defs)
next
  case (GetSystemConfigByKey key cb t)
  then show ?thesis using assms by (cases cb; cases op') (simp_all add: answer_defs split: option.splits)
next
  case (GetNodeListByType ty cb t)
  then show ?thesis using assms by (cases cb; cases op') (simp_all add: answer_defs)
qed (use assms in \<open>cases op'; simp add: answer_defs fetch_defs\<close>)+

lemma answer_serves:
  assumes "serves L op q" "ready L f q" "convertible u L"
  shows "(finished op (fst (answer u L True q f)) \<and> fetched u L op (fst (answer u L True q f)) \<and> snd (answer u L True q f) = []) \<or>
    (\<exists>q'. snd (answer u L True q f) = [q'] \<and> serves L op q' \<and> ready L (fst (answer u L True q f)) q')"
  using assms
  by (cases rule: serves_cases [OF assms(1)])
    (auto simp: answer_defs fetch_defs config_defs convertible_def ready_def split: option.splits)


lemma answer_keeps_number:
  assumes "lc_blockNumber (lf_ledgerConfig f) = ld_number L"
  shows "lc_blockNumber (lf_ledgerConfig (fst (answer u L True q f))) = ld_number L"
proof (cases q)
  case (GetBlockHashByNumber n cb t)
  then show ?thesis using assms by (cases cb) (simp_all add: answer_defs config_defs)
next
  case (GetSystemConfigByKey key cb t)
  then show ?thesis using assms by (cases cb) (simp_all add: answer_defs config_defs split: option.splits)
next
  case (GetNodeListByType ty cb t)
  then show ?thesis using assms by (cases cb) (simp_all add: answer_defs config_defs)
qed (use assms in \<open>simp_all add: answer_defs fetch_defs config_defs\<close>)

lemma answer_keeps_ready:
  assumes "ready L f q'"
  shows "ready L (fst (answer u L True q f)) q'"
  using assms answer_keeps_number [of f L u q] by (cases q') (auto simp: ready_def)


lemma call_effect:
  assumes "op \<in> fetch_ops start offset"
  shows "\<exists>q. snd (call op f) = [q] \<and> serves L op q \<and> ready L (fst (call op f)) q"
    and "ready L (fst (call op f)) q' = ready L f q'"
    and "op' \<in> fetch_ops start offset \<Longrightarrow> op' \<noteq> op \<Longrightarrow> finished op' (fst (call op f)) = finished op' f"
    and "fetched u L op' (fst (call op f)) = fetched u L op' f"
    and "\<not> finished op (fst (call op f))"
proof -
  show "\<exists>q. snd (call op f) = [q] \<and> serves L op q \<and> ready L (fst (call op f)) q"
    by (cases op) (simp_all add: fetch_defs ready_def)
  have same: "lf_ledgerConfig (fst (call op f)) = lf_ledgerConfig f" "lf_nonceList (fst (call op f)) = lf_nonceList f"
      "lf_genesisHash (fst (call op f)) = lf_genesisHash f"
    by (cases op; simp add: fetch_defs)+
  show "ready L (fst (call op f)) q' = ready L f q'" by (cases q') (simp_all add: ready_def same)
  show "fetched u L op' (fst (call op f)) = fetched u L op' f" by (cases op') (simp_all add: same)
  show "\<not> finished op (fst (call op f))" by (cases op) (simp_all add: fetch_defs)
  show "op' \<in> fetch_ops start offset \<Longrightarrow> op' \<noteq> op \<Longrightarrow> finished op' (fst (call op f)) = finished op' f"
    using assms by (cases op; cases op') (auto simp: fetch_ops_def fetch_defs)
qed

definition called :: "fetch_event list \<Rightarrow> fetch_op set" where
  "called ls = {op. Call op \<in> set ls}"

lemma fetch_inv_call:
  assumes inv: "fetch_inv u L start offset R s" and op: "op \<in> fetch_ops start offset" and R: "R \<subseteq> fetch_ops start offset"
    and st: "fetch_step u L (Call op) s s'"
  shows "fetch_inv u L start offset (insert op R) s'"
proof -
  obtain q where q: "snd (call op (fst s)) = [q]" "serves L op q" "ready L (fst (call op (fst s))) q"
    using call_effect(1) [OF op] by blast
  have s': "fst s' = fst (call op (fst s))" "snd s' = snd s @ [q]"
    using st q(1) by (simp_all add: case_prod_unfold Let_def)
  show ?thesis
    unfolding fetch_inv_def s'
  proof (intro conjI ballI)
    fix op' assume "op' \<in> insert op R"
    then show "finished op' (fst (call op (fst s))) \<and> fetched u L op' (fst (call op (fst s))) \<or>
        (\<exists>q\<in>set (snd s @ [q]). serves L op' q)"
      using inv q(2) call_effect(3) [OF op, of op'] call_effect(4) [OF op, of u L op'] R
      by (cases "op' = op") (auto simp: fetch_inv_def)
  next
    fix op' assume "op' \<in> fetch_ops start offset - insert op R"
    then show "finished op' (fst (call op (fst s)))"
      using inv call_effect(3) [OF op, of op'] by (simp add: fetch_inv_def)
  next
    fix q' assume "q' \<in> set (snd s @ [q])"
    then show "ready L (fst (call op (fst s))) q'" "\<exists>op'\<in>insert op R. serves L op' q'"
      using inv q(2,3) call_effect(2) [OF op, of L "fst s" q'] by (auto simp: fetch_inv_def)
  qed
qed

lemma fetch_inv_answer:
  assumes inv: "fetch_inv u L start offset R s" and R: "R \<subseteq> fetch_ops start offset" and u: "convertible u L"
    and st: "fetch_step u L (Answer i True) s s'"
  shows "fetch_inv u L start offset R s'"
proof -
  define q where "q = snd s ! i"
  have i: "i < length (snd s)" and s': "fst s' = fst (answer u L True q (fst s))"
      "snd s' = take i (snd s) @ drop (Suc i) (snd s) @ snd (answer u L True q (fst s))"
    using st by (simp_all add: q_def case_prod_unfold Let_def)
  have "snd s = take i (snd s) @ q # drop (Suc i) (snd s)" unfolding q_def using i by (rule id_take_nth_drop)
  then have rest: "set (snd s) = insert q (set (take i (snd s)) \<union> set (drop (Suc i) (snd s)))"
    by (metis Un_insert_right list.simps(15) set_append)
  then have q: "ready L (fst s) q" and "\<exists>op\<in>R. serves L op q" using inv by (auto simp: fetch_inv_def)
  then obtain op0 where op0: "op0 \<in> R" "serves L op0 q" by blast
  have eff: "finished op0 (fst s') \<and> fetched u L op0 (fst s') \<and> snd (answer u L True q (fst s)) = [] \<or>
      (\<exists>q'. snd (answer u L True q (fst s)) = [q'] \<and> serves L op0 q' \<and> ready L (fst s') q')"
    using answer_serves [OF op0(2) q u] by (simp add: s'(1))
  show ?thesis
    unfolding fetch_inv_def
  proof (intro conjI ballI)
    fix op assume op: "op \<in> R"
    show "finished op (fst s') \<and> fetched u L op (fst s') \<or> (\<exists>q\<in>set (snd s'). serves L op q)"
    proof (cases "op = op0")
      case False
      then have "finished op (fst s) \<and> fetched u L op (fst s) \<or>
          (\<exists>q'\<in>set (take i (snd s)) \<union> set (drop (Suc i) (snd s)). serves L op q')"
        using inv op rest serves_one [OF op0(2), of op] by (auto simp: fetch_inv_def)
      then show ?thesis
        using answer_keeps_fetched [OF op0(2)] answer_keeps_finished op op0(1) R s' by fastforce
    qed (use eff s'(2) in auto)
  next
    fix op assume "op \<in> fetch_ops start offset - R"
    then show "finished op (fst s')" using inv answer_keeps_finished s'(1) by (simp add: fetch_inv_def)
  next
    fix q' assume "q' \<in> set (snd s')"
    then have "q' \<in> set (snd s) \<or> q' \<in> set (snd (answer u L True q (fst s)))" using rest s'(2) by auto
    then show "ready L (fst s') q'" "\<exists>op\<in>R. serves L op q'"
      using inv eff op0(1) answer_keeps_ready [of L "fst s" q' u q] s'(1) by (auto simp: fetch_inv_def)
  qed
qed


lemma fetch_inv_run:
  assumes "run (fetch_step u L) s ls s'" "fetch_inv u L start offset R s" "R \<union> called ls \<subseteq> fetch_ops start offset"
    "convertible u L" "\<forall>i ok. Answer i ok \<in> set ls \<longrightarrow> ok"
  shows "fetch_inv u L start offset (R \<union> called ls) s'"
  using assms
proof (induction arbitrary: R rule: run.induct)
  case (run_cons l s1 s2 ls s3)
  show ?case
  proof (cases l)
    case (Call op)
    then have "called (l # ls) = insert op (called ls)" by (auto simp: called_def)
    moreover have "fetch_inv u L start offset (insert op R) s2"
      using fetch_inv_call [of u L start offset R s1 op s2] run_cons.hyps run_cons.prems Call calculation by auto
    ultimately show ?thesis using run_cons.IH [of "insert op R"] run_cons.prems by auto
  next
    case (Answer i ok)
    then have "called (l # ls) = called ls" by (auto simp: called_def)
    moreover have ok using run_cons.prems(4) Answer by auto
    then have "fetch_inv u L start offset R s2"
      using fetch_inv_answer [of u L start offset R s1 i s2] run_cons.hyps(1) run_cons.prems(1,2,3) Answer by simp
    ultimately show ?thesis using run_cons.IH [of R] run_cons.prems by auto
  qed
qed (simp add: called_def)

lemma fetch_inv_new: "fetch_inv u L start offset {} (new_fetcher c, [])"
  by (simp add: fetch_inv_def new_fetcher_def fetch_ops_def)

lemma fetchFinished_iff: "fetchFinished f = (\<forall>op\<in>fetch_ops start offset. finished op f)"
  by (auto simp: fetchFinished_def fetch_ops_def)

text \<open>
  C21: fetched configuration: for any calls of the fetch operations against a ledger that
  answers every request without error and whose system values convert to numbers, in any
  order and interleaving, the fetches of nonces all for one range of blocks, once no request
  is pending the fetcher reports that it has finished, and the configuration, genesis hash
  and nonces hold what the ledger holds for every operation called.
\<close>

theorem fetched_configuration_correct:
  assumes "run (fetch_step u L) (new_fetcher c, []) ls (f, [])" "called ls \<subseteq> fetch_ops start offset"
    "convertible u L" "\<forall>i ok. Answer i ok \<in> set ls \<longrightarrow> ok"
  shows "fetchFinished f \<and> (\<forall>op\<in>called ls. fetched u L op f)"
proof -
  have "fetch_inv u L start offset (called ls) (f, [])"
    using fetch_inv_run [OF assms(1) fetch_inv_new, of start offset] assms by simp
  then show ?thesis unfolding fetchFinished_iff [of f start offset] by (auto simp: fetch_inv_def)
qed

text \<open>The genesis hash is asked for while the block information is still being fetched.\<close>

theorem fetched_configuration_correct_witness:
  "\<exists>f. run (fetch_step (\<lambda>v. Some 1000) sample_ledger) (new_fetcher (new_ledger_config 0 0), [])
      [Call FetchBlockInfo, Call FetchGenesis, Answer 0 True, Answer 1 True, Answer 0 True] (f, []) \<and>
    fetchFinished f \<and> lc_blockNumber (lf_ledgerConfig f) = 7 \<and> lc_hash (lf_ledgerConfig f) = [7] \<and> lf_genesisHash f = [1]"
proof -
  let ?ls = "[Call FetchBlockInfo, Call FetchGenesis, Answer 0 True, Answer 1 True, Answer 0 True]"
  obtain f where r: "run (fetch_step (\<lambda>v. Some 1000) sample_ledger) (new_fetcher (new_ledger_config 0 0), []) ?ls (f, [])"
    by (force intro: run_event run.run_nil simp: answer_defs fetch_defs)
  have c: "called ?ls = {FetchBlockInfo, FetchGenesis}" by (auto simp: called_def)
  have "fetchFinished f \<and> (\<forall>op\<in>called ?ls. fetched (\<lambda>v. Some 1000) sample_ledger op f)"
    by (rule fetched_configuration_correct [OF r, of 0 0]) (auto simp: called_def fetch_ops_def convertible_def)
  with r c show ?thesis by (intro exI [of _ f]) (simp add: sample_ledger_def)
qed

section \<open>A ledger that fails\<close>

lemma error_keeps_unfinished:
  assumes "\<not> finished op f"
  shows "\<not> finished op (fst (answer u L False q f))"
  using assms by (cases q; cases op) (simp_all add: answer_defs fetch_defs)

lemma call_keeps_unfinished:
  assumes "\<not> finished op f"
  shows "\<not> finished op (fst (call op' f))"
  using assms by (cases op'; cases op) (simp_all add: fetch_defs)

lemma call_unfinished: "\<not> finished op (fst (call op f))"
  by (cases op) (simp_all add: fetch_defs)

lemma unfinished_run:
  assumes "run (fetch_step u L) s ls s'" "\<forall>i ok. Answer i ok \<in> set ls \<longrightarrow> \<not> ok"
    "\<not> finished op (fst s) \<or> op \<in> called ls"
  shows "\<not> finished op (fst s')"
  using assms
proof (induction rule: run.induct)
  case (run_cons l s1 s2 ls s3)
  have "\<not> finished op (fst s2) \<or> op \<in> called ls"
  proof (cases l)
    case (Call op')
    then have "fst s2 = fst (call op' (fst s1))" using run_cons.hyps by (simp add: case_prod_unfold Let_def)
    then show ?thesis using run_cons.prems(2) Call call_keeps_unfinished [of op "fst s1"] call_unfinished [of op]
      by (auto simp: called_def)
  next
    case (Answer i ok)
    moreover have "\<not> ok" using run_cons.prems(1) Answer by auto
    ultimately have "fst s2 = fst (answer u L False (snd s1 ! i) (fst s1))"
      using run_cons.hyps(1) by (simp add: case_prod_unfold Let_def)
    then show ?thesis using run_cons.prems(2) Answer error_keeps_unfinished [of op "fst s1"] by (auto simp: called_def)
  qed
  moreover have "\<forall>i ok. Answer i ok \<in> set ls \<longrightarrow> \<not> ok" using run_cons.prems(1) by auto
  ultimately show ?case using run_cons.IH by blast
qed (simp add: called_def)

lemma wait_without_success:
  "\<forall>p\<in>set passes. \<not> snd p \<Longrightarrow> wait_loop timeout startT passes \<in> {None, Some (Inl LedgerConfigFetcherException)}"
  by (induction passes) (auto split: if_splits)

text \<open>
  No false success: against a ledger that answers only with errors, no wait after a
  fetch succeeds: whatever the clock reads, if each pass of the wait sees the state after
  some run that contains the call, the wait is still going on or ends with the exception.
\<close>

theorem failed_fetch_never_finishes:
  assumes "\<forall>(now, fin)\<in>set passes. \<exists>ls s. run (fetch_step u L) (new_fetcher c, []) ls s \<and> called ls \<noteq> {} \<and>
      (\<forall>i ok. Answer i ok \<in> set ls \<longrightarrow> \<not> ok) \<and> fin = fetchFinished (fst s)"
  shows "waitFetchFinished startT passes \<in> {None, Some (Inl LedgerConfigFetcherException)}"
proof -
  have "\<not> fin" if pass: "(now, fin) \<in> set passes" for now fin
  proof -
    obtain ls s op where r: "run (fetch_step u L) (new_fetcher c, []) ls s" "op \<in> called ls"
        "\<forall>i ok. Answer i ok \<in> set ls \<longrightarrow> \<not> ok" "fin = fetchFinished (fst s)"
      using assms pass by blast
    have "\<not> finished op (fst s)" using unfinished_run [OF r(1,3)] r(2) by blast
    then show ?thesis using r(4) by (cases op) (simp_all add: fetchFinished_def)
  qed
  then have "\<forall>p\<in>set passes. \<not> snd p" by (metis prod.collapse)
  then show ?thesis unfolding waitFetchFinished_def by (rule wait_without_success)
qed

theorem failed_fetch_never_finishes_witness:
  "waitFetchFinished 100 [(100, False), (5100, False), (10100, False)] \<in> {None, Some (Inl LedgerConfigFetcherException)}"
proof (rule failed_fetch_never_finishes [where u = "\<lambda>v. None" and L = sample_ledger and c = "new_ledger_config 0 0"])
  have "\<exists>s. run (fetch_step (\<lambda>v. None) sample_ledger) (new_fetcher (new_ledger_config 0 0), [])
      [Call FetchConsensus, Answer 0 False] s \<and> \<not> fetchFinished (fst s)"
    by (force intro: run_event run.run_nil simp: answer_defs fetch_defs c_maxRetryTime_def fetchFinished_def)
  then obtain s where "run (fetch_step (\<lambda>v. None) sample_ledger) (new_fetcher (new_ledger_config 0 0), [])
      [Call FetchConsensus, Answer 0 False] s" "\<not> fetchFinished (fst s)" by blast
  then have "\<exists>ls s. run (fetch_step (\<lambda>v. None) sample_ledger) (new_fetcher (new_ledger_config 0 0), []) ls s \<and>
      called ls \<noteq> {} \<and> (\<forall>i ok. Answer i ok \<in> set ls \<longrightarrow> \<not> ok) \<and> False = fetchFinished (fst s)"
    by (intro exI [of _ "[Call FetchConsensus, Answer 0 False]"] exI [of _ s]) (auto simp: called_def)
  then show "\<forall>(now, fin)\<in>set [(100, False), (5100, False), (10100, False)]. \<exists>ls s.
      run (fetch_step (\<lambda>v. None) sample_ledger) (new_fetcher (new_ledger_config 0 0), []) ls s \<and>
      called ls \<noteq> {} \<and> (\<forall>i ok. Answer i ok \<in> set ls \<longrightarrow> \<not> ok) \<and> fin = fetchFinished (fst s)" by simp
qed

end
