(* ===== verification/Worker_Threads.thy ===== *)
theory Worker_Threads
  imports Bcos_Prelude
begin

text \<open>
  Threads that run a task: \<^verbatim>\<open>libutilities/Worker.{h,cpp}\<close> and \<^verbatim>\<open>libutilities/Timer.{h,cpp}\<close>.  The worker is
  a state machine shared by the worker thread and any number of calling threads.  Every
  write to the state is made under one mutex and a wait on the condition variable releases
  it, so a step of the model is one critical section, one unlocked read of the state, or
  one call of the task; the steps of all threads interleave freely.
\<close>

section \<open>Worker state\<close>

datatype WorkerState = Starting | Started | Stopping | Stopped | Killing

text \<open>Where the worker thread is in its loop, and where a caller is inside an operation.\<close>

datatype thread_pc =
  NoThread | LoopCheck | MarkStarted | InitWorker | ProcessLoop | ExecuteWorker | FinishWorker
| MarkStopped | WaitStopped | Exited

datatype caller_pc = Outside | StartWaiting | StopWaiting | Joining | Resetting | JoinFailed

record worker =
  m_threadName :: string
  m_workerThread :: bool
  m_workerState :: WorkerState
  thread :: thread_pc
  joined :: bool
  callers :: "nat \<Rightarrow> caller_pc"

definition new_worker :: "string \<Rightarrow> worker" where
  "new_worker name =
     \<lparr>m_threadName = name, m_workerThread = False, m_workerState = Starting, thread = NoThread, joined = False,
      callers = (\<lambda>i. Outside)\<rparr>"

definition caller_to :: "nat \<Rightarrow> caller_pc \<Rightarrow> worker \<Rightarrow> worker" where
  "caller_to i pc w = w\<lparr>callers := (callers w)(i := pc)\<rparr>"

section \<open>Operations of the callers\<close>

definition isWorking :: "worker \<Rightarrow> bool" where
  "isWorking w = (m_workerState w = Started)"

definition shouldStop :: "worker \<Rightarrow> bool" where
  "shouldStop w = (m_workerState w \<noteq> Started)"

definition setName :: "string \<Rightarrow> worker \<Rightarrow> worker" where
  "setName name w = (if \<not> isWorking w then w\<lparr>m_threadName := name\<rparr> else w)"

text \<open>\<^verbatim>\<open>startWorking\<close> up to its wait, and the end of the wait.\<close>

definition startWorking :: "nat \<Rightarrow> worker \<Rightarrow> worker" where
  "startWorking i w =
     caller_to i StartWaiting
       (if m_workerThread w
        then (if m_workerState w = Stopped then w\<lparr>m_workerState := Starting\<rparr> else w)
        else w\<lparr>m_workerState := Starting, m_workerThread := True, thread := LoopCheck\<rparr>)"

definition start_returns :: "worker \<Rightarrow> bool" where
  "start_returns w = (m_workerState w \<noteq> Starting)"

text \<open>\<^verbatim>\<open>stopWorking\<close> up to its wait, and the end of the wait.\<close>

definition stopWorking :: "nat \<Rightarrow> worker \<Rightarrow> worker" where
  "stopWorking i w =
     (if m_workerThread w
      then (if m_workerState w = Started then caller_to i StopWaiting (w\<lparr>m_workerState := Stopping\<rparr>) else w)
      else w)"

definition stop_returns :: "worker \<Rightarrow> bool" where
  "stop_returns w = (m_workerState w = Stopped)"

text \<open>
  \<^verbatim>\<open>terminate\<close> up to the call of \<^verbatim>\<open>join\<close>; \<^verbatim>\<open>join\<close> returns when the thread has exited, and is
  an error on a thread that is gone or already joined; then the pointer is reset.
\<close>

definition terminate :: "nat \<Rightarrow> worker \<Rightarrow> worker" where
  "terminate i w =
     (if m_workerThread w
      then (if m_workerState w = Killing then w else caller_to i Joining (w\<lparr>m_workerState := Killing\<rparr>))
      else w)"

definition join_thread :: "nat \<Rightarrow> worker \<Rightarrow> worker option" where
  "join_thread i w =
     (if joined w \<or> thread w = NoThread then Some (caller_to i JoinFailed w)
      else if thread w = Exited then Some (caller_to i Resetting (w\<lparr>joined := True\<rparr>))
      else None)"

definition reset_thread :: "nat \<Rightarrow> worker \<Rightarrow> worker" where
  "reset_thread i w = caller_to i Outside (w\<lparr>m_workerThread := False, thread := NoThread, joined := False\<rparr>)"

section \<open>The worker thread\<close>

text \<open>One step of the thread; \<^term>\<open>None\<close> when it waits or is gone.\<close>

definition thread_step :: "worker \<Rightarrow> worker option" where
  "thread_step w =
     (case thread w of
        NoThread \<Rightarrow> None
      | LoopCheck \<Rightarrow> Some (w\<lparr>thread := (if m_workerState w \<noteq> Killing then MarkStarted else Exited)\<rparr>)
      | MarkStarted \<Rightarrow> Some (w\<lparr>m_workerState := Started, thread := InitWorker\<rparr>)
      | InitWorker \<Rightarrow> Some (w\<lparr>thread := ProcessLoop\<rparr>)
      | ProcessLoop \<Rightarrow> Some (w\<lparr>thread := (if m_workerState w = Started then ExecuteWorker else FinishWorker)\<rparr>)
      | ExecuteWorker \<Rightarrow> Some (w\<lparr>thread := ProcessLoop\<rparr>)
      | FinishWorker \<Rightarrow> Some (w\<lparr>thread := MarkStopped\<rparr>)
      | MarkStopped \<Rightarrow>
          (let ex = m_workerState w;
               w1 = w\<lparr>m_workerState := Stopped\<rparr>;
               w2 = (if ex = Killing \<or> ex = Starting then w1\<lparr>m_workerState := ex\<rparr> else w1)
           in Some (w2\<lparr>thread := WaitStopped\<rparr>))
      | WaitStopped \<Rightarrow> if m_workerState w = Stopped then None else Some (w\<lparr>thread := LoopCheck\<rparr>)
      | Exited \<Rightarrow> None)"

text \<open>
  An exception thrown by one of the three functions of the task: one derived from
  \<^verbatim>\<open>std::exception\<close> is caught and logged; any other leaves the thread's function, which
  ends the process (\<^verbatim>\<open>std::terminate\<close>), so that no step of any thread follows.
\<close>

datatype task_exception = StdException | OtherException

definition task_throws :: "task_exception \<Rightarrow> worker \<Rightarrow> worker option" where
  "task_throws e w =
     (if thread w \<in> {InitWorker, ExecuteWorker, FinishWorker}
      then (case e of StdException \<Rightarrow> Some (w\<lparr>thread := MarkStopped\<rparr>) | OtherException \<Rightarrow> None)
      else None)"

section \<open>Interleaving\<close>

datatype worker_event =
  StartWorking nat | StartReturn nat | StopWorking nat | StopReturn nat | Terminate nat | Join nat | Reset nat
| SetName string | WorkerStep | WorkerThrow task_exception

fun worker_step :: "worker_event \<Rightarrow> worker \<Rightarrow> worker \<Rightarrow> bool" where
  "worker_step (StartWorking i) w w' = (callers w i = Outside \<and> w' = startWorking i w)"
| "worker_step (StartReturn i) w w' = (callers w i = StartWaiting \<and> start_returns w \<and> w' = caller_to i Outside w)"
| "worker_step (StopWorking i) w w' = (callers w i = Outside \<and> w' = stopWorking i w)"
| "worker_step (StopReturn i) w w' = (callers w i = StopWaiting \<and> stop_returns w \<and> w' = caller_to i Outside w)"
| "worker_step (Terminate i) w w' = (callers w i = Outside \<and> w' = terminate i w)"
| "worker_step (Join i) w w' = (callers w i = Joining \<and> join_thread i w = Some w')"
| "worker_step (Reset i) w w' = (callers w i = Resetting \<and> w' = reset_thread i w)"
| "worker_step (SetName name) w w' = (w' = setName name w)"
| "worker_step WorkerStep w w' = (thread_step w = Some w')"
| "worker_step (WorkerThrow e) w w' = (task_throws e w = Some w')"

section \<open>Timer\<close>

text \<open>
  The timer of the asio library holds the waits that are not yet due; a wait that is due
  has its handler queued and can no longer be cancelled.  Setting a new expiry time
  cancels the pending waits.  Nothing runs once the service is stopped.
\<close>

record timer =
  m_timeout :: "64 word"
  m_running :: bool
  m_working :: bool
  m_timeoutHandler :: bool
  tm_worker :: bool
  pending :: nat
  due :: nat
  handled :: nat
  io_stopped :: bool

definition new_timer :: "64 word \<Rightarrow> timer" where
  "new_timer timeout =
     \<lparr>m_timeout = timeout, m_running = False, m_working = True, m_timeoutHandler = False, tm_worker = True,
      pending = 0, due = 0, handled = 0, io_stopped = False\<rparr>"

definition registerTimeoutHandler :: "timer \<Rightarrow> timer" where
  "registerTimeoutHandler t = t\<lparr>m_timeoutHandler := True\<rparr>"

definition startTimer :: "timer \<Rightarrow> timer" where
  "startTimer t = (if m_running t then t else t\<lparr>pending := 0 + 1, m_running := True\<rparr>)"

definition timer_start :: "timer \<Rightarrow> timer" where
  "timer_start t = (if \<not> m_working t then t else startTimer t)"

definition timer_stop :: "timer \<Rightarrow> timer" where
  "timer_stop t =
     (if \<not> m_working t then t
      else if \<not> m_running t then t
      else t\<lparr>m_running := False, pending := 0\<rparr>)"

definition timer_restart :: "timer \<Rightarrow> timer" where
  "timer_restart t = (if \<not> m_working t then t else timer_start (timer_stop t))"

definition timer_reset :: "64 word \<Rightarrow> timer \<Rightarrow> timer" where
  "timer_reset timeout t = timer_restart (t\<lparr>m_timeout := timeout\<rparr>)"

text \<open>The flag says whether the caller is the thread of the timer, which is detached instead of joined.\<close>

definition timer_destroy :: "bool \<Rightarrow> timer \<Rightarrow> timer" where
  "timer_destroy own t =
     (if \<not> m_working t \<or> \<not> tm_worker t then t
      else (let t1 = timer_stop (t\<lparr>m_working := False\<rparr>);
                t2 = t1\<lparr>io_stopped := True\<rparr>
            in if \<not> own then t2\<lparr>tm_worker := False\<rparr> else t2))"

definition timer_run :: "timer \<Rightarrow> timer" where
  "timer_run t = (if m_timeoutHandler t then t\<lparr>handled := handled t + 1\<rparr> else t)"

datatype timer_event = TStart | TStop | TRestart | TReset "64 word" | TDestroy bool | TRegister | TExpire | TFire

fun timer_step :: "timer_event \<Rightarrow> timer \<Rightarrow> timer \<Rightarrow> bool" where
  "timer_step TStart t t' = (t' = timer_start t)"
| "timer_step TStop t t' = (t' = timer_stop t)"
| "timer_step TRestart t t' = (t' = timer_restart t)"
| "timer_step (TReset timeout) t t' = (t' = timer_reset timeout t)"
| "timer_step (TDestroy own) t t' = (t' = timer_destroy own t)"
| "timer_step TRegister t t' = (t' = registerTimeoutHandler t)"
| "timer_step TExpire t t' = (0 < pending t \<and> \<not> io_stopped t \<and> t' = t\<lparr>pending := pending t - 1, due := due t + 1\<rparr>)"
| "timer_step TFire t t' = (0 < due t \<and> \<not> io_stopped t \<and> t' = timer_run (t\<lparr>due := due t - 1\<rparr>))"

end
