(* ===== verification/Worker_Threads_Props.thy ===== *)
theory Worker_Threads_Props
  imports Worker_Threads
begin

text \<open>
  What the operations of a worker promise to their callers under every interleaving:
  stopping leaves the task at rest, every wait ends, a worker is joined once; and the one
  interleaving in which a termination request is lost.
\<close>

lemmas worker_defs = startWorking_def stopWorking_def terminate_def reset_thread_def setName_def isWorking_def
  caller_to_def start_returns_def stop_returns_def

section \<open>Invariant\<close>

text \<open>The state the callers see and the place of the thread agree.\<close>

definition agrees :: "worker \<Rightarrow> bool" where
  "agrees w =
     ((m_workerThread w \<longleftrightarrow> thread w \<noteq> NoThread) \<and>
      (case m_workerState w of
         Starting \<Rightarrow> thread w \<in> {NoThread, LoopCheck, MarkStarted, WaitStopped}
       | Started \<Rightarrow> thread w \<in> {InitWorker, ProcessLoop, ExecuteWorker, MarkStopped}
       | Stopping \<Rightarrow> thread w \<in> {InitWorker, ProcessLoop, ExecuteWorker, FinishWorker, MarkStopped}
       | Stopped \<Rightarrow> thread w = WaitStopped
       | Killing \<Rightarrow> True) \<and>
      (thread w = Exited \<longrightarrow> m_workerState w = Killing) \<and> (joined w \<longrightarrow> thread w = Exited))"

text \<open>The caller that resets the pointer has joined the thread, and is the only one.\<close>

definition one_resets :: "worker \<Rightarrow> bool" where
  "one_resets w = (\<forall>i. callers w i = Resetting \<longrightarrow> joined w \<and> (\<forall>j. callers w j = Resetting \<longrightarrow> j = i))"

lemma thread_step_agrees: "agrees w \<Longrightarrow> thread_step w = Some w' \<Longrightarrow> agrees w'"
  by (cases "thread w"; cases "m_workerState w") (auto simp: agrees_def thread_step_def Let_def)

lemma task_throws_agrees: "agrees w \<Longrightarrow> task_throws e w = Some w' \<Longrightarrow> agrees w'"
  by (cases "thread w"; cases "m_workerState w") (auto simp: agrees_def task_throws_def split: task_exception.splits)

lemma startWorking_agrees: "agrees w \<Longrightarrow> agrees (startWorking i w)"
  by (cases "m_workerState w") (auto simp: agrees_def worker_defs)

lemma stopWorking_agrees: "agrees w \<Longrightarrow> agrees (stopWorking i w)"
  by (cases "m_workerState w") (auto simp: agrees_def worker_defs)

lemma join_agrees: "agrees w \<Longrightarrow> join_thread i w = Some w' \<Longrightarrow> agrees w'"
  by (cases "m_workerState w") (auto simp: agrees_def join_thread_def caller_to_def split: if_splits)

lemma reset_agrees: "agrees w \<Longrightarrow> joined w \<Longrightarrow> agrees (reset_thread i w)"
  by (simp add: agrees_def worker_defs)

lemma caller_to_agrees: "agrees (caller_to i pc w) = agrees w"
  by (cases "m_workerState w") (simp_all add: agrees_def caller_to_def)

lemma terminate_agrees: "agrees w \<Longrightarrow> agrees (terminate i w)"
  by (cases "m_workerState w") (auto simp: agrees_def worker_defs)

lemma setName_agrees: "agrees (setName n w) = agrees w"
  by (cases "m_workerState w") (simp_all add: agrees_def setName_def isWorking_def)

lemma agrees_step:
  assumes "agrees w" "one_resets w" "worker_step l w w'"
  shows "agrees w'"
proof (cases l)
  case (Reset i)
  then have "joined w" "w' = reset_thread i w" using assms(2,3) by (auto simp: one_resets_def)
  then show ?thesis using assms(1) reset_agrees by simp
qed (use assms in \<open>auto simp: startWorking_agrees stopWorking_agrees caller_to_agrees terminate_agrees setName_agrees
  intro: join_agrees thread_step_agrees task_throws_agrees\<close>)

lemma thread_callers: "thread_step w = Some w' \<Longrightarrow> callers w' = callers w \<and> joined w' = joined w"
  by (cases "thread w") (auto simp: thread_step_def Let_def split: if_splits)

lemma throw_callers: "task_throws e w = Some w' \<Longrightarrow> callers w' = callers w \<and> joined w' = joined w"
  by (auto simp: task_throws_def split: if_splits task_exception.splits)

lemma one_resets_step:
  assumes "one_resets w" "worker_step l w w'"
  shows "one_resets w'"
proof (cases l)
  case (Reset i)
  then have "\<forall>j. j \<noteq> i \<longrightarrow> callers w j \<noteq> Resetting" using assms by (auto simp: one_resets_def)
  then show ?thesis using Reset assms(2) by (auto simp: one_resets_def worker_defs)
next
  case (Join i)
  then show ?thesis using assms by (auto simp: one_resets_def join_thread_def caller_to_def split: if_splits)
next
  case WorkerStep
  then show ?thesis using assms thread_callers [of w w'] by (simp add: one_resets_def)
next
  case (WorkerThrow e)
  then show ?thesis using assms throw_callers [of _ w w'] by (simp add: one_resets_def)
qed (use assms in \<open>auto simp: one_resets_def worker_defs split: if_splits\<close>)

definition worker_inv :: "worker \<Rightarrow> bool" where
  "worker_inv w = (agrees w \<and> one_resets w)"

interpretation wk: transition_system "\<lambda>w. \<exists>name. w = new_worker name" worker_step worker_inv
proof unfold_locales
  fix w :: worker assume "\<exists>name. w = new_worker name"
  then show "worker_inv w" by (auto simp: worker_inv_def agrees_def one_resets_def new_worker_def)
next
  fix w w' l assume "worker_inv w" "worker_step l w w'"
  then show "worker_inv w'" using agrees_step one_resets_step by (auto simp: worker_inv_def)
qed


section \<open>Stopping\<close>

definition quiet :: "worker_event \<Rightarrow> bool" where
  "quiet l = (case l of StartWorking i \<Rightarrow> False | Terminate i \<Rightarrow> False | _ \<Rightarrow> True)"

lemma stopped_at_rest: "worker_inv w \<Longrightarrow> m_workerState w = Stopped \<Longrightarrow> thread w = WaitStopped"
  by (simp add: worker_inv_def agrees_def)

lemma stopped_step:
  assumes "worker_inv w" "m_workerState w = Stopped" "quiet l" "worker_step l w w'"
  shows "m_workerState w' = Stopped"
  using assms stopped_at_rest [OF assms(1,2)]
  by (cases l) (auto simp: quiet_def worker_defs join_thread_def thread_step_def task_throws_def split: if_splits)

lemma stopped_run:
  assumes "run worker_step w ls w'" "worker_inv w" "m_workerState w = Stopped" "list_all quiet ls"
  shows "worker_inv w' \<and> m_workerState w' = Stopped"
  using assms by (induction rule: run.induct) (auto dest: stopped_step wk.step_inv)

text \<open>
  C22: stopping leaves the worker at rest: when a call of stopWorking that found the worker
  started returns from its wait, after any interleaving of any number of callers, no task
  function is running, and none is run until the next call of startWorking or terminate.
  (A call that finds the worker in another state returns at once and promises nothing.)
\<close>

theorem stop_leaves_worker_at_rest:
  assumes "run worker_step (new_worker name) ls w" "worker_step (StopReturn i) w w'"
    "run worker_step w' ls' w''" "list_all quiet ls'"
  shows "thread w'' = WaitStopped \<and> thread_step w'' = None \<and> (\<forall>e. task_throws e w'' = None) \<and> shouldStop w''"
proof -
  have inv: "worker_inv w" using wk.reachable_inv assms(1) by blast
  then have w': "worker_inv w'" "m_workerState w' = Stopped"
    using assms(2) wk.step_inv [OF inv assms(2)] by (auto simp: worker_defs)
  have "worker_inv w''" "m_workerState w'' = Stopped" using stopped_run [OF assms(3) w' assms(4)] by auto
  then show ?thesis using stopped_at_rest by (simp add: thread_step_def task_throws_def shouldStop_def)
qed

section \<open>Waits end\<close>

definition own_step :: "worker_event \<Rightarrow> bool" where
  "own_step l = (l = WorkerStep \<or> (\<exists>e. l = WorkerThrow e))"

text \<open>How far the thread is from its exit when it is asked to stop or to exit.\<close>

fun exit_steps :: "thread_pc \<Rightarrow> nat" where
  "exit_steps InitWorker = 6"
| "exit_steps ExecuteWorker = 6"
| "exit_steps ProcessLoop = 5"
| "exit_steps FinishWorker = 4"
| "exit_steps MarkStopped = 3"
| "exit_steps WaitStopped = 2"
| "exit_steps LoopCheck = 1"
| "exit_steps _ = 0"

definition stopping :: "worker \<Rightarrow> bool" where
  "stopping w = (agrees w \<and> (m_workerState w = Stopping \<or> m_workerState w = Stopped))"

definition killing :: "worker \<Rightarrow> bool" where
  "killing w = (m_workerState w = Killing \<and> thread w \<notin> {MarkStarted, NoThread})"

lemma stopping_step:
  assumes "stopping w" "own_step l" "worker_step l w w'"
  shows "stopping w' \<and> exit_steps (thread w') < exit_steps (thread w)"
proof -
  have "agrees w'"
    using assms thread_step_agrees [of w w'] task_throws_agrees [of w _ w'] unfolding stopping_def own_step_def by auto
  moreover have "m_workerState w = Stopping \<and> thread w \<in> {InitWorker, ProcessLoop, ExecuteWorker, FinishWorker, MarkStopped} \<or>
      m_workerState w = Stopped \<and> thread w = WaitStopped"
    using assms(1) by (auto simp: stopping_def agrees_def)
  then have "(m_workerState w' = Stopping \<or> m_workerState w' = Stopped) \<and> exit_steps (thread w') < exit_steps (thread w)"
    using assms(2,3) by (auto simp: own_step_def thread_step_def task_throws_def split: task_exception.splits)
  ultimately show ?thesis by (simp add: stopping_def)
qed

lemma killing_step:
  assumes "killing w" "own_step l" "worker_step l w w'"
  shows "killing w' \<and> exit_steps (thread w') < exit_steps (thread w)"
  using assms by (cases "thread w") (auto simp: killing_def own_step_def thread_step_def task_throws_def Let_def split: task_exception.splits)

lemma killing_ends:
  assumes "killing w" "run worker_step w ls w'" "list_all own_step ls"
  shows "length ls \<le> 6 \<and> (thread_step w' = None \<longrightarrow> thread w' = Exited)"
proof -
  have "killing w' \<and> length ls + exit_steps (thread w') \<le> exit_steps (thread w)"
    using run_rank [of killing own_step worker_step "\<lambda>w. exit_steps (thread w)"] killing_step assms by blast
  moreover have "exit_steps (thread w) \<le> 6" by (cases "thread w") simp_all
  ultimately show ?thesis by (cases "thread w'") (auto simp: killing_def thread_step_def Let_def)
qed

text \<open>What other callers do, short of starting or terminating the worker, does not delay it.\<close>

lemma stopping_quiet:
  assumes "stopping w \<and> one_resets w" "quiet l" "worker_step l w w'"
  shows "(stopping w' \<and> one_resets w') \<and> exit_steps (thread w') \<le> exit_steps (thread w) \<and>
    (own_step l \<longrightarrow> exit_steps (thread w') < exit_steps (thread w))"
proof (cases "own_step l")
  case True
  then show ?thesis using stopping_step assms one_resets_step less_imp_le by blast
next
  case False
  have a: "agrees w" "one_resets w" "\<not> joined w" using assms(1) by (auto simp: stopping_def agrees_def)
  have "agrees w'" "one_resets w'" using agrees_step one_resets_step a(1,2) assms(3) by blast+
  moreover have "m_workerState w' = m_workerState w \<and> thread w' = thread w"
    using assms False a
    by (cases l) (auto simp: quiet_def own_step_def stopping_def worker_defs join_thread_def one_resets_def split: if_splits)
  ultimately show ?thesis using assms(1) False by (simp add: stopping_def)
qed

text \<open>
  C32: the wait of stopWorking ends: once the worker is asked to stop, and as long as no
  other caller starts or terminates it, at most four steps of its thread (the rest of the
  running task counted as one) bring it to rest, whatever standard exception the task
  throws and whatever the other callers do in between; the thread is never stuck before,
  and then the wait is over.
\<close>

theorem stop_wait_ends:
  assumes "run worker_step (new_worker name) ls0 w" "m_workerState w = Stopping"
    "run worker_step w ls w'" "list_all quiet ls"
  shows "length (filter own_step ls) \<le> 4 \<and> (thread_step w' = None \<longrightarrow> stop_returns w') \<and>
    (length (filter own_step ls) = 4 \<longrightarrow> stop_returns w')"
proof -
  have inv: "worker_inv w" using wk.reachable_inv assms(1) by blast
  then have "stopping w \<and> one_resets w" using assms(2) by (simp add: stopping_def worker_inv_def)
  then have "(stopping w' \<and> one_resets w') \<and> length (filter own_step ls) + exit_steps (thread w') \<le> exit_steps (thread w)"
    using run_rank_filter [of "\<lambda>w. stopping w \<and> one_resets w" quiet worker_step "\<lambda>w. exit_steps (thread w)" own_step]
      stopping_quiet assms(3,4) by blast
  moreover have "exit_steps (thread w) \<le> 6" by (cases "thread w") simp_all
  ultimately show ?thesis
    by (cases "thread w'") (auto simp: stopping_def agrees_def thread_step_def stop_returns_def Let_def)
qed

text \<open>The worker was told to exit while a caller waits for it to stop.\<close>

definition stranded :: "nat \<Rightarrow> worker \<Rightarrow> bool" where
  "stranded i w = (worker_inv w \<and> callers w i = StopWaiting \<and> m_workerState w = Killing \<and> thread w \<noteq> MarkStarted)"

lemma stranded_step:
  assumes "stranded i w" "worker_step l w w'" "\<forall>k. l \<noteq> StartWorking k"
  shows "stranded i w'"
proof -
  have "worker_inv w'" using wk.step_inv assms(1,2) by (auto simp: stranded_def)
  moreover have "callers w' i = StopWaiting \<and> m_workerState w' = Killing \<and> thread w' \<noteq> MarkStarted"
  proof (cases "own_step l")
    case True
    then show ?thesis using assms thread_callers [of w w'] throw_callers [of _ w w']
      by (cases "thread w")
        (auto simp: stranded_def own_step_def thread_step_def task_throws_def Let_def split: task_exception.splits)
  next
    case False
    then show ?thesis using assms
      by (cases l) (auto simp: stranded_def own_step_def worker_defs join_thread_def split: if_splits)
  qed
  ultimately show ?thesis by (simp add: stranded_def)
qed

lemma stranded_run:
  "run worker_step w ls w' \<Longrightarrow> stranded i w \<Longrightarrow> \<forall>k. StartWorking k \<notin> set ls \<Longrightarrow> stranded i w'"
proof (induction rule: run.induct)
  case (run_cons l w1 w2 ls w3)
  then show ?case using stranded_step [of i w1 l w2] by (metis list.set_intros)
qed

text \<open>
  C33: a stop that meets a termination never returns: when one caller waits for the worker to
  stop and another calls terminate, the worker never reaches the state the first caller
  waits for, and the wait goes on until the worker is started anew, whatever the worker
  thread, its task and the other callers do.
\<close>

theorem stop_stranded_by_terminate:
  assumes "run worker_step (new_worker name) ls0 w" "callers w i = StopWaiting" "m_workerState w = Stopping"
    "worker_step (Terminate j) w w1" "run worker_step w1 ls w'" "\<forall>k. StartWorking k \<notin> set ls"
  shows "callers w' i = StopWaiting \<and> \<not> stop_returns w'"
proof -
  have inv: "worker_inv w" using wk.reachable_inv assms(1) by blast
  then have "stranded i w1"
    using wk.step_inv [OF inv assms(4)] assms(2-4)
    by (auto simp: stranded_def worker_defs worker_inv_def agrees_def split: if_splits)
  then have "stranded i w'" using stranded_run [OF assms(5) _ assms(6)] by blast
  then show ?thesis by (simp add: stranded_def stop_returns_def)
qed

section \<open>Termination and the lost request\<close>

definition careful_step :: "worker_event \<Rightarrow> worker \<Rightarrow> worker \<Rightarrow> bool" where
  "careful_step l w w' = (worker_step l w w' \<and> (\<forall>i. l = Terminate i \<longrightarrow> thread w \<noteq> MarkStarted))"


definition joins :: "worker \<Rightarrow> nat \<Rightarrow> bool" where
  "joins w i = (callers w i = Joining \<or> callers w i = Resetting)"

text \<open>A caller that waits for the thread is alone, the request stands, and the thread is not joined before.\<close>

definition one_joins :: "worker \<Rightarrow> bool" where
  "one_joins w =
     ((thread w = MarkStarted \<longrightarrow> m_workerState w \<noteq> Killing) \<and>
      (\<forall>i. joins w i \<longrightarrow> m_workerState w = Killing \<and> m_workerThread w \<and> (\<forall>j. joins w j \<longrightarrow> j = i)) \<and>
      (\<forall>i. callers w i = Joining \<longrightarrow> \<not> joined w) \<and> (\<forall>i. callers w i \<noteq> JoinFailed))"

lemma one_joinsD:
  assumes "one_joins w" "joins w i"
  shows "m_workerState w = Killing" "m_workerThread w" "joins w j \<Longrightarrow> j = i"
  using assms unfolding one_joins_def by blast+

lemma one_joins_thread:
  assumes "one_joins w" "thread_step w = Some w'"
  shows "one_joins w'"
proof -
  have c: "callers w' = callers w" "joined w' = joined w" using thread_callers [OF assms(2)] by simp_all
  have t: "m_workerThread w' = m_workerThread w"
    using assms(2) by (cases "thread w") (auto simp: thread_step_def Let_def split: if_splits)
  have s: "m_workerState w = Killing \<longrightarrow> m_workerState w' = Killing" "thread w' = MarkStarted \<longrightarrow> m_workerState w' \<noteq> Killing"
    using assms unfolding one_joins_def by (cases "thread w"; auto simp: thread_step_def Let_def split: if_splits)+
  show ?thesis using assms(1) s unfolding one_joins_def joins_def c t by blast
qed

lemma one_joins_throw:
  assumes "one_joins w" "task_throws e w = Some w'"
  shows "one_joins w'"
  using assms by (auto simp: task_throws_def one_joins_def joins_def split: if_splits task_exception.splits)

lemma one_joins_start:
  assumes "one_joins w" "callers w i = Outside" "agrees w"
  shows "one_joins (startWorking i w)"
proof (cases "m_workerThread w")
  case True
  then show ?thesis using assms by (auto simp: one_joins_def joins_def worker_defs)
next
  case False
  then have "\<not> joins w j" for j using one_joinsD(2) [OF assms(1)] by blast
  moreover have "\<not> joined w" using assms(3) False by (auto simp: agrees_def)
  ultimately show ?thesis using assms False by (auto simp: one_joins_def joins_def worker_defs)
qed

lemma one_joins_terminate:
  assumes "one_joins w" "callers w i = Outside" "agrees w" "thread w \<noteq> MarkStarted"
  shows "one_joins (terminate i w)"
proof (cases "m_workerThread w \<and> m_workerState w \<noteq> Killing")
  case True
  then have "\<not> joins w j" for j using one_joinsD(1) [OF assms(1)] by blast
  moreover have "\<not> joined w" using assms(3) True by (auto simp: agrees_def)
  ultimately show ?thesis using assms True by (auto simp: one_joins_def joins_def worker_defs)
next
  case False
  then have "terminate i w = w" by (auto simp: terminate_def)
  then show ?thesis using assms(1) by simp
qed

lemma one_joins_join:
  assumes "one_joins w" "callers w i = Joining" "agrees w" "join_thread i w = Some w'"
  shows "one_joins w'"
proof -
  have a: "\<not> joined w" "thread w \<noteq> NoThread" "m_workerState w = Killing" "m_workerThread w"
    and alone: "joins w j \<Longrightarrow> j = i" for j
    using assms one_joinsD [OF assms(1), of i] by (auto simp: one_joins_def joins_def agrees_def)
  then have w': "w' = caller_to i Resetting (w\<lparr>joined := True\<rparr>)" "thread w = Exited"
    using assms(4) by (auto simp: join_thread_def split: if_splits)
  show ?thesis using a alone assms(1) w'(2) unfolding w'(1) by (auto simp: one_joins_def joins_def caller_to_def)
qed

lemma one_joins_reset:
  assumes "one_joins w" "callers w i = Resetting"
  shows "one_joins (reset_thread i w)"
proof -
  have "joins w j \<Longrightarrow> j = i" for j using one_joinsD(3) [OF assms(1)] assms(2) by (auto simp: joins_def)
  then show ?thesis using assms by (auto simp: one_joins_def joins_def worker_defs)
qed

lemma one_joins_step:
  assumes "one_joins w" "agrees w" "careful_step l w w'"
  shows "one_joins w'"
proof (cases l)
  case (StartReturn i)
  then show ?thesis using assms by (auto simp: careful_step_def one_joins_def joins_def worker_defs)
next
  case (StopWorking i)
  then show ?thesis using assms by (auto simp: careful_step_def one_joins_def joins_def worker_defs)
next
  case (StopReturn i)
  then show ?thesis using assms by (auto simp: careful_step_def one_joins_def joins_def worker_defs)
next
  case (SetName n)
  then show ?thesis using assms by (auto simp: careful_step_def one_joins_def joins_def worker_defs)
qed (use assms in \<open>auto simp: careful_step_def one_joins_start one_joins_terminate one_joins_reset
  intro: one_joins_join one_joins_thread one_joins_throw\<close>)

interpretation careful: transition_system "\<lambda>w. \<exists>name. w = new_worker name" careful_step "\<lambda>w. worker_inv w \<and> one_joins w"
proof unfold_locales
  fix w :: worker assume "\<exists>name. w = new_worker name"
  then show "worker_inv w \<and> one_joins w" using wk.init_inv by (auto simp: one_joins_def joins_def new_worker_def)
next
  fix w w' l assume "worker_inv w \<and> one_joins w" "careful_step l w w'"
  then show "worker_inv w' \<and> one_joins w'"
    using wk.step_inv [of w l w'] one_joins_step by (auto simp: worker_inv_def careful_step_def)
qed

text \<open>
  C25: termination: if no request comes in the moment between the check of the worker
  thread's loop and its marking itself as started, then of any number of callers of
  terminate at most one waits, no thread is joined twice, and after at most six steps of
  the worker thread it has exited and the caller that waits can go on.
\<close>

theorem terminate_returns:
  assumes "run careful_step (new_worker name) ls0 w" "callers w i = Joining"
    "run worker_step w ls w'" "list_all own_step ls"
  shows "(\<forall>j. callers w j \<noteq> JoinFailed) \<and> (\<forall>j. callers w j = Joining \<longrightarrow> j = i) \<and> length ls \<le> 6 \<and>
    (thread_step w' = None \<longrightarrow> join_thread i w' = Some (caller_to i Resetting (w'\<lparr>joined := True\<rparr>)))"
proof -
  have inv: "worker_inv w" "one_joins w" using careful.reachable_inv assms(1) by blast+
  have i: "joins w i" using assms(2) by (simp add: joins_def)
  note w = one_joinsD(1,2) [OF inv(2) i]
  have free: "\<not> joined w" "thread w \<noteq> MarkStarted" and ok: "\<forall>j. callers w j \<noteq> JoinFailed"
    using inv(2) assms(2) w(1) unfolding one_joins_def by blast+
  have alone: "\<forall>j. callers w j = Joining \<longrightarrow> j = i" using one_joinsD(3) [OF inv(2) i] by (auto simp: joins_def)
  have k: "killing w" using inv(1) w free by (simp add: killing_def worker_inv_def agrees_def)
  have "joined w' = joined w" using assms(3,4)
  proof (induction rule: run.induct)
    case (run_cons l s1 s2 ls s3)
    then show ?case using thread_callers [of s1 s2] throw_callers [of _ s1 s2] by (auto simp: own_step_def)
  qed simp
  then show ?thesis
    using killing_ends [OF k assms(3,4)] free(1) ok alone by (simp add: join_thread_def)
qed

text \<open>The request to exit was overwritten, or is about to be, and its caller waits for the thread.\<close>

definition unaware :: "nat \<Rightarrow> worker \<Rightarrow> bool" where
  "unaware i w =
     (worker_inv w \<and> m_workerThread w \<and> callers w i = Joining \<and> (m_workerState w = Killing \<longrightarrow> thread w = MarkStarted))"

lemma unawareD:
  assumes "unaware i w"
  shows "\<not> joined w" "thread w \<noteq> NoThread" "thread w \<noteq> Exited" "callers w k \<noteq> Resetting"
  using assms by (auto simp: unaware_def worker_inv_def agrees_def one_resets_def)

lemma unaware_step:
  assumes "unaware i w" "worker_step l w w'" "\<forall>k. l \<noteq> Terminate k"
  shows "unaware i w'"
proof -
  note d = unawareD [OF assms(1)]
  have "worker_inv w'" using wk.step_inv assms(1,2) by (auto simp: unaware_def)
  moreover have "m_workerThread w' \<and> callers w' i = Joining \<and> (m_workerState w' = Killing \<longrightarrow> thread w' = MarkStarted)"
  proof (cases "own_step l")
    case True
    then show ?thesis using assms thread_callers [of w w'] throw_callers [of _ w w']
      by (cases "thread w")
        (auto simp: unaware_def own_step_def thread_step_def task_throws_def Let_def split: task_exception.splits if_splits)
  next
    case False
    then show ?thesis using assms d
      by (cases l) (auto simp: unaware_def own_step_def worker_defs join_thread_def split: if_splits)
  qed
  ultimately show ?thesis by (simp add: unaware_def)
qed

lemma unaware_run:
  "run worker_step w ls w' \<Longrightarrow> unaware i w \<Longrightarrow> \<forall>k. Terminate k \<notin> set ls \<Longrightarrow> unaware i w'"
proof (induction rule: run.induct)
  case (run_cons l w1 w2 ls w3)
  then show ?case using unaware_step [of i w1 l w2] by (metis list.set_intros)
qed

lemma do_step: "step l w w' \<Longrightarrow> run step w' ls w'' \<Longrightarrow> run step w (l # ls) w''"
  by (rule run.run_cons)

lemma done_steps: "w = w' \<Longrightarrow> run step w [] w'"
  by (simp add: run.run_nil)

text \<open>
  C40: the lost request: a call of terminate that comes between that check and the marking
  is overwritten.  In every reachable state in which the worker thread is at that place, the
  caller then waits for a thread that does not exit, whatever the worker thread, its task
  and the other callers do, unless terminate is called again.
\<close>

theorem terminate_request_lost:
  assumes "run worker_step (new_worker name) ls0 w" "thread w = MarkStarted" "m_workerState w \<noteq> Killing"
    "worker_step (Terminate i) w w1" "run worker_step w1 ls w'" "\<forall>k. Terminate k \<notin> set ls"
  shows "callers w' i = Joining \<and> thread w' \<noteq> Exited \<and> join_thread i w' = None"
proof -
  have inv: "worker_inv w" using wk.reachable_inv assms(1) by blast
  then have "m_workerThread w" using assms(2) by (simp add: worker_inv_def agrees_def)
  then have "unaware i w1"
    using wk.step_inv [OF inv assms(4)] assms(2-4) by (auto simp: unaware_def worker_defs)
  then have "unaware i w'" using unaware_run assms(5,6) by blast
  then show ?thesis using unawareD [of i w'] by (auto simp: unaware_def join_thread_def)
qed

section \<open>Samples\<close>

definition started_worker :: worker where
  "started_worker = (new_worker ''w'')\<lparr>m_workerThread := True, m_workerState := Started, thread := InitWorker\<rparr>"

definition stopped_worker :: worker where
  "stopped_worker = (new_worker ''w'')\<lparr>m_workerThread := True, m_workerState := Stopped, thread := WaitStopped\<rparr>"

lemmas sample_simps = thread_step_def worker_defs new_worker_def started_worker_def stopped_worker_def

lemma sample_start:
  "run worker_step (new_worker ''w'') [StartWorking 0, WorkerStep, WorkerStep, StartReturn 0] started_worker"
  by (rule do_step, simp add: sample_simps fun_eq_iff)+ (rule done_steps, simp add: sample_simps fun_eq_iff)

lemma sample_stop:
  "run worker_step (caller_to 0 StopWaiting (started_worker\<lparr>m_workerState := Stopping\<rparr>))
     [WorkerStep, WorkerStep, WorkerStep, WorkerStep] (caller_to 0 StopWaiting stopped_worker)"
  by (rule do_step, simp add: sample_simps)+ (rule done_steps, simp add: sample_simps)

lemma sample_stopping:
  "run worker_step (new_worker ''w'') [StartWorking 0, WorkerStep, WorkerStep, StartReturn 0, StopWorking 0]
     (caller_to 0 StopWaiting (started_worker\<lparr>m_workerState := Stopping\<rparr>))"
proof -
  have "run worker_step started_worker [StopWorking 0] (caller_to 0 StopWaiting (started_worker\<lparr>m_workerState := Stopping\<rparr>))"
    by (rule do_step [OF _ run.run_nil]) (simp add: worker_defs started_worker_def new_worker_def)
  from run_append [OF sample_start this] show ?thesis by simp
qed

theorem stop_leaves_worker_at_rest_witness:
  "\<exists>ls. run worker_step (new_worker ''w'') ls (caller_to 0 StopWaiting stopped_worker) \<and>
     thread stopped_worker = WaitStopped \<and> thread_step stopped_worker = None"
proof -
  note r = run_append [OF sample_stopping sample_stop]
  have "worker_step (StopReturn 0) (caller_to 0 StopWaiting stopped_worker) stopped_worker"
    by (simp add: worker_defs stopped_worker_def new_worker_def fun_eq_iff)
  moreover have "run worker_step stopped_worker [StopWorking 1] stopped_worker"
    by (rule do_step [OF _ run.run_nil]) (simp add: sample_simps)
  moreover have "list_all quiet [StopWorking 1]" by (simp add: quiet_def)
  ultimately have "thread stopped_worker = WaitStopped \<and> thread_step stopped_worker = None"
    using stop_leaves_worker_at_rest [OF r] by blast
  then show ?thesis using r by blast
qed

theorem stop_wait_ends_witness:
  "stop_returns (caller_to 0 StopWaiting stopped_worker)"
  using stop_wait_ends [OF sample_stopping _ sample_stop]
  by (simp add: own_step_def quiet_def caller_to_def)

theorem stop_stranded_by_terminate_witness:
  "\<exists>w'. run worker_step (terminate 1 (caller_to 0 StopWaiting (started_worker\<lparr>m_workerState := Stopping\<rparr>)))
     [WorkerStep, WorkerStep, WorkerStep, WorkerStep, WorkerStep, WorkerStep, Join 1, worker_event.Reset 1] w' \<and>
     thread w' = NoThread \<and> callers w' 0 = StopWaiting \<and> \<not> stop_returns w'"
proof -
  let ?w = "caller_to 0 StopWaiting (started_worker\<lparr>m_workerState := Stopping\<rparr>)"
  let ?w' = "caller_to 0 StopWaiting (new_worker ''w''\<lparr>m_workerState := Killing\<rparr>)"
  let ?ls = "[WorkerStep, WorkerStep, WorkerStep, WorkerStep, WorkerStep, WorkerStep, Join 1, worker_event.Reset 1]"
  have t: "worker_step (Terminate 1) ?w (terminate 1 ?w)" by (simp add: sample_simps)
  have r: "run worker_step (terminate 1 ?w) ?ls ?w'"
    by (rule do_step, simp add: sample_simps join_thread_def fun_eq_iff)+
      (rule done_steps, simp add: sample_simps fun_eq_iff)
  have "callers ?w 0 = StopWaiting" "m_workerState ?w = Stopping" by (simp_all add: caller_to_def)
  from stop_stranded_by_terminate [OF sample_stopping this t r] have "callers ?w' 0 = StopWaiting \<and> \<not> stop_returns ?w'" by simp
  moreover have "thread ?w' = NoThread" by (simp add: caller_to_def new_worker_def)
  ultimately show ?thesis using r by blast
qed

theorem terminate_request_lost_witness:
  "\<exists>w'. run worker_step (new_worker ''w'') [StartWorking 0, WorkerStep, Terminate 1, WorkerStep, WorkerThrow StdException, WorkerStep] w' \<and>
     thread w' = WaitStopped \<and> join_thread 1 w' = None"
proof -
  let ?w = "startWorking 0 (new_worker ''w'')\<lparr>thread := MarkStarted\<rparr>"
  let ?w' = "terminate 1 (?w\<lparr>thread := WaitStopped\<rparr>)\<lparr>m_workerState := Stopped\<rparr>"
  have r0: "run worker_step (new_worker ''w'') [StartWorking 0, WorkerStep] ?w"
    by (rule do_step, simp add: sample_simps)+ (rule done_steps, simp add: sample_simps)
  have t: "worker_step (Terminate 1) ?w (terminate 1 ?w)" by (simp add: sample_simps)
  have r: "run worker_step (terminate 1 ?w) [WorkerStep, WorkerThrow StdException, WorkerStep] ?w'"
    by (rule do_step, simp add: sample_simps task_throws_def)+ (rule done_steps, simp add: sample_simps)
  have "thread ?w = MarkStarted" "m_workerState ?w \<noteq> Killing" by (simp_all add: sample_simps)
  from terminate_request_lost [OF r0 this t r] have "join_thread 1 ?w' = None" by simp
  moreover have "thread ?w' = WaitStopped" by (simp add: sample_simps)
  moreover have "run worker_step (new_worker ''w'') ([StartWorking 0, WorkerStep] @ [Terminate 1] @ [WorkerStep, WorkerThrow StdException, WorkerStep]) ?w'"
    by (rule run_append [OF r0 run_append [OF _ r]], rule do_step [OF _ run.run_nil], rule t)
  ultimately show ?thesis by (intro exI [of _ ?w']) simp
qed

theorem terminate_returns_witness:
  "\<exists>w. run careful_step (new_worker ''w'') [StartWorking 0, WorkerStep, WorkerStep, Terminate 1] w \<and>
     (\<forall>j. callers w j = Joining \<longrightarrow> j = 1)"
proof -
  let ?w = "terminate 1 (caller_to 0 StartWaiting started_worker)"
  have r: "run careful_step (new_worker ''w'') [StartWorking 0, WorkerStep, WorkerStep, Terminate 1] ?w"
    by (rule do_step, simp add: careful_step_def sample_simps)+ (rule done_steps, simp add: careful_step_def sample_simps)
  have "callers ?w 1 = Joining" by (simp add: worker_defs started_worker_def new_worker_def)
  from terminate_returns [OF r this run.run_nil] r show ?thesis by auto
qed

section \<open>Timer\<close>

lemmas timer_defs = timer_start_def timer_stop_def timer_restart_def timer_reset_def timer_destroy_def startTimer_def
  timer_run_def registerTimeoutHandler_def Let_def

definition starts :: "timer_event list \<Rightarrow> nat" where
  "starts ls = length (filter (\<lambda>l. case l of TStart \<Rightarrow> True | TRestart \<Rightarrow> True | TReset timeout \<Rightarrow> True | _ \<Rightarrow> False) ls)"

definition stops :: "timer_event list \<Rightarrow> nat" where
  "stops ls = length (filter (\<lambda>l. case l of TStop \<Rightarrow> True | TRestart \<Rightarrow> True | TReset timeout \<Rightarrow> True | _ \<Rightarrow> False) ls)"

definition waits :: "timer \<Rightarrow> nat" where
  "waits t = handled t + due t + pending t"

definition timer_inv :: "timer \<Rightarrow> bool" where
  "timer_inv t =
     (pending t \<le> 1 \<and> (\<not> m_running t \<longrightarrow> pending t = 0) \<and> (m_working t \<longleftrightarrow> \<not> io_stopped t) \<and> (m_working t \<longrightarrow> tm_worker t))"

lemma timer_inv_step: "timer_inv t \<Longrightarrow> timer_step l t t' \<Longrightarrow> timer_inv t'"
  by (cases l) (auto simp: timer_inv_def timer_defs)

interpretation tmr: transition_system "\<lambda>t. \<exists>timeout. t = new_timer timeout" timer_step timer_inv
proof unfold_locales
  fix t :: timer assume "\<exists>timeout. t = new_timer timeout"
  then show "timer_inv t" by (auto simp: timer_inv_def new_timer_def)
qed (rule timer_inv_step)

lemma timer_step_starts: "timer_step l t t' \<Longrightarrow> timer_inv t \<Longrightarrow> waits t' \<le> waits t + starts [l]"
  by (cases l) (auto simp: waits_def starts_def timer_inv_def timer_defs)

lemma timer_step_stops:
  "timer_step l t t' \<Longrightarrow> timer_inv t \<Longrightarrow>
   waits t' + (if m_running t' then 0 else 1) \<le> waits t + (if m_running t then 0 else 1) + stops [l]"
  by (cases l) (auto simp: waits_def stops_def timer_inv_def timer_defs)

lemma timer_run_starts:
  "run timer_step t ls t' \<Longrightarrow> timer_inv t \<Longrightarrow>
   waits t' \<le> waits t + starts ls \<and>
   waits t' + (if m_running t' then 0 else 1) \<le> waits t + (if m_running t then 0 else 1) + stops ls"
proof (induction rule: run.induct)
  case (run_cons l t1 t2 ls t3)
  have "starts (l # ls) = starts [l] + starts ls" "stops (l # ls) = stops [l] + stops ls"
    by (simp_all add: starts_def stops_def)
  then show ?case
    using run_cons timer_step_starts [of l t1 t2] timer_step_stops [of l t1 t2] tmr.step_inv [of t1 l t2] by linarith
qed (simp add: starts_def stops_def)

lemma destroyed_silent:
  "run timer_step t ls t' \<Longrightarrow> timer_inv t \<Longrightarrow> \<not> m_working t \<Longrightarrow> handled t' = handled t"
proof (induction rule: run.induct)
  case (run_cons l t1 t2 ls t3)
  have "\<not> m_working t2 \<and> handled t2 = handled t1"
    using run_cons by (cases l) (auto simp: timer_inv_def timer_defs)
  then show ?case using run_cons tmr.step_inv by auto
qed simp

text \<open>
  The timeout handler runs at most once per call of start, restart or reset, and at
  most once more than the calls of stop, restart and reset (so calling start again without
  stopping arms nothing, also after the timeout), and never once the timer is destroyed.
\<close>

theorem timer_handler_runs:
  assumes "run timer_step (new_timer timeout) ls t"
  shows "handled t \<le> starts ls \<and> handled t \<le> 1 + stops ls \<and>
    (\<not> m_working t \<longrightarrow> run timer_step t ls' t' \<longrightarrow> handled t' = handled t)"
proof -
  have n: "timer_inv (new_timer timeout)" using tmr.init_inv by blast
  have i: "timer_inv t" using tmr.reachable_inv assms by blast
  show ?thesis using timer_run_starts [OF assms n] destroyed_silent i by (auto simp: waits_def new_timer_def split: if_splits)
qed

theorem timer_handler_runs_witness:
  "\<exists>t. run timer_step (new_timer 10) [TRegister, TStart, TExpire, TFire, TStart] t \<and> handled t = 1 \<and>
     handled t \<le> 1 + stops [TRegister, TStart, TExpire, TFire, TStart]"
proof -
  let ?ls = "[TRegister, TStart, TExpire, TFire, TStart]"
  let ?t = "(new_timer 10)\<lparr>m_timeoutHandler := True, m_running := True, handled := 1\<rparr>"
  have r: "run timer_step (new_timer 10) ?ls ?t"
    by (rule do_step, simp add: timer_defs new_timer_def)+ (rule done_steps, simp add: new_timer_def)
  from timer_handler_runs [OF r] have "handled ?t \<le> 1 + stops ?ls" by blast
  with r show ?thesis by (intro exI [of _ ?t]) simp
qed

end
