(* ===== verification/Task_Queues.thy ===== *)
theory Task_Queues
  imports Bcos_Prelude
begin

text \<open>
  Queues and registries shared between threads: \<^verbatim>\<open>libutilities/ConcurrentQueue.h\<close>,
  \<^verbatim>\<open>libutilities/CallbackCollectionHandler.h\<close> and the sequence numbers of
  \<^verbatim>\<open>libutilities/Common.cpp\<close>.  Every operation of the queue is one critical section; a thread that
  waits for an element gives up the mutex.
\<close>

section \<open>The blocking queue\<close>

record 'a concurrent_queue =
  m_queue :: "'a list"

definition new_queue :: "'a concurrent_queue" where
  "new_queue = \<lparr>m_queue = []\<rparr>"

definition cq_push :: "'a \<Rightarrow> 'a concurrent_queue \<Rightarrow> 'a concurrent_queue" where
  "cq_push x q = q\<lparr>m_queue := m_queue q @ [x]\<rparr>"

definition cq_empty :: "'a concurrent_queue \<Rightarrow> bool" where
  "cq_empty q = (m_queue q = [])"

text \<open>\<^term>\<open>None\<close> is a thread that still waits.\<close>

definition cq_pop :: "'a concurrent_queue \<Rightarrow> ('a \<times> 'a concurrent_queue) option" where
  "cq_pop q = (case m_queue q of [] \<Rightarrow> None | x # xs \<Rightarrow> Some (x, q\<lparr>m_queue := xs\<rparr>))"

text \<open>The timed wait ends with what its condition says when it is notified or times out.\<close>

definition cq_tryPop :: "bool \<Rightarrow> 'a concurrent_queue \<Rightarrow> ('a option \<times> 'a concurrent_queue) option" where
  "cq_tryPop timedOut q =
     (case m_queue q of
        [] \<Rightarrow> if timedOut then Some (None, q) else None
      | x # xs \<Rightarrow> Some (Some x, q\<lparr>m_queue := xs\<rparr>))"

datatype 'a queue_event = Pushed 'a | Popped 'a | TryPopped "'a option"

fun queue_step :: "'a queue_event \<Rightarrow> 'a concurrent_queue \<Rightarrow> 'a concurrent_queue \<Rightarrow> bool" where
  "queue_step (Pushed x) q q' = (q' = cq_push x q)"
| "queue_step (Popped x) q q' = (cq_pop q = Some (x, q'))"
| "queue_step (TryPopped r) q q' = (\<exists>timedOut. cq_tryPop timedOut q = Some (r, q'))"

section \<open>The callback collection\<close>

text \<open>
  The callback objects are owned by those who registered them; the collection holds weak
  pointers to them under 32-bit indices in ascending order.  A callback object is gone
  when its owner drops it.
\<close>

record 'cb single_callback =
  m_iterator :: "32 word"
  m_attached :: bool
  m_callback :: 'cb

record 'cb callback_handler =
  m_callbackCollection :: "(32 word \<times> nat) list"
  objects :: "nat \<Rightarrow> 'cb single_callback option"
  allocated :: nat

definition new_handler :: "'cb callback_handler" where
  "new_handler = \<lparr>m_callbackCollection = [], objects = (\<lambda>p. None), allocated = 0\<rparr>"

definition cb_add :: "'cb \<Rightarrow> 'cb callback_handler \<Rightarrow> nat \<times> 'cb callback_handler" where
  "cb_add callback h =
     (let iter = (if m_callbackCollection h = [] then 0 else fst (last (m_callbackCollection h)) + 1);
          p = allocated h
      in (p, h\<lparr>m_callbackCollection := map_assign iter p (m_callbackCollection h),
               objects := (objects h)(p \<mapsto> \<lparr>m_iterator = iter, m_attached = True, m_callback = callback\<rparr>),
               allocated := allocated h + 1\<rparr>))"

text \<open>The destructor of a callback object, when its last owner drops it.\<close>

definition cb_release :: "nat \<Rightarrow> 'cb callback_handler \<Rightarrow> 'cb callback_handler" where
  "cb_release p h =
     (case objects h p of
        None \<Rightarrow> h
      | Some c \<Rightarrow>
          h\<lparr>m_callbackCollection := (if m_attached c then map_erase (m_iterator c) (m_callbackCollection h)
                                    else m_callbackCollection h),
            objects := (objects h)(p := None)\<rparr>)"

text \<open>The callbacks that a call of the handler calls, in their order.\<close>

definition cb_call :: "'cb callback_handler \<Rightarrow> 'cb list" where
  "cb_call h =
     concat (map (\<lambda>(k, p). case objects h p of None \<Rightarrow> [] | Some c \<Rightarrow> [m_callback c]) (m_callbackCollection h))"

text \<open>The destructor of the handler detaches the objects that are still there.\<close>

definition cb_destroy :: "'cb callback_handler \<Rightarrow> 'cb callback_handler" where
  "cb_destroy h =
     h\<lparr>objects := (\<lambda>p. if p \<in> snd ` set (m_callbackCollection h)
                      then map_option (\<lambda>c. c\<lparr>m_attached := False\<rparr>) (objects h p) else objects h p)\<rparr>"

section \<open>Sequence numbers\<close>

text \<open>The next value of the counter, printed with zeros to at least 32 characters.\<close>

definition newSeq :: "64 word \<Rightarrow> string \<times> 64 word" where
  "newSeq seq = (let digits = to_string (unat (seq + 1)) in (replicate (32 - length digits) CHR ''0'' @ digits, seq + 1))"

end
