(* ===== verification/Task_Queues_Props.thy ===== *)
theory Task_Queues_Props
  imports Task_Queues
begin

text \<open>
  The queue hands out its elements once and in the order in which they came; the handler
  calls the callbacks that are still owned, in the order of their registration.
\<close>

section \<open>The blocking queue\<close>

definition pushed :: "'a queue_event list \<Rightarrow> 'a list" where
  "pushed es = concat (map (\<lambda>e. case e of Pushed x \<Rightarrow> [x] | _ \<Rightarrow> []) es)"

definition popped :: "'a queue_event list \<Rightarrow> 'a list" where
  "popped es = concat (map (\<lambda>e. case e of Popped x \<Rightarrow> [x] | TryPopped (Some x) \<Rightarrow> [x] | _ \<Rightarrow> []) es)"

lemma queue_step_balance:
  assumes "queue_step e q q'"
  shows "m_queue q @ pushed [e] = popped [e] @ m_queue q'"
  using assms
  by (cases e; cases "m_queue q")
    (auto simp: pushed_def popped_def cq_push_def cq_pop_def cq_tryPop_def split: option.splits if_splits)

lemma queue_run_balance: "run queue_step q es q' \<Longrightarrow> m_queue q @ pushed es = popped es @ m_queue q'"
proof (induction rule: run.induct)
  case (run_cons e q1 q2 es q3)
  have "pushed (e # es) = pushed [e] @ pushed es" "popped (e # es) = popped [e] @ popped es"
    by (simp_all add: pushed_def popped_def)
  then show ?case using queue_step_balance [OF run_cons(1)] run_cons(3) by (metis append_assoc)
qed (simp add: pushed_def popped_def)

text \<open>
  First in, first out: whatever threads push and pop with or without a timeout, the
  elements handed out followed by those still in the queue are the elements pushed, in
  their order: none is lost, doubled or reordered.
\<close>

theorem queue_first_in_first_out:
  assumes "run queue_step new_queue es q"
  shows "popped es @ m_queue q = pushed es"
  using queue_run_balance [OF assms] by (simp add: new_queue_def)

theorem queue_first_in_first_out_witness:
  "\<exists>q. run queue_step (new_queue :: nat concurrent_queue) [Pushed 1, Pushed 2, Popped 1, TryPopped (Some 2)] q \<and>
     popped [Pushed 1, Pushed 2, Popped 1, TryPopped (Some 2)] @ m_queue q = [1, 2]"
proof -
  let ?es = "[Pushed 1, Pushed 2, Popped 1, TryPopped (Some 2)] :: nat queue_event list"
  have r: "run queue_step new_queue ?es new_queue"
    by (rule run.run_cons, simp add: cq_push_def new_queue_def cq_pop_def cq_tryPop_def)+
      (simp add: new_queue_def run.run_nil)
  from queue_first_in_first_out [OF r] r show ?thesis by (intro exI [of _ new_queue]) (simp add: pushed_def)
qed

section \<open>The callback collection\<close>

datatype 'cb handler_event = Added 'cb | Released nat

fun handler_after :: "'cb handler_event \<Rightarrow> 'cb callback_handler \<Rightarrow> 'cb callback_handler" where
  "handler_after (Added callback) h = snd (cb_add callback h)"
| "handler_after (Released p) h = cb_release p h"

text \<open>The specification: the owned callbacks with their objects in the order of registration.\<close>

fun registered_after :: "'cb handler_event \<Rightarrow> nat \<times> (nat \<times> 'cb) list \<Rightarrow> nat \<times> (nat \<times> 'cb) list" where
  "registered_after (Added callback) (n, rs) = (n + 1, rs @ [(n, callback)])"
| "registered_after (Released p) (n, rs) = (n, filter (\<lambda>r. fst r \<noteq> p) rs)"

definition registered :: "'cb handler_event list \<Rightarrow> nat \<times> (nat \<times> 'cb) list" where
  "registered es = fold registered_after es (0, [])"

text \<open>The collection lists the owned objects, by ascending index, each index below the number of objects made.\<close>

definition entry_matches :: "'cb callback_handler \<Rightarrow> 32 word \<times> nat \<Rightarrow> nat \<times> 'cb \<Rightarrow> bool" where
  "entry_matches h e r =
     (snd e = fst r \<and> objects h (snd e) = Some \<lparr>m_iterator = fst e, m_attached = True, m_callback = snd r\<rparr>)"

definition handler_matches :: "nat \<times> (nat \<times> 'cb) list \<Rightarrow> 'cb callback_handler \<Rightarrow> bool" where
  "handler_matches s h =
     (allocated h = fst s \<and> sorted_wrt (<) (map fst (m_callbackCollection h)) \<and>
      (\<forall>k \<in> set (map fst (m_callbackCollection h)). unat k < fst s) \<and>
      list_all2 (entry_matches h) (m_callbackCollection h) (snd s) \<and>
      (\<forall>p. objects h p \<noteq> None \<longrightarrow> p < fst s \<and> p \<in> set (map fst (snd s))))"

lemma matches_calls: "handler_matches s h \<Longrightarrow> cb_call h = map snd (snd s)"
proof -
  have "concat (map (\<lambda>(k, p). case objects h p of None \<Rightarrow> [] | Some c \<Rightarrow> [m_callback c]) es) = map snd rs"
    if "list_all2 (entry_matches h) es rs" for es rs
    using that by (induction rule: list_all2_induct) (auto simp: entry_matches_def)
  then show "handler_matches s h \<Longrightarrow> cb_call h = map snd (snd s)" by (simp add: handler_matches_def cb_call_def)
qed

lemma next_index:
  fixes ks :: "32 word list"
  assumes "sorted_wrt (<) ks" "\<forall>k \<in> set ks. unat k < n" "n < 2 ^ 32" "ks \<noteq> []"
  shows "unat (last ks + 1) \<le> n \<and> (\<forall>k \<in> set ks. k < last ks + 1)"
proof -
  have l: "unat (last ks) < n" using assms(2,4) by simp
  then have u: "unat (last ks + 1) = unat (last ks) + 1" using assms(3) by (simp add: unat_word_ariths)
  have "k \<le> last ks" if "k \<in> set ks" for k
  proof -
    have "k = last ks \<or> k \<in> set (butlast ks)" using that assms(4) by (metis append_butlast_last_id insert_iff list.simps(15) rotate1.simps(2) set_rotate1)
    moreover have "sorted_wrt (<) (butlast ks @ [last ks])" using assms(1,4) by simp
    ultimately show ?thesis by (auto simp: sorted_wrt_append)
  qed
  then show ?thesis using l u by (force simp: word_less_nat_alt word_le_nat_alt)
qed

lemma matches_add:
  assumes "handler_matches s h" "fst s < 2 ^ 32"
  shows "handler_matches (registered_after (Added callback) s) (handler_after (Added callback) h)"
proof -
  let ?m = "m_callbackCollection h" and ?n = "fst s"
  define iter where "iter = (if ?m = [] then 0 else fst (last ?m) + 1)"
  have m: "allocated h = ?n" "sorted_wrt (<) (map fst ?m)" "\<forall>k \<in> set (map fst ?m). unat k < ?n"
    "list_all2 (entry_matches h) ?m (snd s)" "\<forall>p. objects h p \<noteq> None \<longrightarrow> p < ?n \<and> p \<in> set (map fst (snd s))"
    using assms(1) by (auto simp: handler_matches_def)
  have iter: "unat iter \<le> ?n \<and> (\<forall>k \<in> set (map fst ?m). k < iter)"
  proof (cases "?m = []")
    case False
    then show ?thesis using next_index [OF m(2,3) assms(2)] by (simp add: iter_def last_map)
  qed (simp add: iter_def)
  let ?h = "handler_after (Added callback) h"
  have h: "m_callbackCollection ?h = ?m @ [(iter, ?n)]" "allocated ?h = ?n + 1"
    "objects ?h = (objects h)(?n \<mapsto> \<lparr>m_iterator = iter, m_attached = True, m_callback = callback\<rparr>)"
    using map_assign_last [OF conjunct2 [OF iter]] m(1) by (simp_all add: cb_add_def Let_def iter_def)
  have keep: "list_all2 (entry_matches ?h) ?m (snd s)"
    using m(4) by (rule list_all2_mono) (use m(5) in \<open>auto simp: entry_matches_def h(3) simp del: handler_after.simps\<close>)
  have "entry_matches ?h (iter, ?n) (?n, callback)" unfolding entry_matches_def h(3) by simp
  then have la: "list_all2 (entry_matches ?h) (?m @ [(iter, ?n)]) (snd s @ [(?n, callback)])"
    using keep by (intro list_all2_appendI) simp_all
  have s: "registered_after (Added callback) s = (?n + 1, snd s @ [(?n, callback)])" by (cases s) simp
  show ?thesis using m iter la unfolding handler_matches_def h s
    by (auto simp: sorted_wrt_append less_Suc_eq simp del: handler_after.simps)
qed

lemma list_all2_filter:
  "list_all2 R xs ys \<Longrightarrow> \<forall>(x, y) \<in> set (zip xs ys). P x = Q y \<Longrightarrow> list_all2 R (filter P xs) (filter Q ys)"
  by (induction rule: list_all2_induct) auto

lemma matches_release:
  assumes "handler_matches s h"
  shows "handler_matches (registered_after (Released p) s) (handler_after (Released p) h)"
proof -
  let ?m = "m_callbackCollection h"
  have m: "allocated h = fst s" "sorted_wrt (<) (map fst ?m)" "\<forall>k \<in> set (map fst ?m). unat k < fst s"
    "list_all2 (entry_matches h) ?m (snd s)" "\<forall>p. objects h p \<noteq> None \<longrightarrow> p < fst s \<and> p \<in> set (map fst (snd s))"
    using assms by (auto simp: handler_matches_def)
  have s: "registered_after (Released p) s = (fst s, filter (\<lambda>r. fst r \<noteq> p) (snd s))" by (cases s) simp
  have zip: "entry_matches h e r" "e \<in> set ?m" "r \<in> set (snd s)" if "(e, r) \<in> set (zip ?m (snd s))" for e r
    using that m(4) by (auto simp: list_all2_iff dest: set_zip_leftD set_zip_rightD)
  show ?thesis
  proof (cases "objects h p")
    case None
    have "fst r \<noteq> p" if r: "r \<in> set (snd s)" for r
    proof -
      obtain e where "(e, r) \<in> set (zip ?m (snd s))"
        using r m(4) by (metis in_set_impl_in_set_zip2 list_all2_lengthD)
      from zip(1) [OF this] show ?thesis using None by (auto simp: entry_matches_def)
    qed
    then show ?thesis using assms None unfolding s by (simp add: cb_release_def filter_id_conv [THEN iffD2] prod.expand)
  next
    case (Some c)
    then have "p \<in> set (map fst (snd s))" using m(5) by blast
    then obtain e r where er: "(e, r) \<in> set (zip ?m (snd s))" "fst r = p"
      using m(4) by (metis (no_types, lifting) in_set_impl_in_set_zip2 list_all2_lengthD imageE list.set_map)
    then have c: "c = \<lparr>m_iterator = fst e, m_attached = True, m_callback = snd r\<rparr>" "snd e = p"
      using zip(1) [OF er(1)] Some er(2) by (auto simp: entry_matches_def)
    have key: "(fst e' \<noteq> fst e) = (fst r' \<noteq> p)" if z: "(e', r') \<in> set (zip ?m (snd s))" for e' r'
    proof -
      have e': "snd e' = fst r'" "objects h (snd e') = Some \<lparr>m_iterator = fst e', m_attached = True, m_callback = snd r'\<rparr>"
        using zip(1) [OF z] unfolding entry_matches_def by blast+
      have "fst r' = p" if "fst e' = fst e"
      proof -
        have "snd e' = snd e"
          using that m(2) zip(2) [OF z] zip(2) [OF er(1)] strict_sorted_iff [of "map fst ?m"]
          by (metis eq_key_imp_eq_value prod.collapse)
        then show ?thesis using e'(1) c(2) by simp
      qed
      moreover have "fst e' = fst e" if "fst r' = p" using that e' Some c(1) by simp
      ultimately show ?thesis by blast
    qed
    let ?h = "handler_after (Released p) h"
    have h: "m_callbackCollection ?h = filter (\<lambda>e'. fst e' \<noteq> fst e) ?m" "objects ?h = (objects h)(p := None)" "allocated ?h = allocated h"
      using Some c by (simp_all add: cb_release_def map_erase_def)
    have "list_all2 (entry_matches h) (filter (\<lambda>e'. fst e' \<noteq> fst e) ?m) (filter (\<lambda>r. fst r \<noteq> p) (snd s))"
      using m(4) key by (intro list_all2_filter) auto
    then have "list_all2 (entry_matches ?h) (filter (\<lambda>e'. fst e' \<noteq> fst e) ?m) (filter (\<lambda>r. fst r \<noteq> p) (snd s))"
      by (rule list.rel_mono_strong) (auto simp: entry_matches_def h(2) simp del: handler_after.simps)
    then show ?thesis using m unfolding handler_matches_def h s
      by (auto simp: sorted_wrt_filter sorted_wrt_map)
  qed
qed

lemma matches_fold:
  assumes "handler_matches s h" "fst s + length es \<le> 2 ^ 32"
  shows "handler_matches (fold registered_after es s) (fold handler_after es h)"
  using assms
proof (induction es arbitrary: s h)
  case (Cons e es)
  have "handler_matches (registered_after e s) (handler_after e h)"
  proof (cases e)
    case (Added callback)
    then show ?thesis using matches_add [OF Cons.prems(1)] Cons.prems(2) by simp
  next
    case (Released p)
    then show ?thesis using matches_release [OF Cons.prems(1)] by simp
  qed
  moreover have "fst (registered_after e s) \<le> fst s + 1" by (cases e; cases s) simp_all
  ultimately show ?case using Cons.IH Cons.prems(2) by simp
qed simp

text \<open>
  C30: callbacks are called in order: after any sequence of registrations and releases of at
  most two to the 32 steps, calling the handler calls exactly the callbacks still owned,
  each once, in the order of their registration.
\<close>

theorem callbacks_called_in_order:
  assumes "length es \<le> 2 ^ 32"
  shows "cb_call (fold handler_after es new_handler) = map snd (snd (registered es))"
proof -
  have "handler_matches (0, []) (new_handler :: 'a callback_handler)" by (simp add: handler_matches_def new_handler_def)
  from matches_fold [OF this, of es] assms show ?thesis unfolding registered_def by (intro matches_calls) simp
qed

theorem callbacks_called_in_order_witness:
  "cb_call (fold handler_after [Added (1 :: nat), Added 2, Released 1, Added 3, Released 0] new_handler) = [3]"
  using callbacks_called_in_order [of "[Added (1 :: nat), Added 2, Released 1, Added 3, Released 0]"]
  by (simp add: registered_def)

section \<open>Sequence numbers\<close>

lemma newSeq_value: "digits_value (fst (newSeq seq)) = unat (seq + 1)"
proof -
  have "digits_value (replicate n CHR ''0'' @ ds) = digits_value ds" for n ds
    by (induction n) (simp_all add: digits_value_def)
  then show ?thesis by (simp add: newSeq_def Let_def digits_value_to_string)
qed

lemma newSeq_distinct: "fst (newSeq a) = fst (newSeq b) \<longleftrightarrow> a = b"
  using newSeq_value [of a] newSeq_value [of b] by (metis add_right_cancel word_unat_eq_iff)

end
