(* ===== verification/Network_Messages.thy ===== *)
theory Network_Messages
  imports Protocol_Objects Node_Config
begin

text \<open>
  What nodes exchange and know of each other: topic messages (\<^verbatim>\<open>libprotocol/amop\<close>), the messages
  that synchronise transactions (\<^verbatim>\<open>libsync/protocol\<close>), the node lists of the synchronisation
  (\<^verbatim>\<open>libsync/SyncConfig.h\<close>) and endpoints (\<^verbatim>\<open>interfaces/gateway/GatewayTypeDef.h\<close>).
\<close>

section \<open>Topic messages\<close>

record amop_request =
  m_topic :: bytes
  m_data :: bytes

definition new_amop_request :: amop_request where
  "new_amop_request = \<lparr>m_topic = [], m_data = []\<rparr>"

definition TOPIC_MAX_LENGTH :: nat where "TOPIC_MAX_LENGTH = 65535"
definition MESSAGE_MIN_LENGTH :: nat where "MESSAGE_MIN_LENGTH = 2"

definition setTopic :: "bytes \<Rightarrow> amop_request \<Rightarrow> amop_request" where
  "setTopic topic r = r\<lparr>m_topic := topic\<rparr>"

definition setData :: "bytes \<Rightarrow> amop_request \<Rightarrow> amop_request" where
  "setData data r = r\<lparr>m_data := data\<rparr>"

text \<open>The two bytes of a 16-bit number in network order, and back.\<close>

definition network_short :: "nat \<Rightarrow> bytes" where
  "network_short n = [of_nat (n div 256 mod 256), of_nat (n mod 256)]"

definition host_short :: "bytes \<Rightarrow> nat" where
  "host_short bs = unat (bs ! 0) * 256 + unat (bs ! 1)"

text \<open>The result says whether anything was appended to the buffer.\<close>

definition amop_encode :: "amop_request \<Rightarrow> bytes \<Rightarrow> bool \<times> bytes" where
  "amop_encode r buffer =
     (if length (m_topic r) > TOPIC_MAX_LENGTH then (False, buffer)
      else (True, buffer @ network_short (length (m_topic r)) @ m_topic r @ m_data r))"

text \<open>
  The range check throws \<^verbatim>\<open>std::runtime_error\<close> while the handler is for \<^verbatim>\<open>std::string\<close>, so the
  exception leaves the function; it does so before anything is assigned.
\<close>

datatype amop_error = RuntimeError

definition amop_decode :: "bytes \<Rightarrow> amop_request \<Rightarrow> amop_error + int \<times> amop_request" where
  "amop_decode data r =
     (if length data < MESSAGE_MIN_LENGTH then Inr (- 1, r)
      else (let offset = 0 in
        if offset + 2 > length data then Inl RuntimeError
        else (let topicLen = host_short (take 2 data); offset = offset + 2 in
          if offset + topicLen > length data then Inl RuntimeError
          else Inr (int (length data),
                 r\<lparr>m_topic := take topicLen (drop offset data), m_data := drop (offset + topicLen) data\<rparr>))))"

section \<open>Subscribed topics\<close>

text \<open>
  A parsed JSON text gives, under the key of the topics, a list of values that convert to
  text or raise; the parser is a parameter.  The second component is the set of the caller.
\<close>

fun topics_loop :: "string option list \<Rightarrow> string set \<Rightarrow> string set option" where
  "topics_loop [] topicItems = Some topicItems"
| "topics_loop (None # vs) topicItems = None"
| "topics_loop (Some topic # vs) topicItems = topics_loop vs (insert topic topicItems)"

definition parseSubTopicsJson ::
    "(string \<Rightarrow> string option list option) \<Rightarrow> string \<Rightarrow> string set \<Rightarrow> bool \<times> string set" where
  "parseSubTopicsJson parse json items =
     (case parse json of
        None \<Rightarrow> (False, items)
      | Some vs \<Rightarrow> (case topics_loop vs {} of None \<Rightarrow> (False, items) | Some topicItems \<Rightarrow> (True, topicItems)))"

section \<open>Transaction synchronisation messages\<close>

record raw_sync_message =
  rs_version :: int
  rs_type :: int
  rs_txsdata :: bytes
  rs_txshash :: "bytes list"

record txs_sync_msg =
  m_rawSyncMessage :: raw_sync_message
  m_txsHash :: "bytes list"

definition new_sync_msg :: txs_sync_msg where
  "new_sync_msg =
     \<lparr>m_rawSyncMessage = \<lparr>rs_version = 0, rs_type = 0, rs_txsdata = [], rs_txshash = []\<rparr>, m_txsHash = []\<rparr>"

definition sync_setVersion :: "int \<Rightarrow> txs_sync_msg \<Rightarrow> txs_sync_msg" where
  "sync_setVersion v m = m\<lparr>m_rawSyncMessage := (m_rawSyncMessage m)\<lparr>rs_version := v\<rparr>\<rparr>"

definition sync_setType :: "int \<Rightarrow> txs_sync_msg \<Rightarrow> txs_sync_msg" where
  "sync_setType ty m = m\<lparr>m_rawSyncMessage := (m_rawSyncMessage m)\<lparr>rs_type := ty\<rparr>\<rparr>"

definition sync_setTxsData :: "bytes \<Rightarrow> txs_sync_msg \<Rightarrow> txs_sync_msg" where
  "sync_setTxsData data m = m\<lparr>m_rawSyncMessage := (m_rawSyncMessage m)\<lparr>rs_txsdata := data\<rparr>\<rparr>"

definition sync_setTxsHash :: "bytes list \<Rightarrow> txs_sync_msg \<Rightarrow> txs_sync_msg" where
  "sync_setTxsHash hs m = m\<lparr>m_txsHash := hs, m_rawSyncMessage := (m_rawSyncMessage m)\<lparr>rs_txshash := hs\<rparr>\<rparr>"

text \<open>A hash is read as 32 bytes from the start of the stored string, whatever its length.\<close>

definition deserializeObject :: "txs_sync_msg \<Rightarrow> protocol_error + txs_sync_msg" where
  "deserializeObject m =
     bind_res (map_res (\<lambda>hashData. if length hashData < 32 then Inl OutOfBounds else Inr (take 32 hashData))
                 (rs_txshash (m_rawSyncMessage m)))
       (\<lambda>hs. Inr (m\<lparr>m_txsHash := hs\<rparr>))"

definition sync_encode :: "(raw_sync_message \<Rightarrow> bytes option) \<Rightarrow> txs_sync_msg \<Rightarrow> protocol_error + bytes" where
  "sync_encode ser m = encodePBObject ser (m_rawSyncMessage m)"

definition sync_decode ::
    "(bytes \<Rightarrow> raw_sync_message option) \<Rightarrow> bytes \<Rightarrow> txs_sync_msg \<Rightarrow> protocol_error + txs_sync_msg" where
  "sync_decode parse data m =
     bind_res (decodePBObject parse data) (\<lambda>raw. deserializeObject (m\<lparr>m_rawSyncMessage := raw\<rparr>))"

section \<open>Node lists of the synchronisation\<close>

record sync_config =
  sy_nodeId :: bytes
  sy_consensusNodeList :: "consensus_node list"
  sy_observerNodeList :: "consensus_node list"
  sy_nodeList :: "bytes set"
  sy_connectedNodeList :: "bytes set"

definition new_sync_config :: "bytes \<Rightarrow> sync_config" where
  "new_sync_config nodeId =
     \<lparr>sy_nodeId = nodeId, sy_consensusNodeList = [], sy_observerNodeList = [], sy_nodeList = {}, sy_connectedNodeList = {}\<rparr>"

text \<open>The write of the node list, from the two lists that were read before.\<close>

definition write_node_list :: "consensus_node list \<Rightarrow> sync_config \<Rightarrow> sync_config" where
  "write_node_list nodeList c = c\<lparr>sy_nodeList := fold (\<lambda>node s. insert (cn_nodeID node) s) nodeList {}\<rparr>"

definition updateNodeList :: "sync_config \<Rightarrow> sync_config" where
  "updateNodeList c = write_node_list (sy_consensusNodeList c @ sy_observerNodeList c) c"

definition sync_setConsensusNodeList :: "consensus_node list \<Rightarrow> sync_config \<Rightarrow> sync_config" where
  "sync_setConsensusNodeList ns c = updateNodeList (c\<lparr>sy_consensusNodeList := ns\<rparr>)"

definition sync_setObserverList :: "consensus_node list \<Rightarrow> sync_config \<Rightarrow> sync_config" where
  "sync_setObserverList ns c = updateNodeList (c\<lparr>sy_observerNodeList := ns\<rparr>)"

definition sync_setConnectedNodeList :: "bytes set \<Rightarrow> sync_config \<Rightarrow> sync_config" where
  "sync_setConnectedNodeList ns c = c\<lparr>sy_connectedNodeList := ns\<rparr>"

definition existsInGroup :: "bytes \<Rightarrow> sync_config \<Rightarrow> bool" where
  "existsInGroup nodeId c = (nodeId \<in> sy_nodeList c)"

definition self_existsInGroup :: "sync_config \<Rightarrow> bool" where
  "self_existsInGroup c = existsInGroup (sy_nodeId c) c"

text \<open>The result also says whether the callback is called, which is then without an error.\<close>

definition notifyConnectedNodes :: "bytes set \<Rightarrow> bool \<Rightarrow> sync_config \<Rightarrow> bool \<times> sync_config" where
  "notifyConnectedNodes connectedNodes hasCallback c =
     (let c' = sync_setConnectedNodeList connectedNodes c in if \<not> hasCallback then (False, c') else (True, c'))"

definition connected :: "bytes \<Rightarrow> sync_config \<Rightarrow> bool" where
  "connected nodeId c = (nodeId \<in> sy_connectedNodeList c)"

text \<open>
  The same with several threads: each list has its own lock, so a setter is four critical
  sections: the assignment, the two reads and the write of the node list.
\<close>

datatype updater_pc = Idle | ReadConsensus | ReadObserver "consensus_node list" | WriteNodes "consensus_node list"

datatype sync_event =
  SetConsensus nat "consensus_node list" | SetObserver nat "consensus_node list" | SetConnected "bytes set"
| Continue nat

type_synonym sync_state = "sync_config \<times> (nat \<Rightarrow> updater_pc)"

fun sync_step :: "sync_event \<Rightarrow> sync_state \<Rightarrow> sync_state \<Rightarrow> bool" where
  "sync_step (SetConsensus i ns) (c, pc) s' =
     (pc i = Idle \<and> s' = (c\<lparr>sy_consensusNodeList := ns\<rparr>, pc(i := ReadConsensus)))"
| "sync_step (SetObserver i ns) (c, pc) s' =
     (pc i = Idle \<and> s' = (c\<lparr>sy_observerNodeList := ns\<rparr>, pc(i := ReadConsensus)))"
| "sync_step (SetConnected ns) (c, pc) s' = (s' = (sync_setConnectedNodeList ns c, pc))"
| "sync_step (Continue i) (c, pc) s' =
     (case pc i of
        Idle \<Rightarrow> False
      | ReadConsensus \<Rightarrow> s' = (c, pc(i := ReadObserver (sy_consensusNodeList c)))
      | ReadObserver ns \<Rightarrow> s' = (c, pc(i := WriteNodes (ns @ sy_observerNodeList c)))
      | WriteNodes ns \<Rightarrow> s' = (write_node_list ns c, pc(i := Idle)))"

section \<open>Endpoints\<close>

record node_ip_endpoint =
  m_host :: string
  m_port :: "16 word"
  m_ipv6 :: bool

definition endpoint_less :: "node_ip_endpoint \<Rightarrow> node_ip_endpoint \<Rightarrow> bool" where
  "endpoint_less a b = (m_host a @ to_string (unat (m_port a)) < m_host b @ to_string (unat (m_port b)))"

definition endpoint_equal :: "node_ip_endpoint \<Rightarrow> node_ip_endpoint \<Rightarrow> bool" where
  "endpoint_equal a b = (m_host a @ to_string (unat (m_port a)) = m_host b @ to_string (unat (m_port b)))"

definition endpoint_print :: "node_ip_endpoint \<Rightarrow> string" where
  "endpoint_print e = m_host e @ '':'' @ to_string (unat (m_port e))"

record p2p_info =
  pi_p2pID :: string
  pi_agencyName :: string
  pi_nodeName :: string
  pi_nodeIPEndpoint :: node_ip_endpoint

record gateway_info =
  m_p2pInfo :: p2p_info
  m_nodeIDInfo :: "string \<rightharpoonup> string set"

definition setNodeIDInfo :: "(string \<rightharpoonup> string set) \<Rightarrow> gateway_info \<Rightarrow> gateway_info" where
  "setNodeIDInfo m g = g\<lparr>m_nodeIDInfo := m\<rparr>"

definition setP2PInfo :: "p2p_info \<Rightarrow> gateway_info \<Rightarrow> gateway_info" where
  "setP2PInfo p g = g\<lparr>m_p2pInfo := p\<rparr>"

end
