(* ===== verification/Network_Messages_Props.thy ===== *)
theory Network_Messages_Props
  imports Network_Messages Protocol_Objects_Props
begin

text \<open>
  Messages are read back as they were written; what the decoder does with every other
  input; node lists under sequential and concurrent updates; the order on endpoints.
\<close>

section \<open>Topic messages\<close>

lemma host_network_short: "n < 65536 \<Longrightarrow> host_short (network_short n) = n"
  by (simp add: host_short_def network_short_def unat_of_nat)

lemma host_short_bound: "host_short bs < 65536"
proof -
  have "unat (bs ! 0) < 256" "unat (bs ! 1) < 256" by simp_all
  then show ?thesis unfolding host_short_def by linarith
qed

lemma network_host_short: "length bs = 2 \<Longrightarrow> network_short (host_short bs) = bs"
proof -
  assume "length bs = 2"
  then obtain a b where bs: "bs = [a, b]" by (auto simp: length_Suc_conv numeral_2_eq_2)
  have "(unat a * 256 + unat b) div 256 = unat a" "(unat a * 256 + unat b) mod 256 = unat b" by simp_all
  then show ?thesis by (simp add: bs host_short_def network_short_def)
qed

lemma amop_decode_message:
  "length topic \<le> 65535 \<Longrightarrow>
   amop_decode (network_short (length topic) @ topic @ data) r =
     Inr (int (length topic + length data + 2), r\<lparr>m_topic := topic, m_data := data\<rparr>)"
  using host_network_short [of "length topic"]
  by (simp add: amop_decode_def MESSAGE_MIN_LENGTH_def Let_def) (simp add: network_short_def)

text \<open>
  C35: topic messages: an accepted message decodes to its topic and data and to its full
  length, encoding fails exactly for topics of more than 65535 bytes, and conversely every
  input that decodes to its length is the encoding of what it decodes to.
\<close>

theorem amop_round_trip:
  "(length (m_topic r) \<le> 65535 \<longleftrightarrow> fst (amop_encode r [])) \<and>
   (fst (amop_encode r []) \<longrightarrow>
      amop_decode (snd (amop_encode r [])) r0 = Inr (int (length (snd (amop_encode r []))), r)) \<and>
   (amop_decode data r0 = Inr (int (length data), r) \<longrightarrow> amop_encode r [] = (True, data))"
proof (intro conjI impI)
  show "length (m_topic r) \<le> 65535 \<longleftrightarrow> fst (amop_encode r [])" by (simp add: amop_encode_def TOPIC_MAX_LENGTH_def)
next
  assume "fst (amop_encode r [])"
  then have "length (m_topic r) \<le> 65535" by (simp add: amop_encode_def TOPIC_MAX_LENGTH_def split: if_splits)
  then show "amop_decode (snd (amop_encode r [])) r0 = Inr (int (length (snd (amop_encode r []))), r)"
    using amop_decode_message [of "m_topic r" "m_data r" r0]
    by (simp add: amop_encode_def TOPIC_MAX_LENGTH_def) (simp add: network_short_def)
next
  assume d: "amop_decode data r0 = Inr (int (length data), r)"
  then have l: "2 \<le> length data" "2 + host_short (take 2 data) \<le> length data"
      "r = r0\<lparr>m_topic := take (host_short (take 2 data)) (drop 2 data), m_data := drop (2 + host_short (take 2 data)) data\<rparr>"
    by (auto simp: amop_decode_def MESSAGE_MIN_LENGTH_def Let_def numeral_2_eq_2 split: if_splits)
  define n where "n = host_short (take 2 data)"
  have "length (m_topic r) = n" using l by (simp add: n_def)
  moreover have "network_short n = take 2 data" using l(1) network_host_short [of "take 2 data"] by (simp add: n_def)
  moreover have "m_topic r @ m_data r = drop 2 data"
    using append_take_drop_id [of n "drop 2 data"] by (simp add: l(3) n_def add.commute)
  ultimately have "network_short (length (m_topic r)) @ m_topic r @ m_data r = data"
    using append_take_drop_id [of 2 data] by simp
  then show "amop_encode r [] = (True, data)"
    using l host_short_bound [of "take 2 data"] by (simp add: amop_encode_def TOPIC_MAX_LENGTH_def)
qed

theorem amop_round_trip_witness:
  "amop_decode (snd (amop_encode \<lparr>m_topic = [7, 8], m_data = [9]\<rparr> [])) new_amop_request = Inr (5, \<lparr>m_topic = [7, 8], m_data = [9]\<rparr>)"
proof -
  have "fst (amop_encode \<lparr>m_topic = [7, 8], m_data = [9]\<rparr> [])" by (simp add: amop_encode_def TOPIC_MAX_LENGTH_def)
  with amop_round_trip [of "\<lparr>m_topic = [7, 8], m_data = [9]\<rparr>" new_amop_request] show ?thesis
    by (simp add: amop_encode_def TOPIC_MAX_LENGTH_def network_short_def)
qed

text \<open>
  Malformed topic messages: decoding returns -1 exactly for inputs of fewer than two
  bytes; an input whose topic length points past its end is not reported that way but
  leaves the function by an exception.
\<close>

theorem amop_malformed:
  "(amop_decode data r = Inr (- 1, r') \<longleftrightarrow> length data < 2 \<and> r' = r) \<and>
   (amop_decode data r = Inl RuntimeError \<longleftrightarrow> 2 \<le> length data \<and> length data < 2 + host_short (take 2 data))"
  by (auto simp: amop_decode_def MESSAGE_MIN_LENGTH_def Let_def)

section \<open>Subscribed topics\<close>

lemma topics_loop_Some: "topics_loop vs s = Some items \<longleftrightarrow> (\<forall>v \<in> set vs. v \<noteq> None) \<and> items = s \<union> Option.these (set vs)"
proof (induction vs arbitrary: s)
  case (Cons v vs)
  then show ?case by (cases v) auto
qed (auto simp: Option.these_def)

lemma parseSubTopicsJson_fails_keeps: "\<not> fst (parseSubTopicsJson parse json items) \<Longrightarrow> snd (parseSubTopicsJson parse json items) = items"
  by (auto simp: parseSubTopicsJson_def split: option.splits)

section \<open>Transaction synchronisation messages\<close>

datatype sync_setter = SyncVersion int | SyncType int | SyncData bytes | SyncHashes "bytes list"

fun sync_set :: "sync_setter \<Rightarrow> txs_sync_msg \<Rightarrow> txs_sync_msg" where
  "sync_set (SyncVersion v) m = sync_setVersion v m"
| "sync_set (SyncType ty) m = sync_setType ty m"
| "sync_set (SyncData d) m = sync_setTxsData d m"
| "sync_set (SyncHashes hs) m = sync_setTxsHash hs m"

definition hashes_ok :: "sync_setter \<Rightarrow> bool" where
  "hashes_ok s = (case s of SyncHashes hs \<Rightarrow> (\<forall>h \<in> set hs. length h = 32) | _ \<Rightarrow> True)"

definition sync_inv :: "txs_sync_msg \<Rightarrow> bool" where
  "sync_inv m = (m_txsHash m = rs_txshash (m_rawSyncMessage m) \<and> (\<forall>h \<in> set (m_txsHash m). length h = 32))"

lemma sync_inv_fold: "sync_inv m \<Longrightarrow> list_all hashes_ok ss \<Longrightarrow> sync_inv (fold sync_set ss m)"
proof (induction ss arbitrary: m)
  case (Cons s ss)
  have "sync_inv (sync_set s m)"
    using Cons.prems by (cases s)
      (auto simp: sync_inv_def hashes_ok_def sync_setVersion_def sync_setType_def sync_setTxsData_def sync_setTxsHash_def)
  then show ?case using Cons by simp
qed simp

lemma map_res_take: "\<forall>h \<in> set hs. length h = 32 \<Longrightarrow>
  map_res (\<lambda>d. if length d < 32 then Inl OutOfBounds else Inr (take 32 d)) hs = Inr hs"
  by (induction hs) auto

text \<open>
  C31: synchronisation messages: a message built by any sequence of setters and encoded is
  read by any receiver, also into an object in use, as the same message with the same
  hashes.
\<close>

theorem sync_message_round_trip:
  assumes "pb_lawful ser parse (m_rawSyncMessage new_sync_msg)" "list_all hashes_ok ss"
    "sync_encode ser (fold sync_set ss new_sync_msg) = Inr data"
  shows "sync_decode parse data m0 = Inr (fold sync_set ss new_sync_msg)"
proof -
  define m where "m = fold sync_set ss new_sync_msg"
  have inv: "sync_inv m" unfolding m_def by (rule sync_inv_fold [OF _ assms(2)]) (simp add: sync_inv_def new_sync_msg_def)
  have "ser (m_rawSyncMessage m) = Some data" using assms(3) by (simp add: sync_encode_def encodePBObject_def m_def split: option.splits)
  then have "parse data = Some (m_rawSyncMessage m)" by (rule pb_lawfulD [OF assms(1)])
  then show ?thesis using inv map_res_take [of "m_txsHash m"]
    by (simp add: sync_decode_def decodePBObject_def deserializeObject_def sync_inv_def m_def [symmetric])
qed

definition sample_sync_ser :: "raw_sync_message \<Rightarrow> bytes option" where
  "sample_sync_ser m =
     (if m = m_rawSyncMessage new_sync_msg then Some []
      else if m = (m_rawSyncMessage new_sync_msg)\<lparr>rs_txshash := [replicate 32 5]\<rparr> then Some [1] else None)"

definition sample_sync_parse :: "bytes \<Rightarrow> raw_sync_message option" where
  "sample_sync_parse b =
     (if b = [] then Some (m_rawSyncMessage new_sync_msg)
      else if b = [1] then Some ((m_rawSyncMessage new_sync_msg)\<lparr>rs_txshash := [replicate 32 5]\<rparr>) else None)"

theorem sync_message_round_trip_witness:
  "\<exists>m. sync_decode sample_sync_parse [1] new_sync_msg = Inr m \<and> m_txsHash m = [replicate 32 5]"
proof -
  have l: "pb_lawful sample_sync_ser sample_sync_parse (m_rawSyncMessage new_sync_msg)"
    by (auto simp: pb_lawful_def sample_sync_ser_def sample_sync_parse_def split: if_splits)
  have e: "sync_encode sample_sync_ser (fold sync_set [SyncHashes [replicate 32 5]] new_sync_msg) = Inr [1]"
    by (simp add: sync_encode_def encodePBObject_def sample_sync_ser_def sync_setTxsHash_def new_sync_msg_def)
  have "list_all hashes_ok [SyncHashes [replicate 32 5]]" by (simp add: hashes_ok_def)
  from sync_message_round_trip [OF l this e, of new_sync_msg] show ?thesis by (simp add: sync_setTxsHash_def)
qed

section \<open>Node lists of the synchronisation\<close>

lemma write_node_list_ids: "sy_nodeList (write_node_list ns c) = cn_nodeID ` set ns"
proof -
  have "fold (\<lambda>node s. insert (cn_nodeID node) s) ns S = S \<union> cn_nodeID ` set ns" for S
    by (induction ns arbitrary: S) auto
  then show ?thesis by (simp add: write_node_list_def)
qed

definition group_ids :: "sync_config \<Rightarrow> bytes set" where
  "group_ids c = cn_nodeID ` set (sy_consensusNodeList c @ sy_observerNodeList c)"

lemma updateNodeList_ids: "sy_nodeList (updateNodeList c) = group_ids c"
  by (simp add: updateNodeList_def write_node_list_ids group_ids_def)

text \<open>Setters that do not overlap: one starts only when no other is under way.\<close>

definition sync_alone :: "sync_event \<Rightarrow> sync_state \<Rightarrow> sync_state \<Rightarrow> bool" where
  "sync_alone l s s' =
     (sync_step l s s' \<and> (case l of SetConnected ns \<Rightarrow> True | Continue i \<Rightarrow> True | _ \<Rightarrow> \<forall>j. snd s j = Idle))"

definition pc_current :: "sync_config \<Rightarrow> updater_pc \<Rightarrow> bool" where
  "pc_current c pc =
     (case pc of
        ReadObserver ns \<Rightarrow> ns = sy_consensusNodeList c
      | WriteNodes ns \<Rightarrow> ns = sy_consensusNodeList c @ sy_observerNodeList c
      | _ \<Rightarrow> True)"

definition sync_state_inv :: "sync_state \<Rightarrow> bool" where
  "sync_state_inv s =
     ((\<forall>i j. snd s i \<noteq> Idle \<longrightarrow> snd s j \<noteq> Idle \<longrightarrow> i = j) \<and> (\<forall>i. pc_current (fst s) (snd s i)) \<and>
      ((\<forall>i. snd s i = Idle) \<longrightarrow> sy_nodeList (fst s) = group_ids (fst s)))"

lemma group_ids_write: "group_ids (write_node_list ns c) = group_ids c" "pc_current (write_node_list ns c) pc = pc_current c pc"
  by (cases pc; simp add: group_ids_def write_node_list_def pc_current_def)+

lemma sync_continue_inv:
  assumes inv: "sync_state_inv (c, pc)" and st: "sync_step (Continue i) (c, pc) s'"
  shows "sync_state_inv s'"
proof -
  have act: "pc i \<noteq> Idle" using st by auto
  then have idle: "j \<noteq> i \<Longrightarrow> pc j = Idle" for j using inv by (auto simp: sync_state_inv_def)
  have cur: "pc_current c (pc i)" using inv by (simp add: sync_state_inv_def)
  show ?thesis
  proof (cases "pc i")
    case (WriteNodes ns)
    then have ns: "ns = sy_consensusNodeList c @ sy_observerNodeList c" using cur by (simp add: pc_current_def)
    have s': "s' = (write_node_list ns c, pc(i := Idle))" using st WriteNodes by simp
    have "sy_nodeList (write_node_list ns c) = group_ids c" using ns by (simp add: write_node_list_ids group_ids_def)
    then show ?thesis using idle unfolding s' sync_state_inv_def by (simp add: group_ids_write pc_current_def)
  qed (use st act idle cur in \<open>auto simp: sync_state_inv_def pc_current_def\<close>)
qed

lemma sync_alone_inv:
  assumes "sync_state_inv s" "sync_alone l s s'"
  shows "sync_state_inv s'"
proof (cases l)
  case (Continue i)
  then show ?thesis using assms sync_continue_inv [of "fst s" "snd s" i s'] by (simp add: sync_alone_def)
next
  case (SetConnected ns)
  then have "s' = (sync_setConnectedNodeList ns (fst s), snd s)" using assms(2) by (cases s) (simp add: sync_alone_def)
  moreover have "group_ids (sync_setConnectedNodeList ns (fst s)) = group_ids (fst s)"
    "pc_current (sync_setConnectedNodeList ns (fst s)) pc = pc_current (fst s) pc"
    "sy_nodeList (sync_setConnectedNodeList ns (fst s)) = sy_nodeList (fst s)" for pc
    by (cases pc; simp add: sync_setConnectedNodeList_def group_ids_def pc_current_def)+
  ultimately show ?thesis using assms(1) by (simp add: sync_state_inv_def)
qed (use assms in \<open>cases s; auto simp: sync_alone_def sync_state_inv_def pc_current_def\<close>)+

interpretation syn: transition_system "\<lambda>s. \<exists>nodeId. s = (new_sync_config nodeId, \<lambda>i. Idle)" sync_alone sync_state_inv
proof unfold_locales
  fix s :: sync_state assume "\<exists>nodeId. s = (new_sync_config nodeId, \<lambda>i. Idle)"
  then show "sync_state_inv s" by (auto simp: sync_state_inv_def pc_current_def group_ids_def new_sync_config_def)
qed (rule sync_alone_inv)

text \<open>
  C36: node list: as long as the setters of the consensus and observer lists do not overlap,
  whenever none is under way a node is reported as part of the group exactly when it is in
  one of the two lists.
\<close>

theorem sync_node_list_current:
  assumes "run sync_alone (new_sync_config nodeId, \<lambda>i. Idle) ls (c, \<lambda>i. Idle)"
  shows "existsInGroup n c \<longleftrightarrow> (\<exists>node \<in> set (sy_consensusNodeList c @ sy_observerNodeList c). cn_nodeID node = n)"
proof -
  have "sync_state_inv (c, \<lambda>i. Idle)" using syn.reachable_inv assms by blast
  then show ?thesis by (auto simp: sync_state_inv_def existsInGroup_def group_ids_def)
qed

lemma take_step: "step l s s' \<Longrightarrow> run step s' ls s'' \<Longrightarrow> run step s (l # ls) s''"
  by (rule run.run_cons)

lemmas sync_run_simps = write_node_list_def sync_alone_def new_sync_config_def

theorem sync_node_list_current_witness:
  "\<exists>c. run sync_alone (new_sync_config [1], \<lambda>i. Idle)
      [SetConsensus 0 [\<lparr>cn_nodeID = [1], cn_weight = 1\<rparr>], Continue 0, Continue 0, Continue 0] (c, \<lambda>i. Idle) \<and> existsInGroup [1] c"
proof -
  let ?n = "\<lparr>cn_nodeID = [1], cn_weight = 1\<rparr>" and ?ls = "\<lambda>n. [SetConsensus 0 [n], Continue 0, Continue 0, Continue 0]"
  define c where "c = (new_sync_config [1])\<lparr>sy_consensusNodeList := [?n], sy_nodeList := {[1]}\<rparr>"
  have r: "run sync_alone (new_sync_config [1], \<lambda>i. Idle) (?ls ?n) (c, \<lambda>i. Idle)"
    by (rule take_step, simp add: sync_run_simps)+ (simp add: c_def new_sync_config_def run.run_nil fun_upd_idem)
  have "existsInGroup [1] c" using sync_node_list_current [OF r, of "[1]"] by (simp add: c_def)
  then show ?thesis using r by blast
qed

text \<open>
  Stale node list: two setters that overlap can leave a node list that lacks a node of
  the observer list although both have finished.
\<close>

theorem sync_node_list_stale:
  "\<exists>ls c. run sync_step (new_sync_config nodeId, \<lambda>i. Idle) ls (c, \<lambda>i. Idle) \<and>
     sy_observerNodeList c = [\<lparr>cn_nodeID = [2], cn_weight = 1\<rparr>] \<and> \<not> existsInGroup [2] c"
proof -
  let ?a = "\<lparr>cn_nodeID = [1], cn_weight = 1\<rparr>" and ?b = "\<lparr>cn_nodeID = [2], cn_weight = 1\<rparr>"
  define c where "c = (new_sync_config nodeId)\<lparr>sy_consensusNodeList := [?a], sy_observerNodeList := [?b], sy_nodeList := {[1]}\<rparr>"
  have "run sync_step (new_sync_config nodeId, \<lambda>i. Idle)
      [SetConsensus 0 [?a], Continue 0, Continue 0, SetObserver 1 [?b], Continue 1, Continue 1, Continue 1, Continue 0] (c, \<lambda>i. Idle)"
    by (rule take_step, simp add: sync_run_simps)+ (simp add: c_def new_sync_config_def run.run_nil fun_upd_idem)
  moreover have "\<not> existsInGroup [2] c" by (simp add: c_def existsInGroup_def)
  moreover have "sy_observerNodeList c = [?b]" by (simp add: c_def)
  ultimately show ?thesis by blast
qed

section \<open>Endpoints\<close>

lemma endpoint_trichotomy:
  "endpoint_equal a b \<longleftrightarrow> \<not> endpoint_less a b \<and> \<not> endpoint_less b a"
  by (auto simp: endpoint_equal_def endpoint_less_def)

text \<open>Host and port are compared as one text, so a digit can move from one to the other.\<close>

lemma endpoint_confusion:
  "endpoint_equal \<lparr>m_host = ''10.0.0.1'', m_port = 23, m_ipv6 = False\<rparr> \<lparr>m_host = ''10.0.0.12'', m_port = 3, m_ipv6 = False\<rparr>"
  by code_simp

end
