(* ===== verification/Group_Info.thy ===== *)
theory Group_Info
  imports Bcos_Prelude
begin

text \<open>
  Descriptions of groups and their nodes and their JSON form:
  \<^verbatim>\<open>interfaces/multigroup/{ChainNodeInfo,GroupInfo}.h\<close>.  The JSON library is a parameter: parsing,
  writing and the conversions of values, which raise when they do not apply.  An exception
  leaves the object with the members assigned so far, so an operation returns the object
  and the exception, if any.
\<close>

section \<open>JSON values\<close>

datatype json =
  JNull | JBool bool | JInt int | JString string | JArray "json list" | JObject "(string \<times> json) list"

record json_env =
  je_parse :: "string \<Rightarrow> json option"
  je_write :: "json \<Rightarrow> string"
  je_asString :: "json \<Rightarrow> string option"
  je_asUInt :: "json \<Rightarrow> nat option"
  je_asInt :: "json \<Rightarrow> int option"
  je_asBool :: "json \<Rightarrow> bool option"

text \<open>\<^verbatim>\<open>isMember\<close> raises on a value that is neither an object nor null.\<close>

definition isMember :: "json \<Rightarrow> string \<Rightarrow> bool option" where
  "isMember v key =
     (case v of JObject ms \<Rightarrow> Some (map_of ms key \<noteq> None) | JNull \<Rightarrow> Some False | _ \<Rightarrow> None)"

definition json_member :: "json \<Rightarrow> string \<Rightarrow> json" where
  "json_member v key = (case v of JObject ms \<Rightarrow> (case map_of ms key of Some x \<Rightarrow> x | None \<Rightarrow> JNull) | _ \<Rightarrow> JNull)"

datatype group_error = InvalidChainNodeInfo | InvalidGroupInfo | JsonError | NullFactory

type_synonym 's outcome = "'s \<times> group_error option"

definition then_do :: "'s outcome \<Rightarrow> ('s \<Rightarrow> 's outcome) \<Rightarrow> 's outcome" where
  "then_do r f = (case r of (s, None) \<Rightarrow> f s | (s, Some e) \<Rightarrow> (s, Some e))"

text \<open>A required member, and one that may be missing.\<close>

definition required :: "group_error \<Rightarrow> json \<Rightarrow> string \<Rightarrow> (json \<Rightarrow> 's \<Rightarrow> 's outcome) \<Rightarrow> 's \<Rightarrow> 's outcome" where
  "required e v key f s =
     (case isMember v key of
        None \<Rightarrow> (s, Some JsonError) | Some False \<Rightarrow> (s, Some e) | Some True \<Rightarrow> f (json_member v key) s)"

definition optional :: "json \<Rightarrow> string \<Rightarrow> (json \<Rightarrow> 's \<Rightarrow> 's outcome) \<Rightarrow> 's \<Rightarrow> 's outcome" where
  "optional v key f s =
     (case isMember v key of
        None \<Rightarrow> (s, Some JsonError) | Some False \<Rightarrow> (s, None) | Some True \<Rightarrow> f (json_member v key) s)"

text \<open>Convert and assign.\<close>

definition assign :: "(json \<Rightarrow> 'v option) \<Rightarrow> ('v \<Rightarrow> 's \<Rightarrow> 's) \<Rightarrow> json \<Rightarrow> 's \<Rightarrow> 's outcome" where
  "assign conv setter v s = (case conv v of None \<Rightarrow> (s, Some JsonError) | Some x \<Rightarrow> (setter x s, None))"

section \<open>Nodes\<close>

record chain_node_info =
  ci_microService :: bool
  ci_nodeName :: string
  ci_nodeType :: nat
  ci_nodeID :: string
  ci_servicesInfo :: "(int \<times> string) list"
  ci_iniConfig :: string

text \<open>No constructor but one initialises the node type; its value before that is an argument.\<close>

definition empty_node_info :: "nat \<Rightarrow> chain_node_info" where
  "empty_node_info uninit =
     \<lparr>ci_microService = False, ci_nodeName = [], ci_nodeType = uninit, ci_nodeID = [], ci_servicesInfo = [], ci_iniConfig = []\<rparr>"

definition new_node_info :: "string \<Rightarrow> nat \<Rightarrow> chain_node_info" where
  "new_node_info name ty = (empty_node_info ty)\<lparr>ci_nodeName := name\<rparr>"

definition serviceName :: "chain_node_info \<Rightarrow> int \<Rightarrow> string" where
  "serviceName c ty = (case map_of (ci_servicesInfo c) ty of None \<Rightarrow> [] | Some s \<Rightarrow> s)"

definition setNodeName :: "string \<Rightarrow> chain_node_info \<Rightarrow> chain_node_info" where
  "setNodeName name c = c\<lparr>ci_nodeName := name\<rparr>"

definition setNodeType :: "nat \<Rightarrow> chain_node_info \<Rightarrow> chain_node_info" where
  "setNodeType ty c = c\<lparr>ci_nodeType := ty\<rparr>"

definition appendServiceInfo :: "int \<Rightarrow> string \<Rightarrow> chain_node_info \<Rightarrow> chain_node_info" where
  "appendServiceInfo ty name c = c\<lparr>ci_servicesInfo := map_assign ty name (ci_servicesInfo c)\<rparr>"

definition setServicesInfo :: "(int \<times> string) list \<Rightarrow> chain_node_info \<Rightarrow> chain_node_info" where
  "setServicesInfo m c = c\<lparr>ci_servicesInfo := m\<rparr>"

definition node_setIniConfig :: "string \<Rightarrow> chain_node_info \<Rightarrow> chain_node_info" where
  "node_setIniConfig s c = c\<lparr>ci_iniConfig := s\<rparr>"

definition setNodeID :: "string \<Rightarrow> chain_node_info \<Rightarrow> chain_node_info" where
  "setNodeID s c = c\<lparr>ci_nodeID := s\<rparr>"

definition setMicroService :: "bool \<Rightarrow> chain_node_info \<Rightarrow> chain_node_info" where
  "setMicroService b c = c\<lparr>ci_microService := b\<rparr>"

text \<open>The loop over the services; an item must be an object with both members.\<close>

fun services_loop :: "json_env \<Rightarrow> json list \<Rightarrow> chain_node_info \<Rightarrow> chain_node_info outcome" where
  "services_loop env [] c = (c, None)"
| "services_loop env (item # items) c =
     (case item of
        JObject ms \<Rightarrow>
          if map_of ms ''type'' = None \<or> map_of ms ''serviceName'' = None then (c, Some InvalidChainNodeInfo)
          else (case (je_asInt env (json_member item ''type''), je_asString env (json_member item ''serviceName'')) of
                  (Some ty, Some name) \<Rightarrow> services_loop env items (appendServiceInfo ty name c)
                | _ \<Rightarrow> (c, Some JsonError))
      | _ \<Rightarrow> (c, Some InvalidChainNodeInfo))"

definition parse_services :: "json_env \<Rightarrow> json \<Rightarrow> chain_node_info \<Rightarrow> chain_node_info outcome" where
  "parse_services env v c =
     (case v of JArray items \<Rightarrow> services_loop env items c | _ \<Rightarrow> (c, Some InvalidChainNodeInfo))"

definition node_deserialize :: "json_env \<Rightarrow> string \<Rightarrow> chain_node_info \<Rightarrow> chain_node_info outcome" where
  "node_deserialize env text c =
     (case je_parse env text of
        None \<Rightarrow> (c, Some InvalidChainNodeInfo)
      | Some v \<Rightarrow>
          then_do (required InvalidChainNodeInfo v ''name'' (assign (je_asString env) setNodeName) c) (\<lambda>c.
          then_do (required InvalidChainNodeInfo v ''type'' (assign (je_asUInt env) setNodeType) c) (\<lambda>c.
          then_do (required InvalidChainNodeInfo v ''iniConfig'' (assign (je_asString env) node_setIniConfig) c) (\<lambda>c.
          then_do (required InvalidChainNodeInfo v ''serviceInfo'' (parse_services env) c) (\<lambda>c.
          then_do (optional v ''nodeID'' (assign (je_asString env) setNodeID) c) (\<lambda>c.
          optional v ''microService'' (assign (je_asBool env) setMicroService) c))))))"

text \<open>The members of a written object are ordered by their names.\<close>

definition service_json :: "int \<times> string \<Rightarrow> json" where
  "service_json p = JObject [(''serviceName'', JString (snd p)), (''type'', JInt (fst p))]"

definition node_serialize :: "chain_node_info \<Rightarrow> json" where
  "node_serialize c =
     JObject [(''iniConfig'', JString (ci_iniConfig c)), (''name'', JString (ci_nodeName c)),
       (''serviceInfo'', JArray (map service_json (ci_servicesInfo c))), (''type'', JInt (int (ci_nodeType c)))]"

section \<open>Groups\<close>

record group_info =
  gi_factory :: bool
  gi_chainID :: string
  gi_groupID :: string
  gi_genesisConfig :: string
  gi_iniConfig :: string
  m_nodeInfos :: "(string \<times> chain_node_info) list"

definition new_group_info :: "string \<Rightarrow> string \<Rightarrow> group_info" where
  "new_group_info chainID groupID =
     \<lparr>gi_factory = False, gi_chainID = chainID, gi_groupID = groupID, gi_genesisConfig = [], gi_iniConfig = [], m_nodeInfos = []\<rparr>"

definition nodeInfo :: "group_info \<Rightarrow> string \<Rightarrow> chain_node_info option" where
  "nodeInfo g name = map_of (m_nodeInfos g) name"

definition setGenesisConfig :: "string \<Rightarrow> group_info \<Rightarrow> group_info" where
  "setGenesisConfig s g = g\<lparr>gi_genesisConfig := s\<rparr>"

definition group_setIniConfig :: "string \<Rightarrow> group_info \<Rightarrow> group_info" where
  "group_setIniConfig s g = g\<lparr>gi_iniConfig := s\<rparr>"

definition setGroupID :: "string \<Rightarrow> group_info \<Rightarrow> group_info" where
  "setGroupID s g = g\<lparr>gi_groupID := s\<rparr>"

definition setChainID :: "string \<Rightarrow> group_info \<Rightarrow> group_info" where
  "setChainID s g = g\<lparr>gi_chainID := s\<rparr>"

definition setChainNodeInfoFactory :: "group_info \<Rightarrow> group_info" where
  "setChainNodeInfoFactory g = g\<lparr>gi_factory := True\<rparr>"

definition appendNodeInfo :: "chain_node_info \<Rightarrow> group_info \<Rightarrow> bool \<times> group_info" where
  "appendNodeInfo c g =
     (if map_of (m_nodeInfos g) (ci_nodeName c) \<noteq> None then (False, g)
      else (True, g\<lparr>m_nodeInfos := map_assign (ci_nodeName c) c (m_nodeInfos g)\<rparr>))"

definition updateNodeInfo :: "chain_node_info \<Rightarrow> group_info \<Rightarrow> group_info" where
  "updateNodeInfo c g = g\<lparr>m_nodeInfos := map_assign (ci_nodeName c) c (m_nodeInfos g)\<rparr>"

definition removeNodeInfo :: "chain_node_info \<Rightarrow> group_info \<Rightarrow> bool \<times> group_info" where
  "removeNodeInfo c g =
     (if map_of (m_nodeInfos g) (ci_nodeName c) = None then (False, g)
      else (True, g\<lparr>m_nodeInfos := map_erase (ci_nodeName c) (m_nodeInfos g)\<rparr>))"

definition nodesNum :: "group_info \<Rightarrow> nat" where
  "nodesNum g = length (m_nodeInfos g)"

text \<open>Each node is written to text again and given to the factory.\<close>

fun nodes_loop :: "json_env \<Rightarrow> nat \<Rightarrow> json list \<Rightarrow> group_info \<Rightarrow> group_info outcome" where
  "nodes_loop env uninit [] g = (g, None)"
| "nodes_loop env uninit (v # vs) g =
     (if \<not> gi_factory g then (g, Some NullFactory)
      else (case node_deserialize env (je_write env v) (empty_node_info uninit) of
              (c, Some e) \<Rightarrow> (g, Some e)
            | (c, None) \<Rightarrow> nodes_loop env uninit vs (snd (appendNodeInfo c g))))"

definition group_deserialize :: "json_env \<Rightarrow> nat \<Rightarrow> string \<Rightarrow> group_info \<Rightarrow> group_info outcome" where
  "group_deserialize env uninit text g =
     (case je_parse env text of
        None \<Rightarrow> (g, Some InvalidGroupInfo)
      | Some v \<Rightarrow>
          then_do (required InvalidGroupInfo v ''chainID'' (assign (je_asString env) setChainID) g) (\<lambda>g.
          then_do (required InvalidGroupInfo v ''groupID'' (assign (je_asString env) setGroupID) g) (\<lambda>g.
          then_do (optional v ''genesisConfig'' (assign (je_asString env) setGenesisConfig) g) (\<lambda>g.
          then_do (required InvalidGroupInfo v ''iniConfig'' (assign (je_asString env) group_setIniConfig) g) (\<lambda>g.
          required InvalidGroupInfo v ''nodeList''
            (\<lambda>ns g. case ns of JArray vs \<Rightarrow> nodes_loop env uninit vs g | _ \<Rightarrow> (g, Some InvalidGroupInfo)) g)))))"

definition group_serialize :: "group_info \<Rightarrow> json" where
  "group_serialize g =
     JObject [(''chainID'', JString (gi_chainID g)), (''genesisConfig'', JString (gi_genesisConfig g)),
       (''groupID'', JString (gi_groupID g)), (''iniConfig'', JString (gi_iniConfig g)),
       (''nodeList'', JArray (map (\<lambda>p. node_serialize (snd p)) (m_nodeInfos g)))]"

end
