(* ===== verification/Group_Info_Props.thy ===== *)
theory Group_Info_Props
  imports Group_Info
begin

text \<open>
  The registry of nodes behaves as a map from names, and a group survives being written
  to JSON and read back, apart from the two members of a node that are never written.
\<close>

section \<open>What is relied on of the JSON library\<close>

text \<open>The values \<^term>\<open>ok\<close> accepts are read back as written; conversions give what the value holds.\<close>

definition json_lawful :: "json_env \<Rightarrow> (json \<Rightarrow> bool) \<Rightarrow> bool" where
  "json_lawful env ok =
     ((\<forall>v. ok v \<longrightarrow> je_parse env (je_write env v) = Some v) \<and> (\<forall>s. je_asString env (JString s) = Some s) \<and>
      (\<forall>n < 2 ^ 32. je_asUInt env (JInt (int n)) = Some n) \<and>
      (\<forall>i. - (2 ^ 31) \<le> i \<longrightarrow> i < 2 ^ 31 \<longrightarrow> je_asInt env (JInt i) = Some i))"

lemma json_lawfulD:
  assumes "json_lawful env ok"
  shows "ok v \<Longrightarrow> je_parse env (je_write env v) = Some v" "je_asString env (JString s) = Some s"
    "n < 2 ^ 32 \<Longrightarrow> je_asUInt env (JInt (int n)) = Some n"
    "- (2 ^ 31) \<le> i \<Longrightarrow> i < 2 ^ 31 \<Longrightarrow> je_asInt env (JInt i) = Some i"
  using assms unfolding json_lawful_def by blast+

lemmas outcome_defs = then_do_def required_def optional_def assign_def isMember_def json_member_def

section \<open>Nodes\<close>

definition node_wf :: "chain_node_info \<Rightarrow> bool" where
  "node_wf c =
     (ci_nodeType c < 2 ^ 32 \<and> ordered_map (ci_servicesInfo c) \<and>
      (\<forall>k \<in> fst ` set (ci_servicesInfo c). - (2 ^ 31) \<le> k \<and> k < 2 ^ 31))"

text \<open>What is left of a node: its identity and whether it is a micro service are not written.\<close>

definition written :: "chain_node_info \<Rightarrow> chain_node_info" where
  "written c = c\<lparr>ci_microService := False, ci_nodeID := []\<rparr>"

lemma services_loop_appends:
  assumes "json_lawful env ok" "ordered_map (ci_servicesInfo c @ ss)"
    "\<forall>k \<in> fst ` set ss. - (2 ^ 31) \<le> k \<and> k < 2 ^ 31"
  shows "services_loop env (map service_json ss) c = (c\<lparr>ci_servicesInfo := ci_servicesInfo c @ ss\<rparr>, None)"
  using assms(2,3)
proof (induction ss arbitrary: c)
  case (Cons s ss)
  obtain k name where s: "s = (k, name)" by (cases s)
  have "\<forall>k' \<in> set (map fst (ci_servicesInfo c)). k' < k"
    using Cons.prems(1) by (auto simp: ordered_map_def sorted_wrt_append s)
  then have a: "appendServiceInfo k name c = c\<lparr>ci_servicesInfo := ci_servicesInfo c @ [(k, name)]\<rparr>"
    by (simp add: appendServiceInfo_def map_assign_last)
  have "services_loop env (map service_json ss) (appendServiceInfo k name c) =
      (c\<lparr>ci_servicesInfo := ci_servicesInfo c @ (k, name) # ss\<rparr>, None)"
    using Cons.IH [of "appendServiceInfo k name c"] Cons.prems by (simp add: a s)
  then show ?case
    using json_lawfulD(2,4) [OF assms(1)] Cons.prems(2) by (simp add: s service_json_def [of "(k, name)"] json_member_def)
qed simp

lemma node_round_trip:
  assumes "json_lawful env ok" "ok (node_serialize c)" "node_wf c"
  shows "node_deserialize env (je_write env (node_serialize c)) (empty_node_info uninit) = (written c, None)"
proof -
  have "services_loop env (map service_json (ci_servicesInfo c)) c' = (c'\<lparr>ci_servicesInfo := ci_servicesInfo c\<rparr>, None)"
    if "ci_servicesInfo c' = []" for c'
    using services_loop_appends [OF assms(1), of c' "ci_servicesInfo c"] assms(3) that by (simp add: node_wf_def)
  then show ?thesis
    using json_lawfulD(1) [OF assms(1,2)] json_lawfulD(2,3) [OF assms(1)] assms(3)
    by (simp add: node_deserialize_def node_serialize_def outcome_defs parse_services_def setNodeName_def setNodeType_def
        node_setIniConfig_def empty_node_info_def written_def node_wf_def)
qed

section \<open>Groups\<close>

datatype group_op =
  AppendNode chain_node_info | UpdateNode chain_node_info | RemoveNode chain_node_info
| SetGenesis string | SetIni string | SetGroup string | SetChain string

fun group_apply :: "group_op \<Rightarrow> group_info \<Rightarrow> group_info" where
  "group_apply (AppendNode c) g = snd (appendNodeInfo c g)"
| "group_apply (UpdateNode c) g = updateNodeInfo c g"
| "group_apply (RemoveNode c) g = snd (removeNodeInfo c g)"
| "group_apply (SetGenesis s) g = setGenesisConfig s g"
| "group_apply (SetIni s) g = group_setIniConfig s g"
| "group_apply (SetGroup s) g = setGroupID s g"
| "group_apply (SetChain s) g = setChainID s g"

text \<open>The entries are ordered and stand under the names of their nodes.\<close>

definition group_inv :: "group_info \<Rightarrow> bool" where
  "group_inv g = (ordered_map (m_nodeInfos g) \<and> (\<forall>(k, c) \<in> set (m_nodeInfos g). ci_nodeName c = k))"

lemma group_apply_inv: "group_inv g \<Longrightarrow> group_inv (group_apply op g)"
  using set_map_assign set_map_erase
  by (cases op) (fastforce simp: group_inv_def appendNodeInfo_def updateNodeInfo_def removeNodeInfo_def setGenesisConfig_def
    group_setIniConfig_def setGroupID_def setChainID_def map_assign_ordered map_erase_ordered)+

lemma group_inv_fold: "group_inv g \<Longrightarrow> group_inv (fold group_apply ops g)"
  by (induction ops arbitrary: g) (auto intro: group_apply_inv)

lemma nodes_loop_appends:
  assumes "json_lawful env ok" "gi_factory g" "ordered_map (m_nodeInfos g @ ps)"
    "\<forall>(k, c) \<in> set ps. ci_nodeName c = k \<and> ok (node_serialize c) \<and> node_wf c"
  shows "nodes_loop env uninit (map (\<lambda>p. node_serialize (snd p)) ps) g =
    (g\<lparr>m_nodeInfos := m_nodeInfos g @ map (\<lambda>p. (fst p, written (snd p))) ps\<rparr>, None)"
  using assms(2-4)
proof (induction ps arbitrary: g)
  case (Cons p ps)
  obtain k c where p: "p = (k, c)" by (cases p)
  have c: "ci_nodeName c = k" "ok (node_serialize c)" "node_wf c" using Cons.prems(3) by (auto simp: p)
  have less: "\<forall>k' \<in> set (map fst (m_nodeInfos g)). k' < k"
    using Cons.prems(2) by (auto simp: ordered_map_def sorted_wrt_append p)
  then have "map_of (m_nodeInfos g) k = None" by (auto simp: map_of_eq_None_iff)
  then have a: "snd (appendNodeInfo (written c) g) = g\<lparr>m_nodeInfos := m_nodeInfos g @ [(k, written c)]\<rparr>"
    using c(1) less by (simp add: appendNodeInfo_def map_assign_last written_def)
  have "ordered_map ((m_nodeInfos g @ [(k, written c)]) @ ps)" using Cons.prems(2) by (simp add: ordered_map_def p)
  then have "nodes_loop env uninit (map (\<lambda>p. node_serialize (snd p)) ps) (snd (appendNodeInfo (written c) g)) =
      (g\<lparr>m_nodeInfos := (m_nodeInfos g @ [(k, written c)]) @ map (\<lambda>p. (fst p, written (snd p))) ps\<rparr>, None)"
    using Cons.IH [of "snd (appendNodeInfo (written c) g)"] Cons.prems(1,3) by (simp add: a)
  then show ?case using node_round_trip [OF assms(1) c(2,3)] Cons.prems(1) by (simp add: p)
qed simp

text \<open>
  C24: groups: a group built by any sequence of operations, written to JSON and read back
  into a new object, has the same names, configurations and nodes, each node with its name,
  type, configuration and services; its identity and its micro service flag are not kept.
\<close>

theorem group_info_round_trip:
  assumes "json_lawful env ok" "ok (group_serialize g)" "g = fold group_apply ops (new_group_info chain grp)"
    "\<forall>c \<in> snd ` set (m_nodeInfos g). ok (node_serialize c) \<and> node_wf c"
  shows "\<exists>g'. group_deserialize env uninit (je_write env (group_serialize g)) (setChainNodeInfoFactory (new_group_info [] [])) = (g', None) \<and>
    gi_chainID g' = gi_chainID g \<and> gi_groupID g' = gi_groupID g \<and> gi_genesisConfig g' = gi_genesisConfig g \<and>
    gi_iniConfig g' = gi_iniConfig g \<and> (\<forall>name. nodeInfo g' name = map_option written (nodeInfo g name))"
proof -
  have "group_inv g" unfolding assms(3) by (rule group_inv_fold) (simp add: group_inv_def new_group_info_def ordered_map_def)
  then have ps: "ordered_map (m_nodeInfos g)" "\<forall>(k, c) \<in> set (m_nodeInfos g). ci_nodeName c = k \<and> ok (node_serialize c) \<and> node_wf c"
    using assms(4) by (force simp: group_inv_def)+
  have l: "nodes_loop env uninit (map (\<lambda>p. node_serialize (snd p)) (m_nodeInfos g)) g0 =
      (g0\<lparr>m_nodeInfos := map (\<lambda>p. (fst p, written (snd p))) (m_nodeInfos g)\<rparr>, None)" if "gi_factory g0" "m_nodeInfos g0 = []" for g0
    using nodes_loop_appends [OF assms(1) that(1), of "m_nodeInfos g"] ps that(2) by simp
  have mo: "map_of (map (\<lambda>p. (fst p, written (snd p))) m) name = map_option written (map_of m name)" for m name
    by (induction m) auto
  show ?thesis
    using json_lawfulD(1) [OF assms(1,2)] json_lawfulD(2) [OF assms(1)] l
    by (simp add: mo group_deserialize_def group_serialize_def outcome_defs setChainID_def setGroupID_def setGenesisConfig_def
        group_setIniConfig_def setChainNodeInfoFactory_def new_group_info_def nodeInfo_def)
qed

lemma nodeInfo_updates:
  "nodeInfo (updateNodeInfo c g) = (nodeInfo g)(ci_nodeName c \<mapsto> c)"
  "fst (appendNodeInfo c g) \<longleftrightarrow> nodeInfo g (ci_nodeName c) = None"
  "fst (appendNodeInfo c g) \<Longrightarrow> nodeInfo (snd (appendNodeInfo c g)) = (nodeInfo g)(ci_nodeName c \<mapsto> c)"
  "fst (removeNodeInfo c g) \<longleftrightarrow> nodeInfo g (ci_nodeName c) \<noteq> None"
  "nodeInfo (snd (removeNodeInfo c g)) = (nodeInfo g)(ci_nodeName c := None)"
  by (auto simp: nodeInfo_def updateNodeInfo_def appendNodeInfo_def removeNodeInfo_def map_of_map_assign map_of_map_erase
      fun_eq_iff split: if_splits)

definition sample_node :: chain_node_info where
  "sample_node = (new_node_info ''n'' 1)\<lparr>ci_servicesInfo := [(4, ''s'')], ci_nodeID := ''id''\<rparr>"

definition sample_group :: group_info where
  "sample_group = group_apply (AppendNode sample_node) (new_group_info ''c'' ''g'')"

definition sample_json_env :: json_env where
  "sample_json_env =
     \<lparr>je_parse = (\<lambda>s. if s = ''g'' then Some (group_serialize sample_group) else if s = ''n'' then Some (node_serialize sample_node) else None),
      je_write = (\<lambda>v. if v = group_serialize sample_group then ''g'' else ''n''),
      je_asString = (\<lambda>v. case v of JString s \<Rightarrow> Some s | _ \<Rightarrow> None),
      je_asUInt = (\<lambda>v. case v of JInt i \<Rightarrow> if i < 0 then None else Some (nat i) | _ \<Rightarrow> None),
      je_asInt = (\<lambda>v. case v of JInt i \<Rightarrow> Some i | _ \<Rightarrow> None),
      je_asBool = (\<lambda>v. case v of JBool b \<Rightarrow> Some b | _ \<Rightarrow> None)\<rparr>"

theorem group_info_round_trip_witness:
  "\<exists>g'. group_deserialize sample_json_env 0 ''g'' (setChainNodeInfoFactory (new_group_info [] [])) = (g', None) \<and>
     nodeInfo g' ''n'' = Some (written sample_node)"
proof -
  let ?ok = "\<lambda>v. v = group_serialize sample_group \<or> v = node_serialize sample_node"
  have n: "m_nodeInfos sample_group = [(''n'', sample_node)]"
    by (simp add: sample_group_def appendNodeInfo_def new_group_info_def sample_node_def new_node_info_def)
  have "group_serialize sample_group \<noteq> node_serialize sample_node" by (simp add: group_serialize_def node_serialize_def)
  then have l: "json_lawful sample_json_env ?ok" by (auto simp: json_lawful_def sample_json_env_def)
  have wf: "\<forall>c \<in> snd ` set (m_nodeInfos sample_group). ?ok (node_serialize c) \<and> node_wf c"
    by (simp add: n node_wf_def sample_node_def new_node_info_def empty_node_info_def ordered_map_def)
  have "sample_group = fold group_apply [AppendNode sample_node] (new_group_info ''c'' ''g'')" by (simp add: sample_group_def)
  from group_info_round_trip [OF l _ this wf, of 0] show ?thesis
    by (auto simp: sample_json_env_def nodeInfo_def n)
qed

end
