(* ===== verification/Sealer_Module.thy ===== *)
theory Sealer_Module
  imports Sealing_Props Worker_Threads_Props
begin

text \<open>
  The sealer as a running module: \<^verbatim>\<open>Sealer::start\<close> and \<^verbatim>\<open>Sealer::stop\<close> of
  \<^verbatim>\<open>libsealer/Sealer.cpp\<close> over the worker of \<^verbatim>\<open>libutilities/Worker.cpp\<close> and the sealing
  manager.  A step is one critical section of the thread that starts and stops the module,
  one step of the worker thread, one pass of \<^verbatim>\<open>executeWorker\<close>, or a part of it, while the worker thread is
  inside it, or one notification from another module.
\<close>

section \<open>The module\<close>

text \<open>Where the controlling thread is inside \<^verbatim>\<open>start\<close> and \<^verbatim>\<open>stop\<close>.\<close>

datatype sealer_pc = Free | InStart | InStop | Decided | InStopWorking | InTerminate

record sealer_module =
  sl_world :: sealer_world
  sl_worker :: worker
  sl_running :: bool
  sl_pc :: sealer_pc

definition new_sealer :: "sealer_world \<Rightarrow> sealer_module" where
  "new_sealer wd =
     \<lparr>sl_world = wd, sl_worker = new_worker ''Sealer'', sl_running = False, sl_pc = Free\<rparr>"

definition sealer_start :: "sealer_module \<Rightarrow> sealer_module" where
  "sealer_start m =
     (if sl_running m then m else m\<lparr>sl_worker := startWorking 0 (sl_worker m), sl_pc := InStart\<rparr>)"

text \<open>
  \<^verbatim>\<open>SealingManager::stop\<close> stops the thread pool, which nothing starts again, and \<^verbatim>\<open>finishWorker\<close> is the empty function
  of the base class.  Whether the worker is working is read before it is asked to stop.
\<close>

definition sealer_stop :: "sealer_module \<Rightarrow> sealer_module" where
  "sealer_stop m = (if \<not> sl_running m then m else m\<lparr>sl_running := False, sl_world := (sl_world m)\<lparr>w_stopped := True\<rparr>, sl_pc := InStop\<rparr>)"

definition sealer_stop_check :: "sealer_module \<Rightarrow> sealer_module" where
  "sealer_stop_check m = m\<lparr>sl_pc := (if isWorking (sl_worker m) then Decided else Free)\<rparr>"

section \<open>Interleaving\<close>

datatype module_event =
  MStart | MStartReturn | MStop | MCheck | MStopWorking | MStopReturn | MTerminate | MJoin | MReset | MReturn
| MThread | MThrow | MTask sealer_label | MNotice sealer_label

text \<open>
  The steps of \<^verbatim>\<open>executeWorker\<close>: a whole pass, or its parts with other threads in between.
  All other steps come from other modules or the thread pool; the pool is stopped by
  \<^verbatim>\<open>stop\<close> alone.
\<close>

fun is_task :: "sealer_label \<Rightarrow> bool" where
  "is_task (Generate fails utc now) = True"
| "is_task (Pass fails utc t1 t2 t3) = True"
| "is_task Fetch = True"
| "is_task _ = False"

text \<open>A step of the worker inside the module, after which the controlling thread is at a given place.\<close>

definition worker_part :: "worker_event \<Rightarrow> sealer_pc \<Rightarrow> sealer_module \<Rightarrow> sealer_module \<Rightarrow> bool" where
  "worker_part l pc m m' = (\<exists>w'. worker_step l (sl_worker m) w' \<and> m' = m\<lparr>sl_worker := w', sl_pc := pc\<rparr>)"

fun module_step ::
    "consensus_info \<Rightarrow> module_event \<Rightarrow> sealer_module \<Rightarrow> sealer_module \<Rightarrow> bool" where
  "module_step ci MStart m m' = (sl_pc m = Free \<and> m' = sealer_start m)"
| "module_step ci MStartReturn m m' =
     (sl_pc m = InStart \<and> (\<exists>m1. worker_part (StartReturn 0) Free m m1 \<and> m' = m1\<lparr>sl_running := True\<rparr>))"
| "module_step ci MStop m m' = (sl_pc m = Free \<and> m' = sealer_stop m)"
| "module_step ci MCheck m m' = (sl_pc m = InStop \<and> m' = sealer_stop_check m)"
| "module_step ci MStopWorking m m' = (sl_pc m = Decided \<and> worker_part (StopWorking 0) InStopWorking m m')"
| "module_step ci MStopReturn m m' = (sl_pc m = InStopWorking \<and> worker_part (StopReturn 0) InStopWorking m m')"
| "module_step ci MTerminate m m' = (sl_pc m = InStopWorking \<and> worker_part (Terminate 0) InTerminate m m')"
| "module_step ci MJoin m m' = (sl_pc m = InTerminate \<and> worker_part (Join 0) InTerminate m m')"
| "module_step ci MReset m m' = (sl_pc m = InTerminate \<and> worker_part (worker_event.Reset 0) InTerminate m m')"
| "module_step ci MReturn m m' =
     (sl_pc m = InTerminate \<and> callers (sl_worker m) 0 = Outside \<and> m' = m\<lparr>sl_pc := Free\<rparr>)"
| "module_step ci MThread m m' = worker_part WorkerStep (sl_pc m) m m'"
| "module_step ci MThrow m m' = worker_part (WorkerThrow StdException) (sl_pc m) m m'"
| "module_step ci (MTask l) m m' =
     (thread (sl_worker m) = ExecuteWorker \<and> is_task l \<and>
      (\<exists>wd. sealer_step ci l (sl_world m) wd \<and> m' = m\<lparr>sl_world := wd\<rparr>))"
| "module_step ci (MNotice l) m m' =
     (\<not> is_task l \<and> l \<noteq> PoolStop \<and> (\<exists>wd. sealer_step ci l (sl_world m) wd \<and> m' = m\<lparr>sl_world := wd\<rparr>))"

section \<open>Invariant\<close>

text \<open>What each place of the controlling thread says about the worker.\<close>

fun phase :: "sealer_pc \<Rightarrow> bool \<Rightarrow> worker \<Rightarrow> bool" where
  "phase Free True w = (callers w 0 = Outside \<and> m_workerState w \<in> {Started, Stopped})"
| "phase Free False w = (callers w 0 = Outside \<and> (thread w = NoThread \<or> m_workerState w = Stopped))"
| "phase InStart r w =
     (\<not> r \<and> callers w 0 = StartWaiting \<and> thread w \<noteq> NoThread \<and> m_workerState w \<in> {Starting, Started, Stopped})"
| "phase InStop r w = (\<not> r \<and> callers w 0 = Outside \<and> m_workerState w \<in> {Started, Stopped})"
| "phase Decided r w = (\<not> r \<and> callers w 0 = Outside \<and> m_workerState w \<in> {Started, Stopped})"
| "phase InStopWorking r w =
     (\<not> r \<and> (callers w 0 = StopWaiting \<and> m_workerState w \<in> {Stopping, Stopped} \<or>
             callers w 0 = Outside \<and> m_workerState w = Stopped))"
| "phase InTerminate r w =
     (\<not> r \<and> (callers w 0 = Joining \<and> m_workerState w = Killing \<and> thread w \<in> {WaitStopped, LoopCheck, Exited} \<and> \<not> joined w \<or>
             callers w 0 = Resetting \<and> m_workerState w = Killing \<and> thread w = Exited \<and> joined w \<or>
             callers w 0 = Outside \<and> thread w = NoThread))"

definition module_inv :: "sealer_module \<Rightarrow> bool" where
  "module_inv m = (worker_inv (sl_worker m) \<and> phase (sl_pc m) (sl_running m) (sl_worker m))"

lemma worker_invD: "worker_inv w \<Longrightarrow> agrees w"
  by (simp add: worker_inv_def)

text \<open>The worker thread and its task keep every phase.\<close>

lemma thread_phase:
  assumes "agrees w" "phase pc r w" "thread_step w = Some w' \<or> task_throws e w = Some w'"
  shows "phase pc r w'"
proof -
  have c: "callers w' = callers w" "joined w' = joined w" using assms(3) thread_callers [of w w'] throw_callers [of e w w'] by blast+
  show ?thesis
  proof (cases "m_workerState w")
    case Starting
    then have "thread w \<in> {NoThread, LoopCheck, MarkStarted, WaitStopped}" using assms(1) by (simp add: agrees_def)
    with Starting show ?thesis using assms(2,3) c
      by (cases pc; cases r) (auto simp: thread_step_def task_throws_def split: task_exception.splits)
  next
    case Started
    then have "thread w \<in> {InitWorker, ProcessLoop, ExecuteWorker, MarkStopped}" using assms(1) by (simp add: agrees_def)
    with Started show ?thesis using assms(2,3) c
      by (cases pc; cases r) (auto simp: thread_step_def task_throws_def split: task_exception.splits)
  next
    case Stopping
    then have "thread w \<in> {InitWorker, ProcessLoop, ExecuteWorker, FinishWorker, MarkStopped}"
      using assms(1) by (simp add: agrees_def)
    with Stopping show ?thesis using assms(2,3) c
      by (cases pc; cases r) (auto simp: thread_step_def task_throws_def split: task_exception.splits)
  next
    case Stopped
    then have "thread w = WaitStopped" using assms(1) by (simp add: agrees_def)
    with Stopped show ?thesis using assms(3) by (simp add: thread_step_def task_throws_def)
  next
    case Killing
    then show ?thesis using assms(2,3) c
      by (cases pc; cases r) (auto simp: thread_step_def task_throws_def split: task_exception.splits)
  qed
qed

lemma worker_part_inv:
  assumes "worker_inv (sl_worker m)" "worker_part l pc m m'" "\<And>w'. worker_step l (sl_worker m) w' \<Longrightarrow> phase pc (sl_running m) w'"
  shows "module_inv m'"
  using assms wk.step_inv [OF assms(1)] by (auto simp: worker_part_def module_inv_def)

lemma caller_phases:
  assumes "agrees w"
  shows "phase Free False w \<Longrightarrow> phase InStart False (startWorking 0 w)"
    and "phase InStart r w \<Longrightarrow> worker_step (StartReturn 0) w w' \<Longrightarrow> phase Free True w'"
    and "phase Decided r w \<Longrightarrow> worker_step (StopWorking 0) w w' \<Longrightarrow> phase InStopWorking r w'"
    and "phase InStopWorking r w \<Longrightarrow> worker_step (StopReturn 0) w w' \<Longrightarrow> phase InStopWorking r w'"
    and "phase InStopWorking r w \<Longrightarrow> one_resets w \<Longrightarrow> worker_step (Terminate 0) w w' \<Longrightarrow> phase InTerminate r w'"
    and "phase InTerminate r w \<Longrightarrow> worker_step (Join 0) w w' \<Longrightarrow> phase InTerminate r w'"
    and "phase InTerminate r w \<Longrightarrow> worker_step (worker_event.Reset 0) w w' \<Longrightarrow> phase InTerminate r w'"
  by ((use assms in \<open>auto simp: agrees_def worker_defs join_thread_def split: if_splits\<close>)[1])+

lemma module_step_inv:
  assumes "module_inv m" "module_step ci l m m'"
  shows "module_inv m'"
proof -
  have w: "worker_inv (sl_worker m)" "agrees (sl_worker m)" "one_resets (sl_worker m)"
    and ph: "phase (sl_pc m) (sl_running m) (sl_worker m)"
    using assms(1) by (simp_all add: module_inv_def worker_inv_def)
  note part = worker_part_inv [OF w(1)] and call = caller_phases [OF w(2)]
  show ?thesis
  proof (cases l)
    case MStart
    have "worker_inv (startWorking 0 (sl_worker m))" if "\<not> sl_running m" "sl_pc m = Free"
      using wk.step_inv [OF w(1), of "StartWorking 0"] ph that by simp
    then show ?thesis using MStart assms ph call(1) by (auto simp: sealer_start_def module_inv_def)
  next
    case MStartReturn
    then show ?thesis using assms(2) ph call(2) wk.step_inv [OF w(1), of "StartReturn 0"]
      by (auto simp: worker_part_def module_inv_def simp del: worker_step.simps phase.simps)
  next
    case MStop
    then show ?thesis using assms ph by (auto simp: sealer_stop_def module_inv_def)
  next
    case MCheck
    then show ?thesis using assms ph by (auto simp: sealer_stop_check_def module_inv_def isWorking_def)
  next
    case MReturn
    then show ?thesis using assms ph by (auto simp: module_inv_def)
  next
    case MThread
    then show ?thesis using part [of WorkerStep] assms(2) thread_phase [OF w(2) ph] by simp
  next
    case MThrow
    then show ?thesis using part [of "WorkerThrow StdException"] assms(2)
        thread_phase [OF w(2) ph, of _ StdException] by simp
  next
    case MStopWorking
    then have "sl_pc m = Decided" "worker_part (StopWorking 0) InStopWorking m m'" using assms(2) by simp_all
    then show ?thesis using part ph call(3) by metis
  next
    case MStopReturn
    then have "sl_pc m = InStopWorking" "worker_part (StopReturn 0) InStopWorking m m'" using assms(2) by simp_all
    then show ?thesis using part ph call(4) by metis
  next
    case MTerminate
    then have "sl_pc m = InStopWorking" "worker_part (Terminate 0) InTerminate m m'" using assms(2) by simp_all
    then show ?thesis using part ph call(5) w(3) by metis
  next
    case MJoin
    then have "sl_pc m = InTerminate" "worker_part (Join 0) InTerminate m m'" using assms(2) by simp_all
    then show ?thesis using part ph call(6) by metis
  next
    case MReset
    then have "sl_pc m = InTerminate" "worker_part (worker_event.Reset 0) InTerminate m m'" using assms(2) by simp_all
    then show ?thesis using part ph call(7) by metis
  qed (use assms in \<open>auto simp: module_inv_def\<close>)
qed

interpretation mdl: transition_system "\<lambda>m. \<exists>wd. m = new_sealer wd" "module_step ci" module_inv
proof
  show "module_inv m" if "\<exists>wd. m = new_sealer wd" for m
    using that wk.init_inv [of "new_worker ''Sealer''"] by (auto simp: module_inv_def new_sealer_def new_worker_def)
qed (rule module_step_inv)

section \<open>Refinement\<close>

text \<open>The module only does what its worker and its sealing manager do.\<close>

lemma some_run:
  "\<exists>ls. run step s ls s" "step l s s' \<Longrightarrow> \<exists>ls. run step s ls s'"
  by (blast intro: run_nil run_cons)+

lemma worker_part_run: "worker_part l pc m m' \<Longrightarrow> \<exists>ls. run worker_step (sl_worker m) ls (sl_worker m')"
  by (auto simp: worker_part_def simp del: worker_step.simps intro: some_run)

lemma module_step_refines:
  assumes "module_inv m" "module_step ci l m m'"
  shows "(\<exists>ls. run worker_step (sl_worker m) ls (sl_worker m')) \<and> (\<exists>ls. run (sealer_step ci) (sl_world m) ls (sl_world m'))"
proof -
  have start: "worker_step (StartWorking 0) (sl_worker m) (startWorking 0 (sl_worker m))" if "sl_pc m = Free"
    using assms(1) that by (cases "sl_running m") (auto simp: module_inv_def)
  have w: "\<exists>ls. run worker_step (sl_worker m) ls (sl_worker m')"
    using assms(2) worker_part_run [of _ _ m] start
    by (cases l) (fastforce simp: sealer_start_def sealer_stop_def sealer_stop_check_def simp del: worker_step.simps
        intro: some_run)+
  have "\<exists>ls. run (sealer_step ci) (sl_world m) ls (sl_world m')"
    using assms(2)
    by (cases l) (auto simp: sealer_start_def sealer_stop_def sealer_stop_check_def worker_part_def simp del: worker_step.simps
        intro: some_run sealer_step.pool_stop)
  with w show ?thesis by blast
qed

lemma module_run_refines:
  assumes "run (module_step ci) m ls m'" "module_inv m"
  shows "(\<exists>ls. run worker_step (sl_worker m) ls (sl_worker m')) \<and> (\<exists>ls. run (sealer_step ci) (sl_world m) ls (sl_world m'))"
  using assms
proof (induction rule: run.induct)
  case (run_nil m)
  show ?case by (intro conjI some_run(1))
next
  case (run_cons l m1 m2 ls m3)
  note one = module_step_refines [OF run_cons.prems run_cons.hyps(1)]
  have "module_inv m2" using module_step_inv run_cons by blast
  then show ?case using one run_cons.IH run_append by meson
qed

section \<open>Stopping\<close>

definition at_rest :: "sealer_module \<Rightarrow> bool" where
  "at_rest m = (module_inv m \<and> sl_pc m = Free \<and> \<not> sl_running m)"

lemma at_rest_thread: "at_rest m \<Longrightarrow> thread (sl_worker m) = NoThread \<or> thread (sl_worker m) = WaitStopped \<and> m_workerState (sl_worker m) = Stopped"
  by (auto simp: at_rest_def module_inv_def worker_inv_def agrees_def)

lemma notice_submits: "sealer_step ci l w w' \<Longrightarrow> \<not> is_task l \<Longrightarrow> w_submitted w' = w_submitted w"
  by (cases rule: sealer_step.cases)
    (auto simp: world_after_def asyncNotifySealProposal_def asyncNoteUnSealedTxsSize_def asyncResetSealing_def
      resetSealingInfo_def clearPendingTxs_def setUnsealedTxsSize_def resetSealing_def onFetched_def appendTransactions_def Let_def
      split: prod.splits if_splits sum.splits)

text \<open>On a stopped thread pool nothing is run: what waits there stays.\<close>

definition stays :: "sealer_world \<Rightarrow> sealer_world \<Rightarrow> bool" where
  "stays w w' = (w_stopped w \<longrightarrow> w_stopped w' \<and> (\<exists>zs. w_pool w' = w_pool w @ zs))"

lemma stays_refl: "stays w w"
  by (simp add: stays_def)

lemma stays_trans: "stays w w1 \<Longrightarrow> stays w1 w2 \<Longrightarrow> stays w w2"
  by (auto simp: stays_def)

lemma step_stays: "sealer_step ci l w w' \<Longrightarrow> stays w w'"
  by (cases rule: sealer_step.cases) (auto simp: stays_def world_after_def)

lemma at_rest_step:
  assumes "at_rest m" "module_step ci l m m'" "l \<noteq> MStart"
  shows "at_rest m' \<and> w_submitted (sl_world m') = w_submitted (sl_world m) \<and> stays (sl_world m) (sl_world m')"
proof -
  have inv: "module_inv m'" using module_step_inv assms by (auto simp: at_rest_def)
  have pc: "sl_pc m = Free" "\<not> sl_running m" using assms(1) by (simp_all add: at_rest_def)
  show ?thesis
  proof (cases l)
    case (MNotice k)
    then show ?thesis using assms(1,2) inv notice_submits step_stays by (auto simp: at_rest_def)
  next
    case (MTask k)
    then show ?thesis using at_rest_thread [OF assms(1)] assms(2) by auto
  qed (use assms(2,3) inv pc stays_refl in \<open>auto simp: at_rest_def worker_part_def sealer_stop_def simp del: worker_step.simps\<close>)
qed

lemma at_rest_run:
  "run (module_step ci) m ls m' \<Longrightarrow> at_rest m \<Longrightarrow> MStart \<notin> set ls \<Longrightarrow>
     at_rest m' \<and> w_submitted (sl_world m') = w_submitted (sl_world m) \<and> stays (sl_world m) (sl_world m')"
proof (induction rule: run.induct)
  case (run_cons l m1 m2 ls m3)
  have "at_rest m2 \<and> w_submitted (sl_world m2) = w_submitted (sl_world m1) \<and> stays (sl_world m1) (sl_world m2)"
    using at_rest_step run_cons.hyps(1) run_cons.prems by auto
  then show ?case using run_cons by (auto intro: stays_trans)
qed (simp add: stays_refl)


text \<open>The steps with which a call of stop goes on once the worker was asked to stop.\<close>

definition stop_event :: "module_event \<Rightarrow> bool" where
  "stop_event l = (l \<in> {MStopReturn, MTerminate, MJoin, MReset, MReturn, MThread, MThrow})"

definition winding_down :: "sealer_module \<Rightarrow> bool" where
  "winding_down m =
     (module_inv m \<and> (sl_pc m = InStopWorking \<or> sl_pc m = InTerminate \<or> sl_pc m = Free \<and> thread (sl_worker m) = NoThread))"

definition stop_rank :: "sealer_module \<Rightarrow> nat" where
  "stop_rank m =
     exit_steps (thread (sl_worker m)) +
     (case sl_pc m of
        InStopWorking \<Rightarrow> (if callers (sl_worker m) 0 = StopWaiting then 5 else 4)
      | InTerminate \<Rightarrow> (case callers (sl_worker m) 0 of Joining \<Rightarrow> 3 | Resetting \<Rightarrow> 2 | _ \<Rightarrow> 1)
      | _ \<Rightarrow> 0)"

lemma winding_down_thread:
  assumes "winding_down m" "own_step l" "worker_part l (sl_pc m) m m'"
  shows "stop_rank m' < stop_rank m"
proof -
  obtain w' where w': "worker_step l (sl_worker m) w'" "m' = m\<lparr>sl_worker := w'\<rparr>"
    using assms(3) by (auto simp: worker_part_def)
  have "callers w' = callers (sl_worker m)"
    using w'(1) assms(2) thread_callers [of "sl_worker m" w'] throw_callers [of _ "sl_worker m" w'] by (auto simp: own_step_def)
  moreover have "exit_steps (thread w') < exit_steps (thread (sl_worker m))"
  proof (cases "thread (sl_worker m) = NoThread")
    case True
    then show ?thesis using w'(1) assms(2) by (auto simp: own_step_def thread_step_def task_throws_def)
  next
    case False
    then have "stopping (sl_worker m) \<or> killing (sl_worker m)"
      using assms(1) by (auto simp: winding_down_def module_inv_def worker_inv_def stopping_def killing_def)
    then show ?thesis using stopping_step killing_step w'(1) assms(2) by blast
  qed
  ultimately show ?thesis by (cases "sl_pc m") (simp_all add: stop_rank_def w'(2))
qed

lemma winding_down_step:
  assumes "winding_down m" "stop_event l" "module_step ci l m m'"
  shows "winding_down m' \<and> stop_rank m' < stop_rank m"
proof -
  have inv: "module_inv m" "module_inv m'" using assms module_step_inv by (auto simp: winding_down_def)
  have ph: "phase (sl_pc m) (sl_running m) (sl_worker m)" "agrees (sl_worker m)"
    using inv(1) by (simp_all add: module_inv_def worker_inv_def)
  have own: "winding_down m' \<and> stop_rank m' < stop_rank m" if k: "own_step k" "worker_part k (sl_pc m) m m'" for k
  proof -
    have "sl_pc m' = sl_pc m" "thread (sl_worker m) \<noteq> NoThread"
      using k by (auto simp: worker_part_def own_step_def thread_step_def task_throws_def)
    then show ?thesis using winding_down_thread [OF assms(1) k] assms(1) inv(2) by (auto simp: winding_down_def)
  qed
  consider "l = MThread" | "l = MThrow" | (call) "l \<in> {MStopReturn, MTerminate, MJoin, MReset, MReturn}"
    using assms(2) by (auto simp: stop_event_def)
  then show ?thesis
  proof cases
    case call
    have "stop_rank m' < stop_rank m \<and> sl_pc m' \<in> {InStopWorking, InTerminate, Free} \<and>
        (sl_pc m' = Free \<longrightarrow> thread (sl_worker m') = NoThread)"
      using call assms(3) ph
      by (elim insertE emptyE)
        (auto simp: worker_part_def stop_rank_def worker_defs join_thread_def agrees_def split: if_splits)
    then show ?thesis using inv(2) by (auto simp: winding_down_def)
  qed (use assms(3) own [of WorkerStep] own [of "WorkerThrow StdException"] in \<open>simp_all add: own_step_def\<close>)
qed

lemma winding_down_progress:
  assumes "winding_down m" "sl_pc m \<noteq> Free"
  shows "\<exists>l m'. stop_event l \<and> module_step ci l m m'"
proof -
  let ?w = "sl_worker m"
  have ph: "phase (sl_pc m) (sl_running m) ?w" "agrees ?w" "sl_pc m = InStopWorking \<or> sl_pc m = InTerminate"
    using assms by (auto simp: winding_down_def module_inv_def worker_inv_def)
  have moves: "\<exists>l m'. stop_event l \<and> module_step ci l m m'" if "thread_step ?w = Some w'" for w'
    using that by (intro exI [of _ MThread]) (auto simp: stop_event_def worker_part_def)
  have calls: "\<exists>l m'. stop_event l \<and> module_step ci l m m'"
    if "worker_part k pc m m'" "(l, k, pc, sl_pc m) \<in> {(MStopReturn, StopReturn 0, InStopWorking, InStopWorking),
       (MTerminate, Terminate 0, InTerminate, InStopWorking), (MJoin, Join 0, InTerminate, InTerminate),
       (MReset, worker_event.Reset 0, InTerminate, InTerminate)}" for k pc m' l
    using that by (intro exI [of _ l] exI [of _ m']) (auto simp: stop_event_def)
  consider "callers ?w 0 = StopWaiting" "m_workerState ?w = Stopping" "sl_pc m = InStopWorking"
    | "callers ?w 0 = StopWaiting" "m_workerState ?w = Stopped" "sl_pc m = InStopWorking"
    | "callers ?w 0 = Outside" "sl_pc m = InStopWorking"
    | "callers ?w 0 = Joining" "m_workerState ?w = Killing" "thread ?w = WaitStopped \<or> thread ?w = LoopCheck"
    | "callers ?w 0 = Joining" "thread ?w = Exited" "\<not> joined ?w" "sl_pc m = InTerminate"
    | "callers ?w 0 = Resetting" "sl_pc m = InTerminate" | "callers ?w 0 = Outside" "sl_pc m = InTerminate"
    using ph by auto
  then show ?thesis
  proof cases
    case 1
    then have "thread_step ?w \<noteq> None" using ph(2) by (auto simp: agrees_def thread_step_def)
    then show ?thesis using moves by blast
  next
    case 2
    then show ?thesis using calls [of "StopReturn 0" InStopWorking _ MStopReturn] by (simp add: worker_part_def stop_returns_def)
  next
    case 3
    then show ?thesis using calls [of "Terminate 0" InTerminate _ MTerminate] by (simp add: worker_part_def)
  next
    case 4
    then have "thread_step ?w \<noteq> None" by (auto simp: thread_step_def)
    then show ?thesis using moves by blast
  next
    case 5
    then show ?thesis using calls [of "Join 0" InTerminate _ MJoin] by (simp add: worker_part_def join_thread_def)
  next
    case 6
    then show ?thesis using calls [of "worker_event.Reset 0" InTerminate _ MReset] by (simp add: worker_part_def)
  next
    case 7
    then show ?thesis by (intro exI [of _ MReturn]) (simp add: stop_event_def)
  qed
qed

text \<open>
  C23: stop returns: once it has asked the worker to stop, at most eleven steps of the
  controlling thread and the worker thread follow, in whatever order they interleave and
  whatever standard exception the task throws; when no such step is left the call has returned and the worker
  thread has been joined and deleted.
\<close>

theorem sealer_stop_ends:
  assumes "run (module_step ci) (new_sealer wd) ls m" "sl_pc m = InStopWorking"
    "run (module_step ci) m ls' m'" "list_all stop_event ls'"
  shows "length ls' \<le> 11 \<and>
    ((\<forall>l m''. stop_event l \<longrightarrow> \<not> module_step ci l m' m'') \<longrightarrow>
     sl_pc m' = Free \<and> \<not> sl_running m' \<and> \<not> m_workerThread (sl_worker m'))"
proof -
  have "module_inv m" using mdl.reachable_inv assms(1) by blast
  then have m: "winding_down m" using assms(2) by (simp add: winding_down_def)
  have r: "winding_down m' \<and> length ls' + stop_rank m' \<le> stop_rank m"
    using run_rank [of winding_down stop_event "module_step ci" stop_rank] winding_down_step assms(3,4) m by blast
  have "exit_steps (thread (sl_worker m)) \<le> 6" by (cases "thread (sl_worker m)") simp_all
  then have "stop_rank m \<le> 11" using assms(2) by (simp add: stop_rank_def)
  moreover have "sl_pc m' = Free \<Longrightarrow> \<not> sl_running m' \<and> \<not> m_workerThread (sl_worker m')"
    using r by (cases "sl_running m'") (auto simp: winding_down_def module_inv_def worker_inv_def agrees_def)
  ultimately show ?thesis using r winding_down_progress [of m' ci] by fastforce
qed

section \<open>An exception of the task\<close>

definition asleep :: "sealer_module \<Rightarrow> bool" where
  "asleep m =
     (sl_pc m = Free \<and> sl_running m \<and>
      (thread (sl_worker m) = MarkStopped \<and> m_workerState (sl_worker m) = Started \<or>
       thread (sl_worker m) = WaitStopped \<and> m_workerState (sl_worker m) = Stopped))"

lemma asleep_step:
  assumes "asleep m" "module_step ci l m m'" "l \<noteq> MStop"
  shows "asleep m' \<and> w_submitted (sl_world m') = w_submitted (sl_world m)"
proof (cases l)
  case (MNotice k)
  then show ?thesis using assms notice_submits by (auto simp: asleep_def)
qed (use assms in \<open>auto simp: asleep_def sealer_start_def worker_part_def thread_step_def task_throws_def\<close>)

lemma asleep_run:
  "run (module_step ci) m ls m' \<Longrightarrow> asleep m \<Longrightarrow> MStop \<notin> set ls \<Longrightarrow>
     asleep m' \<and> w_submitted (sl_world m') = w_submitted (sl_world m)"
proof (induction rule: run.induct)
  case (run_cons l m1 m2 ls m3)
  have "asleep m2 \<and> w_submitted (sl_world m2) = w_submitted (sl_world m1)"
    using asleep_step run_cons.hyps(1) run_cons.prems by auto
  then show ?case using run_cons by simp
qed simp

text \<open>Executable forms of the steps of the worker inside the module.\<close>

lemma worker_part_thread:
  "worker_part WorkerStep pc m m' = (case thread_step (sl_worker m) of None \<Rightarrow> False | Some w' \<Rightarrow> m' = m\<lparr>sl_worker := w', sl_pc := pc\<rparr>)"
  "worker_part (WorkerThrow StdException) pc m m' = (case task_throws StdException (sl_worker m) of None \<Rightarrow> False | Some w' \<Rightarrow> m' = m\<lparr>sl_worker := w', sl_pc := pc\<rparr>)"
  by (auto simp: worker_part_def split: option.splits)

lemma worker_part_call:
  "worker_part (StartReturn i) pc m m' = (callers (sl_worker m) i = StartWaiting \<and> start_returns (sl_worker m) \<and>
     m' = m\<lparr>sl_worker := caller_to i Outside (sl_worker m), sl_pc := pc\<rparr>)"
  "worker_part (StopWorking i) pc m m' =
     (callers (sl_worker m) i = Outside \<and> m' = m\<lparr>sl_worker := stopWorking i (sl_worker m), sl_pc := pc\<rparr>)"
  "worker_part (StopReturn i) pc m m' = (callers (sl_worker m) i = StopWaiting \<and> stop_returns (sl_worker m) \<and>
     m' = m\<lparr>sl_worker := caller_to i Outside (sl_worker m), sl_pc := pc\<rparr>)"
  "worker_part (Terminate i) pc m m' =
     (callers (sl_worker m) i = Outside \<and> m' = m\<lparr>sl_worker := terminate i (sl_worker m), sl_pc := pc\<rparr>)"
  "worker_part (Join i) pc m m' = (callers (sl_worker m) i = Joining \<and>
     (case join_thread i (sl_worker m) of None \<Rightarrow> False | Some w' \<Rightarrow> m' = m\<lparr>sl_worker := w', sl_pc := pc\<rparr>))"
  "worker_part (worker_event.Reset i) pc m m' =
     (callers (sl_worker m) i = Resetting \<and> m' = m\<lparr>sl_worker := reset_thread i (sl_worker m), sl_pc := pc\<rparr>)"
  by (auto simp: worker_part_def split: option.splits)

lemmas module_simps = worker_part_thread worker_part_call sealer_start_def sealer_stop_def sealer_stop_check_def new_sealer_def
  thread_step_def task_throws_def join_thread_def worker_defs new_worker_def

definition running_sealer :: "sealer_world \<Rightarrow> sealer_module" where
  "running_sealer wd = (new_sealer wd)\<lparr>sl_running := True,
     sl_worker := (new_worker ''Sealer'')\<lparr>m_workerThread := True, m_workerState := Started, thread := InitWorker\<rparr>\<rparr>"

lemma sealer_starts: "run (module_step ci) (new_sealer wd) [MStart, MThread, MThread, MStartReturn] (running_sealer wd)"
  by (rule do_step, simp add: module_simps running_sealer_def fun_eq_iff)+
    (rule done_steps, simp add: module_simps running_sealer_def fun_eq_iff)

text \<open>
  C26: a standard exception of the task stops the sealer for good: from every reachable
  state in which the module runs and the task throws, the worker thread does nothing but go
  to sleep, while the module still counts as running, so start does nothing; until stop is
  called nothing is submitted whatever is started, notified or fetched.
\<close>

theorem sealer_exception_final:
  assumes "run (module_step ci) (new_sealer wd) ls0 m" "sl_pc m = Free" "sl_running m"
    "module_step ci MThrow m m1" "run (module_step ci) m1 ls m'" "MStop \<notin> set ls"
  shows "sl_running m' \<and> sealer_start m' = m' \<and> w_submitted (sl_world m') = w_submitted (sl_world m) \<and>
    (thread (sl_worker m') = MarkStopped \<or> thread (sl_worker m') = WaitStopped \<and> \<not> isWorking (sl_worker m') \<and>
       thread_step (sl_worker m') = None)"
proof -
  have "module_inv m" using mdl.reachable_inv assms(1) by blast
  then have "m_workerState (sl_worker m) \<in> {Started, Stopped}" "agrees (sl_worker m)"
    using assms(2,3) by (auto simp: module_inv_def worker_inv_def)
  then have a: "asleep m1" "sl_world m1 = sl_world m"
    using assms(2-4) by (auto simp: asleep_def worker_part_def task_throws_def agrees_def split: if_splits)
  from asleep_run [OF assms(5) a(1) assms(6)] show ?thesis
    by (auto simp: asleep_def sealer_start_def isWorking_def thread_step_def a(2))
qed

section \<open>Witnesses\<close>

theorem sealer_exception_final_witness:
  "\<exists>m. run (module_step sample_ci) (running_sealer sample_world) [MThread, MThread, MThrow, MThread, MStart] m \<and>
     sl_running m \<and> thread (sl_worker m) = WaitStopped \<and> w_submitted (sl_world m) = []"
proof -
  let ?at = "\<lambda>pc. (running_sealer sample_world)\<lparr>sl_worker := (sl_worker (running_sealer sample_world))\<lparr>thread := pc\<rparr>\<rparr>"
  let ?m = "(?at WaitStopped)\<lparr>sl_worker := (sl_worker (?at WaitStopped))\<lparr>m_workerState := Stopped\<rparr>\<rparr>"
  have r: "run (module_step sample_ci) (running_sealer sample_world) [MThread, MThread] (?at ExecuteWorker)"
    by (rule do_step, simp add: module_simps running_sealer_def)+ (rule done_steps, simp add: module_simps running_sealer_def)
  have t: "module_step sample_ci MThrow (?at ExecuteWorker) (?at MarkStopped)"
    by (simp add: module_simps running_sealer_def)
  have s: "run (module_step sample_ci) (?at MarkStopped) [MThread, MStart] ?m"
    by (rule do_step, simp add: module_simps running_sealer_def)+ (rule done_steps, simp add: module_simps running_sealer_def)
  have "w_submitted (sl_world ?m) = w_submitted (sl_world (?at ExecuteWorker)) \<and> sl_running ?m"
    using sealer_exception_final [OF run_append [OF sealer_starts r] _ _ t s] by (simp add: running_sealer_def new_sealer_def)
  moreover have "run (module_step sample_ci) (running_sealer sample_world) ([MThread, MThread] @ [MThrow] @ [MThread, MStart]) ?m"
    by (rule run_append [OF r run_append [OF _ s]], rule do_step [OF _ run_nil], rule t)
  ultimately show ?thesis
    by (intro exI [of _ ?m]) (simp add: running_sealer_def new_sealer_def sample_world_def)
qed

definition stopping_sealer :: "sealer_world \<Rightarrow> sealer_module" where
  "stopping_sealer wd = (running_sealer wd)\<lparr>sl_world := wd\<lparr>w_stopped := True\<rparr>, sl_running := False, sl_pc := InStopWorking,
     sl_worker := caller_to 0 StopWaiting ((sl_worker (running_sealer wd))\<lparr>m_workerState := Stopping\<rparr>)\<rparr>"

definition stopped_sealer :: "sealer_world \<Rightarrow> sealer_module" where
  "stopped_sealer wd = (new_sealer (wd\<lparr>w_stopped := True\<rparr>))\<lparr>sl_worker := (new_worker ''Sealer'')\<lparr>m_workerState := Killing\<rparr>\<rparr>"

lemma sealer_stopping: "run (module_step ci) (running_sealer wd) [MStop, MCheck, MStopWorking] (stopping_sealer wd)"
  by (rule do_step, simp add: module_simps running_sealer_def stopping_sealer_def)+
    (rule done_steps, simp add: module_simps running_sealer_def stopping_sealer_def)

lemma sealer_stops:
  "run (module_step ci) (stopping_sealer wd)
     [MThread, MThread, MThread, MThread, MStopReturn, MTerminate, MThread, MThread, MJoin, MReset, MReturn] (stopped_sealer wd)"
  by (rule do_step, simp add: module_simps running_sealer_def stopping_sealer_def stopped_sealer_def fun_eq_iff)+
    (rule done_steps, simp add: module_simps running_sealer_def stopping_sealer_def stopped_sealer_def fun_eq_iff)

theorem sealer_stop_ends_witness:
  "\<not> m_workerThread (sl_worker (stopped_sealer sample_world)) \<and> sl_pc (stopped_sealer sample_world) = Free"
proof -
  note r = run_append [OF sealer_starts [of sample_ci sample_world] sealer_stopping]
  have e: "list_all stop_event
      [MThread, MThread, MThread, MThread, MStopReturn, MTerminate, MThread, MThread, MJoin, MReset, MReturn]"
    by (simp add: stop_event_def)
  have none: "\<forall>l m. stop_event l \<longrightarrow> \<not> module_step sample_ci l (stopped_sealer sample_world) m"
    by (auto simp: stop_event_def stopped_sealer_def module_simps)
  have "sl_pc (stopping_sealer sample_world) = InStopWorking" by (simp add: stopping_sealer_def)
  from sealer_stop_ends [OF r this sealer_stops e] none show ?thesis by blast
qed


end
