(* ===== verification/Text_Conversion.thy ===== *)
theory Text_Conversion
  imports Fixed_Bytes
begin

text \<open>
  Conversions between bytes, numbers and text: the templates \<^verbatim>\<open>toHex\<close> and
  \<^verbatim>\<open>fromHex\<close> of \<^verbatim>\<open>libutilities/DataConvertUtility.h\<close>, \<^verbatim>\<open>libutilities/Base64.cpp\<close> and
  \<^verbatim>\<open>libutilities/JsonDataConvertUtility.h\<close>.  The hexadecimal and base64 alphabets and the
  reading of decimal digits are Boost's and are arguments.
\<close>

section \<open>Hexadecimal templates\<close>

datatype text_error =
  EmptyInput | InvalidSize | BadCharacter | OutOfRange | LengthError | BadHex | BadCast | BadNumber

definition toHex :: "(bytes \<Rightarrow> string) \<Rightarrow> bytes \<Rightarrow> string \<Rightarrow> string" where
  "toHex hex_lower binary prefix =
     (let out = (if prefix \<noteq> [] then prefix else []) in if binary = [] then out else out @ hex_lower binary)"

definition fromHex :: "(string \<Rightarrow> bytes option) \<Rightarrow> string \<Rightarrow> string \<Rightarrow> text_error + bytes" where
  "fromHex unhex hex prefix =
     (if hex = [] then Inl EmptyInput
      else if length hex < length prefix + 2 \<or> length hex mod 2 \<noteq> 0 then Inl InvalidSize
      else (case unhex (drop (length prefix) hex) of None \<Rightarrow> Inl BadCharacter | Some out \<Rightarrow> Inr out))"

definition toCompactBigEndianString :: "nat \<Rightarrow> nat \<Rightarrow> bytes" where
  "toCompactBigEndianString val minlen = toBigEndian val (replicate (max minlen (compact_size val)) 0)"

definition convertMapToVector :: "('k \<times> 'v) list \<Rightarrow> 'v list" where
  "convertMapToVector m = fold (\<lambda>it vec. vec @ [snd it]) m []"

section \<open>Base64\<close>

text \<open>What Boost's iterators make of bytes and of text; the latter may throw.\<close>

record base64_lib =
  b64_text :: "bytes \<Rightarrow> string"
  b64_data :: "string \<Rightarrow> bytes option"

definition base64Encode :: "base64_lib \<Rightarrow> bytes \<Rightarrow> string" where
  "base64Encode lib data = b64_text lib data @ replicate ((3 - length data mod 3) mod 3) CHR ''=''"

text \<open>
  The loop that counts the padding runs down on an unsigned index.  The bound is computed
  from the size without a check, so it wraps for short texts; reading outside the text is
  \<^term>\<open>None\<close>.
\<close>

function suffix_loop :: "string \<Rightarrow> 64 word \<Rightarrow> nat \<Rightarrow> nat option" where
  "suffix_loop data i suffix =
     (if i \<ge> of_nat (length data) - 3 then
        (if length data < 2 ^ 64 \<and> unat i < length data then
           (if data ! unat i = CHR ''='' then suffix_loop data (i - 1) (suffix + 1) else Some suffix)
         else None)
      else Some suffix)"
  by auto
termination
proof (relation "measure (\<lambda>(data, i, suffix). if unat i < length data \<and> length data < 2 ^ 64 then Suc (unat i) else 0)")
  fix data :: string and i :: "64 word" and suffix :: nat
  assume a: "length data < 2 ^ 64 \<and> unat i < length data"
  have "unat (i - 1) < unat i" if "i \<noteq> 0" using that by (metis unat_eq_zero unat_minus_one zero_less_iff_neq_zero diff_less zero_less_one)
  moreover have "unat (0 - 1 :: 64 word) = 2 ^ 64 - 1" by (simp add: unsigned_minus_1_eq_mask mask_eq_exp_minus_1)
  ultimately show "((data, i - 1, suffix + 1), data, i, suffix)
      \<in> measure (\<lambda>(data, i, suffix). if unat i < length data \<and> length data < 2 ^ 64 then Suc (unat i) else 0)"
    using a by (cases "i = 0") auto
qed simp

declare suffix_loop.simps [simp del]

definition base64Decode :: "base64_lib \<Rightarrow> string \<Rightarrow> text_error + bytes" where
  "base64Decode lib data =
     (case suffix_loop data (of_nat (length data) - 1) 0 of
        None \<Rightarrow> Inl OutOfRange
      | Some suffix \<Rightarrow>
          (case b64_data lib data of
             None \<Rightarrow> Inl BadCharacter
           | Some ret \<Rightarrow> if length ret < suffix then Inl LengthError else Inr (take (length ret - suffix) ret)))"

section \<open>Text of JSON values\<close>

definition toJonString_byte :: "byte \<Rightarrow> string" where
  "toJonString_byte b = ''0x'' @ to_string (unat b)"

definition toJonString_bytes :: "bytes \<Rightarrow> string" where
  "toJonString_bytes bs = toHexStringWithPrefix bs"

definition toJonString_number :: "nat \<Rightarrow> string" where
  "toJonString_number v =
     (let hexString = toHexString (toCompactBigEndian v 1) [] in
      ''0x'' @ (if hexString ! 0 = CHR ''0'' then drop 1 hexString else hexString))"

definition toJonString_secure :: "bytes \<Rightarrow> string" where
  "toJonString_secure a = ''0x'' @ fb_hex a"

definition jonStringToBytes :: "string \<Rightarrow> text_error + bytes" where
  "jonStringToBytes s = (case fromHexString s of Inl _ \<Rightarrow> Inl BadHex | Inr bs \<Rightarrow> Inr bs)"

definition decimal_text :: "string \<Rightarrow> bool" where
  "decimal_text s = list_all (\<lambda>c. c \<in> set ''0123456789'') s"

text \<open>
  \<^term>\<open>dec w s\<close> is Boost's unsigned number of \<^term>\<open>w\<close> bits made from a text of digits.
  The positions are computed with 32-bit unsigned numbers.
\<close>

definition jonStringToFixedBytes :: "(nat \<Rightarrow> string \<Rightarrow> nat option) \<Rightarrow> nat \<Rightarrow> string \<Rightarrow> text_error + bytes" where
  "jonStringToFixedBytes dec n s =
     (if take 2 s = ''0x'' then
        (case fb_of_hex n AlignRight (drop (2 + max (n * 2) ((length s - 2) mod 2 ^ 32) - n * 2) s) of
           Inl _ \<Rightarrow> Inl BadHex
         | Inr a \<Rightarrow> Inr a)
      else if decimal_text s then
        (case dec (8 * n) s of None \<Rightarrow> Inl BadNumber | Some v \<Rightarrow> Inr (fb_of_arith n v))
      else Inr (fb_zero n))"

definition jsonStringToInt :: "(nat \<Rightarrow> string \<Rightarrow> nat option) \<Rightarrow> nat \<Rightarrow> string \<Rightarrow> text_error + nat" where
  "jsonStringToInt dec n s =
     (if take 2 s = ''0x'' then
        (case fromHexString (drop 2 s) of Inl _ \<Rightarrow> Inl BadHex | Inr bs \<Rightarrow> Inr (fromBigEndian (n * 8) bs))
      else if decimal_text s then (case dec (n * 8) s of None \<Rightarrow> Inl BadNumber | Some v \<Rightarrow> Inr v)
      else Inl BadCast)"

definition jonStringToU256 :: "(nat \<Rightarrow> string \<Rightarrow> nat option) \<Rightarrow> string \<Rightarrow> text_error + nat" where
  "jonStringToU256 dec s = jsonStringToInt dec 32 s"

text \<open>The conversion of the 64-bit number to \<^verbatim>\<open>int64_t\<close> is Boost's as well.\<close>

definition jsonStringToInt64 :: "(nat \<Rightarrow> string \<Rightarrow> nat option) \<Rightarrow> (nat \<Rightarrow> int) \<Rightarrow> string \<Rightarrow> text_error + int" where
  "jsonStringToInt64 dec to_int64 s = bind_res (jsonStringToInt dec 8 s) (\<lambda>v. Inr (to_int64 v))"

definition jsonStringToAddress :: "string \<Rightarrow> fixed_bytes_error + bytes" where
  "jsonStringToAddress s = toAddress s"

section \<open>Base64 round trip\<close>

text \<open>The loop on an index inside the text.\<close>

lemma suffix_loop_at:
  assumes "k < length data" "3 < length data" "length data < 2 ^ 64"
  shows "suffix_loop data (of_nat k) n =
    (if length data - 3 \<le> k \<and> data ! k = CHR ''='' then suffix_loop data (of_nat (k - 1)) (n + 1) else Some n)"
proof -
  have u: "unat (of_nat k :: 64 word) = k" using assms by (simp add: unsigned_of_nat take_bit_nat_eq_self)
  have l: "(of_nat (length data) - 3 :: 64 word) = of_nat (length data - 3)" using assms(2) by (simp add: of_nat_diff)
  have "unat (of_nat (length data - 3) :: 64 word) = length data - 3"
    using assms by (simp add: unsigned_of_nat take_bit_nat_eq_self del: of_nat_diff)
  then have b: "(of_nat (length data) - 3 :: 64 word) \<le> of_nat k \<longleftrightarrow> length data - 3 \<le> k" by (simp add: l word_le_nat_alt u)
  have "(of_nat k - 1 :: 64 word) = of_nat (k - 1)" if "length data - 3 \<le> k" using that assms(2) by (simp add: of_nat_diff)
  then show ?thesis using assms u b by (subst suffix_loop.simps) auto
qed

lemma suffix_loop_padding:
  assumes "data = t @ replicate p CHR ''=''" "CHR ''='' \<notin> set t" "p \<le> 2" "3 < length data" "length data < 2 ^ 64"
  shows "suffix_loop data (of_nat (length data) - 1) 0 = Some p"
proof -
  have ne: "t \<noteq> []" using assms(1,3,4) by auto
  then have "data ! (length t - 1) = last t" using assms(1) by (simp add: nth_append last_conv_nth)
  then have t: "t \<noteq> []" "data ! (length t - 1) \<noteq> CHR ''=''" using ne assms(2) last_in_set [OF ne] by metis+
  have pad: "data ! k = CHR ''=''" if "length t \<le> k" "k < length data" for k using that assms(1) by (simp add: nth_append)
  have l: "length data = length t + p" "0 < length t" using assms(1) t(1) by auto
  have loop: "suffix_loop data (of_nat (length t - 1 + j)) n = Some (n + j)" if "j \<le> p" for j n
    using that
  proof (induction j arbitrary: n)
    case 0
    have "length t - 1 < length data" using l by linarith
    from suffix_loop_at [OF this assms(4,5), of n] t(2) show ?case by (simp del: of_nat_diff)
  next
    case (Suc j)
    have k: "length t - 1 + Suc j < length data" "length data - 3 \<le> length t - 1 + Suc j" "length t \<le> length t - 1 + Suc j"
      using Suc.prems l assms(3) by linarith+
    from suffix_loop_at [OF k(1) assms(4,5), of n] pad [OF k(3,1)] k(2)
    have "suffix_loop data (of_nat (length t - 1 + Suc j)) n = suffix_loop data (of_nat (length t - 1 + Suc j - 1)) (n + 1)"
      by (simp del: of_nat_diff of_nat_add of_nat_Suc)
    moreover have "length t - 1 + Suc j - 1 = length t - 1 + j" by simp
    ultimately show ?case using Suc.IH [of "n + 1"] Suc.prems by simp
  qed
  have e: "length t - 1 + p = length data - 1" using l by linarith
  have "(of_nat (length data) - 1 :: 64 word) = of_nat (length t - 1 + p)" unfolding e using l by (simp add: of_nat_diff Suc_le_eq)
  then show ?thesis using loop [of p 0] by simp
qed

text \<open>
  What the alphabet does for one byte string: the text has no padding character and the
  usual length, and reading it with its padding gives the bytes with zeros for the padding.
\<close>

definition b64_lawful :: "base64_lib \<Rightarrow> bytes \<Rightarrow> bool" where
  "b64_lawful lib data =
     (CHR ''='' \<notin> set (b64_text lib data) \<and> length (b64_text lib data) = (length data * 8 + 5) div 6 \<and>
      b64_data lib (b64_text lib data @ replicate ((3 - length data mod 3) mod 3) CHR ''='') =
        Some (data @ replicate ((3 - length data mod 3) mod 3) 0))"

lemma padded_size:
  assumes "0 < (n :: nat)"
  shows "3 < (n * 8 + 5) div 6 + (3 - n mod 3) mod 3"
proof (cases "n < 4")
  case True
  then have "n = 1 \<or> n = 2 \<or> n = 3" using assms by linarith
  then show ?thesis by auto
next
  case False
  then have "37 div 6 \<le> (n * 8 + 5) div 6" by (intro div_le_mono) simp
  then show ?thesis by simp
qed

text \<open>
  C29: the base64 text of a byte string that is not empty decodes to that byte string; the
  text of the empty string makes the decoder read outside its argument.
\<close>

theorem base64_round_trip:
  assumes "b64_lawful lib data" "length data < 2 ^ 60"
  shows "base64Decode lib (base64Encode lib data) = (if data = [] then Inl OutOfRange else Inr data)"
proof (cases "data = []")
  case True
  then have "base64Encode lib data = []" using assms(1) by (simp add: base64Encode_def b64_lawful_def)
  moreover have "suffix_loop [] (- 1) 0 = None"
    by (subst suffix_loop.simps) (simp add: word_le_nat_alt unsigned_minus_1_eq_mask mask_eq_exp_minus_1)
  ultimately show ?thesis using True by (simp add: base64Decode_def)
next
  case False
  let ?t = "b64_text lib data" and ?p = "(3 - length data mod 3) mod 3"
  have len: "length (base64Encode lib data) = (length data * 8 + 5) div 6 + ?p"
    using assms(1) by (simp add: base64Encode_def b64_lawful_def)
  have pos: "0 < length data" using False by simp
  have a: "3 < length (base64Encode lib data)" unfolding len by (rule padded_size [OF pos])
  have b: "length (base64Encode lib data) < 2 ^ 64"
    unfolding len using assms(2) div_le_dividend [of "length data * 8 + 5" 6] mod_less_divisor [of 3 "3 - length data mod 3"] by simp
  have c: "?p \<le> 2" using mod_less_divisor [of 3 "3 - length data mod 3"] by linarith
  have d: "CHR ''='' \<notin> set ?t" using assms(1) unfolding b64_lawful_def by blast
  from suffix_loop_padding [OF base64Encode_def d c a b]
  have "suffix_loop (base64Encode lib data) (of_nat (length (base64Encode lib data)) - 1) 0 = Some ?p" .
  then show ?thesis using False assms(1) by (simp add: base64Decode_def base64Encode_def b64_lawful_def)
qed

theorem base64_round_trip_witness:
  "let lib = \<lparr>b64_text = (\<lambda>_. ''QQ''), b64_data = (\<lambda>_. Some [65, 0, 0])\<rparr> in
   base64Encode lib [65] = ''QQ=='' \<and> base64Decode lib ''QQ=='' = Inr [65]"
proof -
  let ?lib = "\<lparr>b64_text = (\<lambda>_. ''QQ''), b64_data = (\<lambda>_. Some [65, 0, 0])\<rparr>"
  have e: "base64Encode ?lib [65] = ''QQ==''" by (simp add: base64Encode_def numeral_2_eq_2)
  have "b64_lawful ?lib [65]" by (simp add: b64_lawful_def numeral_2_eq_2)
  from base64_round_trip [OF this] e show ?thesis by simp
qed

section \<open>JSON numbers\<close>

lemma hex_digit_zero: "n < 16 \<Longrightarrow> hexCharsCollection ! n = CHR ''0'' \<longleftrightarrow> n = 0"
  using hex_digit_back [of n] by (auto simp: convertCharToHexNumber_def hexCharsCollection_def)

lemma fromHexString_stripped:
  assumes "unat b div 16 = 0"
  shows "fromHexString (drop 1 (toHexString_loop (b # bs))) = Inr (b # bs)"
proof -
  have b: "unat b < 16" using assms by simp
  have nx: "toHexString_loop bs ! 0 \<noteq> CHR ''x''" if "bs \<noteq> []"
    using that unat_byte_less [of "hd bs"] by (cases bs) (simp_all add: nibbles hex_digit_not_x)
  have "0 \<le> uint b" by simp
  then have "uint b \<noteq> - 1" by linarith
  then show ?thesis using b nx
    by (cases "bs = []") (simp_all add: fromHexString_def nibbles hex_digit_back Let_def)
qed

lemma fromHexString_json: "fromHexString (drop 2 (toJonString_number v)) = Inr (toCompactBigEndian v 1)"
proof -
  obtain b bs where c: "toCompactBigEndian v 1 = b # bs"
    by (cases "toCompactBigEndian v 1") (auto simp: toCompactBigEndian_def be_bytes_def dest: arg_cong [where f = length])
  have d: "unat b div 16 < 16" using unat_byte_less [of b] by linarith
  have z: "toHexString_loop (b # bs) ! 0 = CHR ''0'' \<longleftrightarrow> unat b div 16 = 0"
    unfolding toHexString_loop.simps nth_Cons_0 nibbles(1) by (rule hex_digit_zero [OF d])
  have full: "fromHexString (toHexString_loop (b # bs)) = Inr (b # bs)"
    using toHexString_loop_no_prefix [of "b # bs"] by (auto simp: fromHexString_def simp del: toHexString_loop.simps)
  show ?thesis
  proof (cases "unat b div 16 = 0")
    case True
    then show ?thesis using fromHexString_stripped [OF True, of bs] z
      by (simp add: toJonString_number_def toHexString_def c del: toHexString_loop.simps One_nat_def)
  next
    case False
    then show ?thesis using full z by (simp add: toJonString_number_def toHexString_def c del: toHexString_loop.simps One_nat_def)
  qed
qed

lemma decimal_text_to_string: "decimal_text (to_string n) \<and> take 2 (to_string n) \<noteq> ''0x''"
proof -
  have d: "list_all is_digit (to_string n)" by (rule to_string_digits)
  have c: "c \<in> set ''0123456789''" if "is_digit c" for c
  proof -
    have "48 \<le> (of_char c :: nat)" "(of_char c :: nat) < 58" using that by (simp_all add: is_digit_def less_eq_char_def)
    then have "(of_char c :: nat) \<in> set [48..<58]" by (simp only: set_upt atLeastLessThan_iff)
    moreover have "\<forall>n \<in> set [48..<58]. char_of (n :: nat) \<in> set ''0123456789''" by code_simp
    ultimately show ?thesis by (metis char_of_char)
  qed
  have "CHR ''x'' \<notin> set (to_string n)" using d by (auto simp: list_all_iff is_digit_def less_eq_char_def)
  then have "CHR ''x'' \<notin> set (take 2 (to_string n))" using in_set_takeD by metis
  then have "take 2 (to_string n) \<noteq> ''0x''" by auto
  then show ?thesis using d c by (auto simp: decimal_text_def list_all_iff)
qed

text \<open>
  C28: numbers survive their JSON text: the hexadecimal text of an unsigned number of n bytes,
  and its decimal text as far as Boost reads decimal digits, convert back to the number, and
  the prefixed hexadecimal text of n bytes converts back to these bytes.
\<close>

theorem json_round_trip:
  assumes "v < 256 ^ n" "dec (n * 8) (to_string v) = Some v" "length a = n" "n < 2 ^ 30"
  shows "jsonStringToInt dec n (toJonString_number v) = Inr v \<and> jsonStringToInt dec n (to_string v) = Inr v \<and>
    jonStringToBytes (toJonString_bytes a) = Inr a \<and> jonStringToFixedBytes dec n (toJonString_bytes a) = Inr a"
proof (intro conjI)
  have "v mod 2 ^ (n * 8) = v" using assms(1) by (simp add: power_mult mult.commute [of n])
  moreover have "v < 256 ^ max 1 (compact_size v)"
    using compact_size_bound [of v] by (rule less_le_trans) (simp add: power_increasing)
  ultimately have "fromBigEndian (n * 8) (toCompactBigEndian v 1) = v"
    by (simp add: fromBigEndian_eq toCompactBigEndian_def take_bit_eq_mod)
  moreover have "take 2 (toJonString_number v) = ''0x''" by (simp add: toJonString_number_def Let_def)
  ultimately show "jsonStringToInt dec n (toJonString_number v) = Inr v" by (simp add: jsonStringToInt_def fromHexString_json)
  show "jsonStringToInt dec n (to_string v) = Inr v"
    using decimal_text_to_string [of v] assms(2) by (simp add: jsonStringToInt_def)
  have h: "fromHexString (toHexStringWithPrefix a) = Inr a" "fromHexString (toHexString_loop a) = Inr a"
    using toHexString_loop_no_prefix [of a] by (auto simp: fromHexString_def toHexStringWithPrefix_def toHexString_def)
  then show "jonStringToBytes (toJonString_bytes a) = Inr a" by (simp add: jonStringToBytes_def toJonString_bytes_def)
  have "length (toJonString_bytes a) = 2 + n * 2" "take 2 (toJonString_bytes a) = ''0x''" "drop 2 (toJonString_bytes a) = toHexString_loop a"
    using assms(3) by (simp_all add: toJonString_bytes_def toHexStringWithPrefix_def toHexString_def)
  then show "jonStringToFixedBytes dec n (toJonString_bytes a) = Inr a"
    using assms(3,4) h(2) by (simp add: jonStringToFixedBytes_def fb_of_hex_def constructFixedBytes_def)
qed

theorem json_round_trip_witness:
  "jonStringToU256 (\<lambda>w s. Some (digits_value s)) (toJonString_number 1000) = Inr 1000"
  using json_round_trip [of 1000 32 "\<lambda>w s. Some (digits_value s)" "replicate 32 0"]
  by (simp add: jonStringToU256_def digits_value_to_string)

text \<open>Decimal digits read as hexadecimal ones.\<close>

lemma decimal_digit_hex:
  assumes "k < 10"
  shows "convertCharToHexNumber (char_of (48 + k)) = int k" "char_of (48 + k) \<noteq> CHR ''x''"
proof -
  have "(of_char (char_of (48 + k) :: char) :: nat) = 48 + k" using assms by simp
  then have "(of_char (char_of (48 + k) :: char) :: int) = 48 + int k" by (metis of_nat_add of_nat_numeral of_nat_of_char)
  then show "convertCharToHexNumber (char_of (48 + k)) = int k" using assms by (simp add: convertCharToHexNumber_def)
  then show "char_of (48 + k) \<noteq> CHR ''x''" by (auto simp: convertCharToHexNumber_def)
qed

lemma two_digits:
  assumes "a < 10" "b < 10"
  shows "unat (word_of_int (push_bit 4 (int a)) + word_of_int (int b) :: byte) = 16 * a + b"
proof -
  have "(word_of_int (push_bit 4 (int a)) + word_of_int (int b) :: byte) = of_nat (16 * a + b)"
    by (simp add: push_bit_eq_mult)
  then show ?thesis using assms by (simp add: unsigned_of_nat take_bit_nat_eq_self del: of_nat_add of_nat_mult)
qed

lemma byte_text_value:
  assumes "n < 256"
  shows "\<exists>bs. fromHexString (to_string n) = Inr bs \<and> length bs \<le> 2 \<and> (be_val bs = n \<longleftrightarrow> n < 10)"
proof -
  let ?c = "\<lambda>k. char_of (48 + k) :: char"
  consider "n < 10" | "10 \<le> n" "n < 100" | "100 \<le> n" by linarith
  then show ?thesis
  proof cases
    case 1
    then have "fromHexString (to_string n) = Inr [word_of_int (int n)]"
      by (subst to_string.simps) (simp add: fromHexString_def decimal_digit_hex(1) del: of_nat_add)
    moreover have "be_val [word_of_int (int n)] = n"
      using 1 by (simp add: be_val_def unsigned_of_nat take_bit_nat_eq_self)
    ultimately show ?thesis using 1 by auto
  next
    case 2
    define a b where "a = n div 10" and "b = n mod 10"
    have ab: "a < 10" "b < 10" "n = 10 * a + b" "0 < a" using 2 by (simp_all add: a_def b_def div_less_iff_less_mult)
    let ?w = "word_of_int (push_bit 4 (int a)) + word_of_int (int b) :: byte"
    have t: "to_string n = [?c a, ?c b]"
      using 2 ab(1) by (subst to_string.simps, subst to_string.simps) (simp add: a_def b_def)
    have "fromHexString [?c a, ?c b] = Inr [?w]"
      by (simp add: fromHexString_def decimal_digit_hex ab(1,2) del: of_nat_add of_int_of_nat_eq)
    moreover have "be_val [?w] = 16 * a + b" unfolding be_val_def using two_digits [OF ab(1,2)] by (simp del: of_int_of_nat_eq)
    ultimately show ?thesis using ab 2 t by (intro exI [of _ "[?w]"]) (simp del: of_int_of_nat_eq)
  next
    case 3
    define a b c where "a = n div 10 div 10" and "b = n div 10 mod 10" and "c = n mod 10"
    have "n div 10 = 10 * a + b" "n = 10 * (n div 10) + c" by (simp_all add: a_def b_def c_def)
    then have n: "n = 100 * a + 10 * b + c" by linarith
    have "b < 10" "c < 10" by (simp_all add: b_def c_def)
    then have abc: "a < 10" "b < 10" "c < 10" "0 < a" using n 3 assms by linarith+
    let ?v = "word_of_int (int a) :: byte" and ?w = "word_of_int (push_bit 4 (int b)) + word_of_int (int c) :: byte"
    have "\<not> n < 10" "\<not> n div 10 < 10" using 3 by linarith+
    then have t: "to_string n = [?c a, ?c b, ?c c]"
      using abc(1) to_string.simps [of n] to_string.simps [of "n div 10"] to_string.simps [of "n div 10 div 10"]
      by (simp add: a_def b_def c_def)
    have "fromHexString [?c a, ?c b, ?c c] = Inr [?v, ?w]"
      by (simp add: fromHexString_def decimal_digit_hex abc(1-3) del: of_nat_add of_int_of_nat_eq)
    moreover have "be_val [?v, ?w] = 256 * a + (16 * b + c)"
    proof -
      have "unat ?v = a" using abc(1) by (simp add: unsigned_of_nat take_bit_nat_eq_self)
      then show ?thesis unfolding be_val_def using two_digits [OF abc(2,3)] by (simp del: of_int_of_nat_eq)
    qed
    ultimately show ?thesis using abc n 3 t by (intro exI [of _ "[?v, ?w]"]) (simp del: of_int_of_nat_eq)
  qed
qed

text \<open>
  The JSON text of a byte is its decimal digits after a hexadecimal prefix; it converts
  back to the byte only below ten.
\<close>

theorem json_byte_text: "jonStringToU256 dec (toJonString_byte b) = Inr (unat b) \<longleftrightarrow> unat b < 10"
proof -
  obtain bs where bs: "fromHexString (to_string (unat b)) = Inr bs" "length bs \<le> 2" "be_val bs = unat b \<longleftrightarrow> unat b < 10"
    using byte_text_value [OF unat_byte_less] by blast
  have "be_val bs < 256 ^ 32" using be_val_less [of bs] bs(2) power_increasing [of "length bs" 32 "256 :: nat"] by linarith
  then have "fromBigEndian 256 bs = be_val bs" by (simp add: fromBigEndian_eq take_bit_eq_mod)
  then show ?thesis using bs by (auto simp: jonStringToU256_def jsonStringToInt_def toJonString_byte_def)
qed

end
