(* ===== verification/Transaction_Status.thy ===== *)
theory Transaction_Status
  imports Bcos_Prelude
begin

text \<open>
  The status of a transaction and its two texts, \<^verbatim>\<open>libprotocol/TransactionStatus.h\<close>: the
  enumeration with its 32-bit codes, the hexadecimal text of the code and the name that is
  printed to a stream.
\<close>

datatype TransactionStatus =
  StatusNone | StatusUnknown | OutOfGasLimit | NotEnoughCash | BadInstruction | BadJumpDestination | OutOfGas
  | OutOfStack | StackUnderflow | PrecompiledError | RevertInstruction | ContractAddressAlreadyUsed
  | PermissionDenied | CallAddressError | GasOverflow | ContractFrozen | AccountFrozen | WASMValidationFailure
  | WASMArgumentOutOfRange | WASMUnreachableInstruction | WASMTrap | NonceCheckFail | BlockLimitCheckFail
  | TxPoolIsFull | Malform | AlreadyInTxPool | TxAlreadyInChain | InvalidChainId | InvalidGroupId
  | InvalidSignature | RequestNotBelongToTheGroup

fun status_code :: "TransactionStatus \<Rightarrow> nat" where
  "status_code StatusNone = 0"
| "status_code StatusUnknown = 1"
| "status_code OutOfGasLimit = 2"
| "status_code NotEnoughCash = 7"
| "status_code BadInstruction = 10"
| "status_code BadJumpDestination = 11"
| "status_code OutOfGas = 12"
| "status_code OutOfStack = 13"
| "status_code StackUnderflow = 14"
| "status_code PrecompiledError = 15"
| "status_code RevertInstruction = 16"
| "status_code ContractAddressAlreadyUsed = 17"
| "status_code PermissionDenied = 18"
| "status_code CallAddressError = 19"
| "status_code GasOverflow = 20"
| "status_code ContractFrozen = 21"
| "status_code AccountFrozen = 22"
| "status_code WASMValidationFailure = 32"
| "status_code WASMArgumentOutOfRange = 33"
| "status_code WASMUnreachableInstruction = 34"
| "status_code WASMTrap = 35"
| "status_code NonceCheckFail = 10000"
| "status_code BlockLimitCheckFail = 10001"
| "status_code TxPoolIsFull = 10002"
| "status_code Malform = 10003"
| "status_code AlreadyInTxPool = 10004"
| "status_code TxAlreadyInChain = 10005"
| "status_code InvalidChainId = 10006"
| "status_code InvalidGroupId = 10007"
| "status_code InvalidSignature = 10008"
| "status_code RequestNotBelongToTheGroup = 10009"

text \<open>The digits that \<^verbatim>\<open>std::hex\<close> prints for a number that is not negative.\<close>

fun hex_text :: "nat \<Rightarrow> string" where
  "hex_text n = (if n < 16 then [''0123456789abcdef'' ! n] else hex_text (n div 16) @ [''0123456789abcdef'' ! (n mod 16)])"

declare hex_text.simps [simp del]

definition status_toString :: "TransactionStatus \<Rightarrow> string" where
  "status_toString s = ''0x'' @ hex_text (status_code s)"

fun status_print :: "TransactionStatus \<Rightarrow> string" where
  "status_print StatusNone = ''None''"
| "status_print OutOfGasLimit = ''OutOfGasLimit''"
| "status_print NotEnoughCash = ''NotEnoughCash''"
| "status_print BadInstruction = ''BadInstruction''"
| "status_print BadJumpDestination = ''BadJumpDestination''"
| "status_print OutOfGas = ''OutOfGas''"
| "status_print OutOfStack = ''OutOfStack''"
| "status_print StackUnderflow = ''StackUnderflow''"
| "status_print NonceCheckFail = ''NonceCheckFail''"
| "status_print BlockLimitCheckFail = ''BlockLimitCheckFail''"
| "status_print PrecompiledError = ''PrecompiledError''"
| "status_print RevertInstruction = ''RevertInstruction''"
| "status_print ContractAddressAlreadyUsed = ''ContractAddressAlreadyUsed''"
| "status_print PermissionDenied = ''PermissionDenied''"
| "status_print CallAddressError = ''CallAddressError''"
| "status_print GasOverflow = ''GasOverflow''"
| "status_print ContractFrozen = ''ContractFrozen''"
| "status_print AccountFrozen = ''AccountFrozen''"
| "status_print TxPoolIsFull = ''TxPoolIsFull''"
| "status_print Malform = ''MalformTx''"
| "status_print AlreadyInTxPool = ''AlreadyInTxPool''"
| "status_print TxAlreadyInChain = ''TxAlreadyInChain''"
| "status_print InvalidChainId = ''InvalidChainId''"
| "status_print InvalidGroupId = ''InvalidGroupId''"
| "status_print InvalidSignature = ''InvalidSignature''"
| "status_print RequestNotBelongToTheGroup = ''RequestNotBelongToTheGroup''"
| "status_print _ = ''Unknown''"

section \<open>Lemmas\<close>

lemma hex_digit_inj: "m < 16 \<Longrightarrow> n < 16 \<Longrightarrow> ''0123456789abcdef'' ! m = ''0123456789abcdef'' ! n \<longleftrightarrow> m = n"
  using nth_eq_iff_index_eq [of "''0123456789abcdef''" m n] by simp

lemma hex_text_nonempty [simp]: "hex_text n \<noteq> []" "[] \<noteq> hex_text n"
  by (subst hex_text.simps, simp)+

lemma hex_text_inj: "hex_text m = hex_text n \<Longrightarrow> m = n"
proof (induction m arbitrary: n rule: hex_text.induct)
  case (1 m)
  show ?case
  proof (cases "m < 16"; cases "n < 16")
    assume "m < 16" "n < 16"
    then show ?thesis using "1.prems" hex_digit_inj by (simp add: hex_text.simps)
  next
    assume "m < 16" "\<not> n < 16"
    then show ?thesis using "1.prems" by (simp add: hex_text.simps [of m] hex_text.simps [of n])
  next
    assume "\<not> m < 16" "n < 16"
    then show ?thesis using "1.prems" by (simp add: hex_text.simps [of m] hex_text.simps [of n])
  next
    assume a: "\<not> m < 16" "\<not> n < 16"
    then have "hex_text (m div 16) = hex_text (n div 16)" "m mod 16 = n mod 16"
      using "1.prems" hex_digit_inj [of "m mod 16" "n mod 16"] by (simp_all add: hex_text.simps [of m] hex_text.simps [of n])
    then show ?thesis using "1.IH" [OF a(1)] by (metis div_mult_mod_eq)
  qed
qed

lemma status_code_inj: "status_code s = status_code t \<longleftrightarrow> s = t"
  by (cases s; cases t) simp_all

text \<open>Five statuses print as unknown; every other text names one status.\<close>

definition unnamed :: "TransactionStatus \<Rightarrow> bool" where
  "unnamed s = (s \<in> {StatusUnknown, WASMValidationFailure, WASMArgumentOutOfRange, WASMUnreachableInstruction, WASMTrap})"

lemma status_print_unknown: "status_print s = ''Unknown'' \<longleftrightarrow> unnamed s"
  by (cases s) (simp_all add: unnamed_def)

lemma status_print_inj: "\<not> unnamed s \<Longrightarrow> status_print s = status_print t \<Longrightarrow> s = t"
  by (cases s; cases t) (simp_all add: unnamed_def)

text \<open>
  The hexadecimal text of a status determines it; the printed name determines it unless
  the name is the one for unknown, which four defined WASM failures print as well.
\<close>

theorem status_texts:
  "(status_toString s = status_toString t \<longleftrightarrow> s = t) \<and>
   (status_print s = status_print t \<longleftrightarrow> s = t \<or> unnamed s \<and> unnamed t)"
proof
  show "status_toString s = status_toString t \<longleftrightarrow> s = t"
    using hex_text_inj status_code_inj by (auto simp: status_toString_def)
  show "status_print s = status_print t \<longleftrightarrow> s = t \<or> unnamed s \<and> unnamed t"
    using status_print_inj status_print_unknown by metis
qed

end
