(* ===== verification/Spec2Isabelle.thy ===== *)
theory Spec2Isabelle
  imports Bcos_Prelude Storage_Table_Props Sealing_Props Scale_Props Abi_Props Abi_Type Block_Object_Props
    Node_Config_Props Ledger_Fetcher_Props Worker_Threads_Props Task_Queues_Props Network_Messages_Props
    Group_Info_Props Sealer_Module Text_Conversion Transaction_Status
begin

text \<open>
  \<^bold>\<open>A verification library of bcos-framework\<close>, the framework of the FISCO BCOS blockchain node.
  File names are relative to \<^verbatim>\<open>src/\<close>.

  \<^bold>\<open>The program and its parts.\<close>
  A node keeps its state in layers of key/value rows (\<^verbatim>\<open>libstorage\<close>), on which tables and
  key/value helpers are built.  Transactions, receipts, headers and blocks
  (\<^verbatim>\<open>libprotocol\<close>) are encoded with SCALE (\<^verbatim>\<open>libcodec/scale\<close>) and generated messages; calls of
  contracts with the contract ABI (\<^verbatim>\<open>libcodec/abi\<close>).  The sealer (\<^verbatim>\<open>libsealer\<close>) runs on a worker
  thread (\<^verbatim>\<open>libutilities\<close>): it fetches transactions from the pool, builds proposals and submits
  them to consensus; other nodes decode the proposal and compare Merkle roots.  Nodes exchange
  topic and synchronisation messages (\<^verbatim>\<open>libprotocol/amop\<close>, \<^verbatim>\<open>libsync\<close>); they are configured from
  files and from the ledger (\<^verbatim>\<open>libtool\<close>) and described to each other as groups
  (\<^verbatim>\<open>interfaces/multigroup\<close>).

  \<^bold>\<open>Conventions.\<close>
  Objects are records, enumerations and tagged unions are datatypes, and every operation is a
  function of the object that returns it updated.  Exceptions, error codes and undefined
  behaviour (reads out of bounds, null pointers) are values of a sum or option type.  Numbers
  keep their width: words, or naturals and integers with the truncation written out.  Code
  outside the repository is an argument: hash functions and signatures, the byte forms of
  generated messages, JSON and property trees, Boost's number and text conversions.  What the
  proofs need of it is a named hypothesis (\<^verbatim>\<open>env_lawful\<close>, \<^verbatim>\<open>pb_lawful\<close>, \<^verbatim>\<open>b64_lawful\<close>, and the
  like), each with a concrete instance in a witness.  A thread that takes a lock is a sequence
  of critical sections; runs interleave the sections of all threads in any order
  (\<^verbatim>\<open>run\<close> and the locale \<^verbatim>\<open>transition_system\<close> of the prelude, interpreted for headers, blocks,
  the sealer, the sealer module, the worker, the timer and the synchronisation lists).

  \<^bold>\<open>Theories.\<close>
  \<^item> \<^verbatim>\<open>Bcos_Prelude\<close>: bytes, results, ordered maps, \<^verbatim>\<open>std::to_string\<close>, little and big endian,
    transition systems, ranks of runs, stream codecs.
  \<^item> \<^verbatim>\<open>Byte_Utils\<close>, \<^verbatim>\<open>Fixed_Bytes\<close>, \<^verbatim>\<open>Text_Conversion\<close>: \<^verbatim>\<open>libutilities/{DataConvertUtility,Common,
    RefDataContainer,FixedBytes,Base64,JsonDataConvertUtility}\<close>.  Hexadecimal, big endian,
    base64 and JSON texts are read back; comparisons are the order of the values.
  \<^item> \<^verbatim>\<open>Storage_Entry\<close>, \<^verbatim>\<open>State_Storage\<close>, \<^verbatim>\<open>State_Storage_Props\<close>: \<^verbatim>\<open>interfaces/storage\<close> and
    \<^verbatim>\<open>libstorage/StateStorage\<close>.  A chain of layers implements one map, \<^verbatim>\<open>chain_view\<close>: reads return
    it, writes update it at one key, rollback restores it, key listings enumerate it.  The state
    hash does not depend on the order of iteration, the split into ranges or the interleaving of
    the threads, unless two of them update it for deleted rows, which the code does without the
    lock: then an update can be lost.
  \<^item> \<^verbatim>\<open>Storage_Table\<close>, \<^verbatim>\<open>Storage_Table_Props\<close>: \<^verbatim>\<open>libstorage/{StorageInterface,Table}.cpp\<close>,
    \<^verbatim>\<open>libutilities/{KVStorageHelper,BatchStorageHelper}.h\<close> over the locale \<^verbatim>\<open>row_storage\<close>, which the
    layered store instantiates.
  \<^item> \<^verbatim>\<open>Scale_Codec\<close>, \<^verbatim>\<open>Scale_Props\<close>: \<^verbatim>\<open>libcodec/scale\<close>; each type is a stream codec, and the
    combinators make stream codecs from stream codecs.
  \<^item> \<^verbatim>\<open>Abi_Codec\<close>, \<^verbatim>\<open>Abi_Props\<close>, \<^verbatim>\<open>Abi_Type\<close>: \<^verbatim>\<open>libcodec/abi\<close>; values are read back, except
    static arrays of several words inside a tuple and signed numbers near the lower end of
    the range, which the code misreads; printed signatures parse.
  \<^item> \<^verbatim>\<open>Merkle_Proof\<close>: \<^verbatim>\<open>libprotocol/ParallelMerkleProof.cpp\<close>; equal roots of as many
    but different leaves exhibit a collision of the hash, and proofs link the root to every leaf.
  \<^item> \<^verbatim>\<open>Block_Header\<close>, \<^verbatim>\<open>Protocol_Objects\<close>, \<^verbatim>\<open>Block_Object\<close> and their \<^verbatim>\<open>_Props\<close>:
    \<^verbatim>\<open>libprotocol/protobuf\<close>, \<^verbatim>\<open>interfaces/protocol\<close>.  Cached bytes are the encoding of the
    fields or, after decoding, bytes that decode to them, under all operations; encoded objects
    decode to the same objects, up to the version of a receipt and a header reset to null;
    accepted transactions are bound to their hash and sender; roots commit to the transactions
    of blocks of equal length.
  \<^item> \<^verbatim>\<open>Transaction_Status\<close>: \<^verbatim>\<open>libprotocol/TransactionStatus.h\<close>.
  \<^item> \<^verbatim>\<open>Sealing\<close>, \<^verbatim>\<open>Sealing_Props\<close>: \<^verbatim>\<open>libsealer/SealingManager\<close> and the handlers of
    \<^verbatim>\<open>libsealer/Sealer.cpp\<close>.  Every fetched transaction is pending, waiting on the thread
    pool to be handed back, handed back, given up after four failed attempts, or in one
    submitted proposal; proposals are well-formed; a block with system transactions is waited for.
  \<^item> \<^verbatim>\<open>Worker_Threads\<close>, \<^verbatim>\<open>Worker_Threads_Props\<close>: \<^verbatim>\<open>libutilities/{Worker,Timer}\<close> with any number of
    callers.  A stopped task stays at rest; the wait of a stop ends unless another caller starts
    or terminates the worker meanwhile (a termination strands it); a termination returns and
    the thread is joined once, unless the request falls into the window in which it is lost.
  \<^item> \<^verbatim>\<open>Sealer_Module\<close>: \<^verbatim>\<open>Sealer::start\<close> and \<^verbatim>\<open>Sealer::stop\<close> over the two previous parts.  Every
    run of the module is a run of the worker and of the sealing manager; a stopped sealer
    submits nothing, but hand-backs that wait on its stopped thread pool never run; stop returns;
    after an exception of the task the sealer sleeps until it is stopped.
  \<^item> \<^verbatim>\<open>Task_Queues\<close>, \<^verbatim>\<open>Task_Queues_Props\<close>: \<^verbatim>\<open>libutilities/{ConcurrentQueue,CallbackCollectionHandler}.h\<close>.
  \<^item> \<^verbatim>\<open>Network_Messages\<close>, \<^verbatim>\<open>Network_Messages_Props\<close>: \<^verbatim>\<open>libprotocol/amop\<close>, \<^verbatim>\<open>libsync\<close>,
    \<^verbatim>\<open>interfaces/gateway/GatewayTypeDef.h\<close>.
  \<^item> \<^verbatim>\<open>Node_Config\<close>, \<^verbatim>\<open>Ledger_Fetcher\<close>, \<^verbatim>\<open>Group_Info\<close> and their \<^verbatim>\<open>_Props\<close>: \<^verbatim>\<open>libtool\<close>,
    \<^verbatim>\<open>interfaces/{ledger,consensus,multigroup}\<close>.  Valid genesis configurations; fetching is
    bounded and correct in every order of answers; groups are read back from JSON.
  \<^item> This theory: a proposal from the sealer of one node to the Merkle root of another,
    which joins the sealer, the blocks and the Merkle tree.

  \<^bold>\<open>Bounds.\<close>
  Every definition is total and no fuel is used: loops whose index wraps or that could run on
  stop where the code reads out of bounds.  Numbers in theorems follow from the constants and
  the structure of the code: at most twelve ledger calls per fetch (a block information fetch
  has two requests, each made once and repeated up to five times), four attempts to hand
  transactions back, four steps of the worker thread until it rests, six until it exits, eleven
  until \<^verbatim>\<open>Sealer::stop\<close> returns.  Sizes are assumed below what a 64-bit length can hold where a
  theorem says so, and the Merkle tree has fewer than 2 to the 31 leaves.

  \<^bold>\<open>Not modelled.\<close>
  Pure interfaces and factories that only construct (\<^verbatim>\<open>interfaces/{dispatcher,executor,front,rpc,
  txpool,sync}\<close>); cryptography, which is behind interfaces; logging (\<^verbatim>\<open>BoostLog*\<close>), file access,
  clocks and the thread pool, which are I/O or calls of a library; the execution messages, which
  are records of setters and getters; code generated from protocol descriptions; the archive
  helpers of entries, random and streamed byte strings and the container operators of
  \<^verbatim>\<open>DataConvertUtility.h\<close>; the SCALE list decoder, which cannot be instantiated; the submit
  callback of a transaction, a stored function object; test doubles and tests.  The memory model
  is sequentially consistent; an unlocked update is a read and a write with other threads in
  between.  Allocation does not fail except where the code checks it.
\<close>

section \<open>A proposal from the sealer to the other nodes\<close>

text \<open>
  The block object that the sealer builds and submits: \<^verbatim>\<open>SealingManager::generateProposal\<close>
  creates the header and appends the metadata, and \<^verbatim>\<open>Sealer::submitProposal\<close> completes the
  header before the block is encoded.  The timestamp is converted from the unsigned clock
  reading to the signed field.
\<close>

definition proposal_header :: "int \<Rightarrow> block \<Rightarrow> block_header" where
  "proposal_header uninit blk =
     setSealer (b_sealer blk) (setConsensusWeights (map int (b_weightList blk)) (setSealerList (b_sealerList blk)
       (setTimestamp (sint (b_timestamp blk)) (setNumber (b_number blk) (new_block_header uninit)))))"

definition append_metas :: "tx_meta list \<Rightarrow> block_obj \<Rightarrow> block_obj" where
  "append_metas mds b = fold (\<lambda>md. appendTransactionMetaData (new_tx_meta (md_hash md) (md_to md))) mds b"

definition proposal_object :: "int \<Rightarrow> block \<Rightarrow> block_obj" where
  "proposal_object uninit blk =
     append_metas (b_metas blk) (setBlockHeader (Some (proposal_header uninit blk)) new_block)"

lemma append_metas_eq:
  "append_metas mds b = b\<lparr>bk_metas := bk_metas b @ map (\<lambda>md. new_tx_meta (md_hash md) (md_to md)) mds\<rparr>"
  by (induction mds arbitrary: b) (simp_all add: append_metas_def appendTransactionMetaData_def)

lemma append_metas_run:
  "run (block_step env) b (map (\<lambda>md. BAppendMeta (new_tx_meta (md_hash md) (md_to md))) mds) (append_metas mds b)"
proof (induction mds arbitrary: b)
  case Nil
  show ?case by (simp add: append_metas_def run_nil)
next
  case (Cons md mds)
  have "append_metas (md # mds) b = append_metas mds (appendTransactionMetaData (new_tx_meta (md_hash md) (md_to md)) b)"
    by (simp add: append_metas_def)
  then show ?case by (auto intro!: run_cons [OF _ Cons.IH])
qed

lemma proposal_object_run: "\<exists>ops. run (block_step env) new_block ops (proposal_object uninit blk)"
proof -
  have "block_step env (BHeader (Some (proposal_header uninit blk))) new_block (setBlockHeader (Some (proposal_header uninit blk)) new_block)"
    by simp
  from run_cons [of "block_step env", OF this append_metas_run] show ?thesis unfolding proposal_object_def by blast
qed

lemma proposal_header_inv: "header_inv (proposal_header uninit blk)"
  by (simp add: header_inv_def proposal_header_def setter_defs new_block_header_def)

lemma proposal_object_parts:
  "bk_header (proposal_object uninit blk) = Some (proposal_header uninit blk)"
  "bk_transactions (proposal_object uninit blk) = []" "bk_receipts (proposal_object uninit blk) = []"
  "bk_nonceList (proposal_object uninit blk) = []"
  "bk_metas (proposal_object uninit blk) = map (\<lambda>md. new_tx_meta (md_hash md) (md_to md)) (b_metas blk)"
  by (simp_all add: proposal_object_def append_metas_eq setBlockHeader_def new_block_def)

lemma proposal_decodes:
  assumes "env_lawful env" "fields_ok (pe_scale env) (block_header.m_fields (proposal_header uninit blk))"
    and "block_encode env (proposal_object uninit blk) = Inr (data, p1)"
  shows "\<exists>p h. block_decode env calculateHash checkSig new_block data = Inr p \<and> bk_transactions p = [] \<and>
    bk_metas p = map (\<lambda>md. meta_of_raw (mt_raw (new_tx_meta (md_hash md) (md_to md)))) (b_metas blk) \<and>
    bk_header p = Some h \<and> block_header.m_fields h = block_header.m_fields (proposal_header uninit blk)"
proof -
  obtain ops where r: "run (block_step env) new_block ops (proposal_object uninit blk)" using proposal_object_run by blast
  have "block_parts_ok env checkSig (proposal_object uninit blk)"
    using assms(2) by (simp add: block_parts_ok_def header_current_def proposal_object_parts proposal_header_inv)
  from block_decode_encode [OF assms(1) r this _ assms(3), of calculateHash] show ?thesis
    by (auto simp: proposal_object_parts header_same_def)
qed

lemma sealed_parts:
  assumes "generateProposal utc now m = (c, Some blk, m', cs)"
    and "submitProposal ci fails m' c (Some blk) = Some [SubmitProposal c sealed]"
  shows "b_number blk = max (m_sealingNumber m) (m_currentNumber m + 1) \<and>
    (\<exists>k n. b_metas blk = take k (m_pendingSysTxs m) @ take n (m_pendingTxs m)) \<and>
    sealed = blk\<lparr>b_sealerList := map fst (ci_nodes ci), b_weightList := map snd (ci_nodes ci), b_sealer := ci_nodeIndex ci\<rparr>"
proof -
  have sb: "seal_block utc now m = (c, blk, m')" using generate_cases(3) [OF assms(1)] .
  have num: "b_number blk = max (m_sealingNumber m) (m_currentNumber m + 1)" and "m_currentNumber m' = m_currentNumber m"
    using sb by (auto simp: seal_block_def Let_def)
  then have cur: "\<not> b_number blk \<le> m_currentNumber m'" by linarith
  define t where "t = min (m_maxTxsPerBlock m) (length (m_pendingTxs m) + length (m_pendingSysTxs m))"
  define k where "k = min t (length (m_pendingSysTxs m))"
  have "b_metas blk = take k (m_pendingSysTxs m) @ take (t - k) (m_pendingTxs m)"
    using sb by (auto simp: seal_block_def Let_def k_def t_def)
  then show ?thesis using num cur assms(2) by (auto simp: submitProposal_def simp del: max_less_iff_conj)
qed

text \<open>
  C8: a proposal that one node seals and submits is understood by the others.  The decoded
  block carries the number, sealer list and weights that the sealer set, and its transaction
  root is the root over the hashes taken from the front of the pending queues.  Among the
  blocks with as many transactions as the proposal, a node obtains that root exactly for
  these transactions: if the hashes agree the roots agree, and if the roots agree the hashes
  do, unless the hash function collides on strings hashed for the two roots.  Nothing is
  said of a block with another number of transactions, since the tree does not separate
  leaves from inner nodes.
\<close>

theorem proposal_agreed:
  assumes "env_lawful env" "\<forall>b. length (pe_hash env b) = 32"
    and "generateProposal utc now m = (c, Some blk, m', cs)"
    and "submitProposal ci fails m' c (Some blk) = Some [SubmitProposal c sealed]"
    and "b_metas blk \<noteq> []" "\<forall>md \<in> set (m_pendingSysTxs m @ m_pendingTxs m). length (md_hash md) = 32"
    and "fields_ok (pe_scale env) (block_header.m_fields (proposal_header uninit sealed))"
    and "block_encode env (proposal_object uninit sealed) = Inr (data, p1)"
  shows "\<exists>p h hs. block_decode env calculateHash checkSig new_block data = Inr p \<and> bk_header p = Some h \<and>
    m_number (block_header.m_fields h) = max (m_sealingNumber m) (m_currentNumber m + 1) \<and>
    m_sealerList (block_header.m_fields h) = map fst (ci_nodes ci) \<and> m_consensusWeights (block_header.m_fields h) = map (int \<circ> snd) (ci_nodes ci) \<and>
    (\<exists>k n. hs = map md_hash (take k (m_pendingSysTxs m) @ take n (m_pendingTxs m))) \<and>
    (\<forall>b ts hs'. bk_transactions b = map Some ts \<and> length ts = length hs \<and> map tx_hash ts = map Inr hs' \<longrightarrow>
       (hs' = hs \<longrightarrow> calculateTransactionRoot env b = calculateTransactionRoot env p) \<and>
       (calculateTransactionRoot env b = calculateTransactionRoot env p \<longrightarrow> hs' = hs \<or>
         (\<exists>x \<in> set (merkle_inputs (pe_hash env) (root_leaves hs')).
            \<exists>y \<in> set (merkle_inputs (pe_hash env) (root_leaves hs)). x \<noteq> y \<and> pe_hash env x = pe_hash env y)))"
proof -
  let ?hs = "map md_hash (b_metas blk)"
  obtain k n where num: "b_number blk = max (m_sealingNumber m) (m_currentNumber m + 1)"
    and kn: "b_metas blk = take k (m_pendingSysTxs m) @ take n (m_pendingTxs m)"
    and sealed: "sealed = blk\<lparr>b_sealerList := map fst (ci_nodes ci), b_weightList := map snd (ci_nodes ci),
      b_sealer := ci_nodeIndex ci\<rparr>" using sealed_parts [OF assms(3,4)] by blast
  have len: "\<forall>h \<in> set ?hs. length h = 32" using assms(6) kn by (auto dest: in_set_takeD)
  obtain p h where p: "block_decode env calculateHash checkSig new_block data = Inr p" "bk_transactions p = []"
    "bk_metas p = map (\<lambda>md. meta_of_raw (mt_raw (new_tx_meta (md_hash md) (md_to md)))) (b_metas blk)"
    "bk_header p = Some h" "block_header.m_fields h = block_header.m_fields (proposal_header uninit sealed)"
    using proposal_decodes [OF assms(1,7,8), of calculateHash checkSig] by (auto simp: sealed)
  have mh: "map (\<lambda>m. fst (meta_hash m)) (bk_metas p) = ?hs" using len by (simp add: p(3) meta_hash_decoded)
  have root: "calculateTransactionRoot env p = Inr (calculateMerkleProofRoot (pe_hash env) (root_leaves ?hs))"
    using meta_root_leaves [OF p(2) mh] assms(5) by simp
  have fields: "m_number (block_header.m_fields h) = b_number blk" "m_sealerList (block_header.m_fields h) = map fst (ci_nodes ci)"
    "m_consensusWeights (block_header.m_fields h) = map (int \<circ> snd) (ci_nodes ci)"
    by (simp_all add: p(5) proposal_header_def setter_defs sealed)
  show ?thesis
  proof (intro exI [of _ p] exI [of _ h] exI [of _ ?hs] conjI allI impI p(1,4) fields(2,3), goal_cases)
    case 1
    then show ?case using fields(1) num by simp
  next
    case 2
    show ?case unfolding kn by blast
  next
    case (3 b ts hs')
    then have "ts \<noteq> []" using assms(5) by auto
    with 3 show ?case using root transaction_root_leaves [of b ts hs' env] by simp
  next
    case (4 b ts hs')
    then have "ts \<noteq> []" and l: "length hs' = length ?hs" using assms(5) by (auto dest: arg_cong [where f = length])
    with 4 have eq: "calculateMerkleProofRoot (pe_hash env) (root_leaves hs') =
        calculateMerkleProofRoot (pe_hash env) (root_leaves ?hs)"
      using root transaction_root_leaves [of b ts hs' env] by simp
    have len': "\<forall>h \<in> set hs'. length h = 32" using 4 tx_hashes_length by blast
    show ?case by (rule root_agreement [OF assms(2) l len' len eq])
  qed
qed

definition flow_mgr :: sealing_manager where
  "flow_mgr = sample_mgr\<lparr>m_pendingTxs := [], m_pendingSysTxs := [\<lparr>md_hash = replicate 32 1, md_to = ''a''\<rparr>], m_maxTxsPerBlock := 1\<rparr>"

definition flow_block :: block where
  "flow_block = \<lparr>b_number = 5, b_timestamp = 7, b_metas = [\<lparr>md_hash = replicate 32 1, md_to = ''a''\<rparr>],
     b_sealerList = [[1]], b_weightList = [1], b_sealer = 0\<rparr>"

lemma flow_header_ok: "fields_ok plain_env (block_header.m_fields (proposal_header 0 flow_block))"
  by (simp add: fields_ok_def pair_ok_def fields_tuple_def proposal_header_def flow_block_def setter_defs
      new_block_header_def vector_ok_def hash_ok_def int64_ok_def uint64_ok_def bytes_ok_def int_dom_def env_fits_def
      plain_env_def fb_zero_def)

lemma flow_encodes:
  "\<exists>raw p1. block_encode (Protocol_Objects_Props.sample_env\<lparr>pe_ser_block := one_ser raw [8], pe_parse_block := one_parse raw [8] (bk_raw new_block)\<rparr>)
     (proposal_object 0 flow_block) = Inr ([8], p1)"
proof -
  obtain bs where bs: "encode_hash_fields (block_header.m_fields (proposal_header 0 flow_block)) = Inr bs"
    using fields.enc_ok [OF flow_header_ok] by blast
  have "\<exists>d h1. Block_Header.encode sample_ser (proposal_header 0 flow_block) = Inr (d, h1)"
    using bs by (simp add: encode_def encodeHashFields_def lift_scale_def encodeSignatureList_def sample_ser_def
        proposal_header_def setter_defs new_block_header_def)
  then obtain d h1 where "Block_Header.encode sample_ser (proposal_header 0 flow_block) = Inr (d, h1)" by blast
  then show ?thesis
    by (simp add: block_encode_def encode_header_part_def encodeTransactions_def encodeReceipts_def proposal_object_parts
        encodePBObject_def one_ser_def encodeNonceList_def encodeTransactionsMetaData_def Protocol_Objects_Props.sample_env_def
        clearTransactionMetaDataCache_def Let_def)
qed

theorem proposal_agreed_witness:
  "\<exists>env data p h. block_decode (env :: unit proto_env) True True new_block data = Inr p \<and> bk_header p = Some h \<and>
     m_number (block_header.m_fields h) = 5 \<and> m_sealerList (block_header.m_fields h) = [[1]] \<and> m_consensusWeights (block_header.m_fields h) = [1]"
proof -
  obtain raw p1 where e: "block_encode (Protocol_Objects_Props.sample_env\<lparr>pe_ser_block := one_ser raw [8],
      pe_parse_block := one_parse raw [8] (bk_raw new_block)\<rparr>) (proposal_object 0 flow_block) = Inr ([8], p1)"
    using flow_encodes by blast
  let ?env = "Protocol_Objects_Props.sample_env\<lparr>pe_ser_block := one_ser raw [8], pe_parse_block := one_parse raw [8] (bk_raw new_block)\<rparr>"
  let ?blk = "flow_block\<lparr>b_sealerList := [], b_weightList := []\<rparr>"
  obtain c m' cs where g: "generateProposal 7 9 flow_mgr = (c, Some ?blk, m', cs)" "m_currentNumber m' = 0"
    by (simp add: generateProposal_def shouldGenerateProposal_def flow_mgr_def sample_mgr_def new_sealing_manager_def
        pendingTxsSize_def seal_block_def flow_block_def)
  have s: "submitProposal sample_ci (\<lambda>_. False) m' c (Some ?blk) = Some [SubmitProposal c flow_block]"
    using g(2) by (simp add: submitProposal_def flow_block_def sample_ci_def)
  have "\<forall>b. length (pe_hash ?env b) = 32" "pe_scale ?env = plain_env" by (simp_all add: Protocol_Objects_Props.sample_env_def)
  from proposal_agreed [OF one_block_lawful this(1) g(1) s _ _ _ e, of True True] this(2) flow_header_ok
  obtain p h where "block_decode ?env True True new_block [8] = Inr p" "bk_header p = Some h"
    "m_number (block_header.m_fields h) = max (m_sealingNumber flow_mgr) (m_currentNumber flow_mgr + 1)"
    "m_sealerList (block_header.m_fields h) = map fst (ci_nodes sample_ci)"
    "m_consensusWeights (block_header.m_fields h) = map (int \<circ> snd) (ci_nodes sample_ci)"
    by (auto simp: flow_mgr_def flow_block_def)
  then show ?thesis
    by (intro exI [of _ ?env] exI [of _ "[8]"] exI [of _ p] exI [of _ h])
      (simp add: flow_mgr_def sample_mgr_def new_sealing_manager_def sample_ci_def)
qed

end
